theory Spec2Isabelle
  imports Complex_Main "HOL-Library.Multiset" "HOL-Library.AList" "HOL-Library.Sublist"
begin

chapter \<open>The model\<close>

section \<open>Numbers and arrays\<close>

text \<open>
  The engine computes on JavaScript numbers. They are modelled as real numbers: every
  statement below is about the exact arithmetic the code writes down, not about the
  rounding of IEEE doubles. Reading an array outside its bounds yields \<open>undefined\<close> in
  JavaScript, and arithmetic on \<open>undefined\<close> yields \<open>NaN\<close>; both are the value \<open>None\<close>.
\<close>

definition js_index :: "'a list \<Rightarrow> int \<Rightarrow> 'a option" where
  "js_index xs i = (if 0 \<le> i \<and> i < int (length xs) then Some (xs ! nat i) else None)"

section \<open>Percentiles\<close>

text \<open>
  \<open>StatisticalTests.calculatePercentile\<close>: the position is \<open>(percentile / 100) * (n - 1)\<close>,
  \<open>lower\<close> and \<open>upper\<close> are its floor and ceiling, and the result interpolates between
  the two array cells unless they coincide.
\<close>

definition calculatePercentile :: "real list \<Rightarrow> real \<Rightarrow> real option" where
  "calculatePercentile sortedValues percentile =
     (let index = (percentile / 100) * (real (length sortedValues) - 1);
          lower = \<lfloor>index\<rfloor>;
          upper = \<lceil>index\<rceil>;
          weight = index - of_int lower
      in if lower = upper then js_index sortedValues lower
         else (case (js_index sortedValues lower, js_index sortedValues upper) of
                 (Some a, Some b) \<Rightarrow> Some (a * (1 - weight) + b * weight)
               | _ \<Rightarrow> None))"

text \<open>\<open>DataValidator.calculatePercentile\<close> is the same code, statement by statement.\<close>

definition dv_calculatePercentile :: "real list \<Rightarrow> real \<Rightarrow> real option" where
  "dv_calculatePercentile sortedValues percentile =
     (let index = (percentile / 100) * (real (length sortedValues) - 1);
          lower = \<lfloor>index\<rfloor>;
          upper = \<lceil>index\<rceil>;
          weight = index - of_int lower
      in if lower = upper then js_index sortedValues lower
         else (case (js_index sortedValues lower, js_index sortedValues upper) of
                 (Some a, Some b) \<Rightarrow> Some (a * (1 - weight) + b * weight)
               | _ \<Rightarrow> None))"

text \<open>The interpolation the specification describes, on the order statistics.\<close>

definition interpolated :: "real list \<Rightarrow> real \<Rightarrow> real" where
  "interpolated xs p =
     (let pos = (p / 100) * (real (length xs) - 1)
      in xs ! nat \<lfloor>pos\<rfloor> * (1 - frac pos) + xs ! nat \<lceil>pos\<rceil> * frac pos)"

section \<open>Rank assignment\<close>

text \<open>
  \<open>StatisticalTests.calculateRanks\<close> pairs every value with its index, sorts the pairs by
  value (\<open>Array.prototype.sort\<close> with the comparator \<open>a.value - b.value\<close>, a stable sort),
  and walks the sorted array run by run: \<open>j\<close> advances to the last cell of the run of
  values equal to cell \<open>i\<close>, every cell of the run receives \<open>(i + j + 2) / 2\<close> at its
  original index, and the walk resumes at \<open>j + 1\<close>. The array \<open>ranks\<close> starts as
  \<open>new Array(n)\<close>, all cells empty (\<open>None\<close>). The loops only read cells below the length
  of the array.
\<close>

definition withIndices :: "real list \<Rightarrow> (real \<times> nat) list" where
  "withIndices vs = sort_key fst (zip vs [0..<length vs])"

function tieEnd :: "(real \<times> nat) list \<Rightarrow> nat \<Rightarrow> nat \<Rightarrow> nat" where
  "tieEnd w i j =
     (if j + 1 < length w \<and> fst (w ! (j + 1)) = fst (w ! i) then tieEnd w i (j + 1) else j)"
  by pat_completeness auto
termination
  by (relation "measure (\<lambda>(w, i, j). length w - j)") auto

declare tieEnd.simps [simp del]

function assignRanks ::
  "(real \<times> nat) list \<Rightarrow> real \<Rightarrow> nat \<Rightarrow> nat \<Rightarrow> real option list \<Rightarrow> real option list" where
  "assignRanks w averageRank k j ranks =
     (if k \<le> j then assignRanks w averageRank (k + 1) j (ranks[snd (w ! k) := Some averageRank])
      else ranks)"
  by pat_completeness auto
termination
  by (relation "measure (\<lambda>(w, a, k, j, ranks). j + 1 - k)") auto

declare assignRanks.simps [simp del]

lemma tieEnd_ge: "j \<le> tieEnd w i j"
  by (induction w i j rule: tieEnd.induct) (subst tieEnd.simps, auto)

function rankLoop :: "(real \<times> nat) list \<Rightarrow> nat \<Rightarrow> real option list \<Rightarrow> real option list" where
  "rankLoop w i ranks =
     (if i < length w
      then (let j = tieEnd w i i;
                averageRank = (real i + real j + 2) / 2
            in rankLoop w (j + 1) (assignRanks w averageRank i j ranks))
      else ranks)"
  by pat_completeness auto
termination
proof (relation "measure (\<lambda>(w, i, ranks). length w - i)")
  show "wf (measure (\<lambda>(w, i, ranks). length w - i))" by simp
next
  fix w :: "(real \<times> nat) list" and i :: nat and ranks :: "real option list" and x xa
  assume "i < length w" "x = tieEnd w i i"
  then show "((w, x + 1, assignRanks w xa i x ranks), (w, i, ranks)) \<in> measure (\<lambda>(w, i, ranks). length w - i)"
    using tieEnd_ge[of i w i] by simp
qed

declare rankLoop.simps [simp del]

definition calculateRanks :: "real list \<Rightarrow> real option list" where
  "calculateRanks vs = rankLoop (withIndices vs) 0 (replicate (length vs) None)"

text \<open>
  \<open>StatsLib.calculateRanks\<close> in the worker is the same routine written out a second time
  (the pair fields are called \<open>val\<close> and \<open>idx\<close> there).
\<close>

function sl_tieEnd :: "(real \<times> nat) list \<Rightarrow> nat \<Rightarrow> nat \<Rightarrow> nat" where
  "sl_tieEnd w i j =
     (if j + 1 < length w \<and> fst (w ! (j + 1)) = fst (w ! i) then sl_tieEnd w i (j + 1) else j)"
  by pat_completeness auto
termination
  by (relation "measure (\<lambda>(w, i, j). length w - j)") auto

declare sl_tieEnd.simps [simp del]

function sl_assignRanks ::
  "(real \<times> nat) list \<Rightarrow> real \<Rightarrow> nat \<Rightarrow> nat \<Rightarrow> real option list \<Rightarrow> real option list" where
  "sl_assignRanks w avgRank k j ranks =
     (if k \<le> j then sl_assignRanks w avgRank (k + 1) j (ranks[snd (w ! k) := Some avgRank])
      else ranks)"
  by pat_completeness auto
termination
  by (relation "measure (\<lambda>(w, a, k, j, ranks). j + 1 - k)") auto

declare sl_assignRanks.simps [simp del]

lemma sl_tieEnd_ge: "j \<le> sl_tieEnd w i j"
  by (induction w i j rule: sl_tieEnd.induct) (subst sl_tieEnd.simps, auto)

function sl_rankLoop :: "(real \<times> nat) list \<Rightarrow> nat \<Rightarrow> real option list \<Rightarrow> real option list" where
  "sl_rankLoop w i ranks =
     (if i < length w
      then (let j = sl_tieEnd w i i;
                avgRank = (real i + real j + 2) / 2
            in sl_rankLoop w (j + 1) (sl_assignRanks w avgRank i j ranks))
      else ranks)"
  by pat_completeness auto
termination
proof (relation "measure (\<lambda>(w, i, ranks). length w - i)")
  show "wf (measure (\<lambda>(w, i, ranks). length w - i))" by simp
next
  fix w :: "(real \<times> nat) list" and i :: nat and ranks :: "real option list" and x xa
  assume "i < length w" "x = sl_tieEnd w i i"
  then show "((w, x + 1, sl_assignRanks w xa i x ranks), (w, i, ranks)) \<in> measure (\<lambda>(w, i, ranks). length w - i)"
    using sl_tieEnd_ge[of i w i] by simp
qed

declare sl_rankLoop.simps [simp del]

definition StatsLib_calculateRanks :: "real list \<Rightarrow> real option list" where
  "StatsLib_calculateRanks vs = sl_rankLoop (withIndices vs) 0 (replicate (length vs) None)"

text \<open>
  \<open>runMannWhitneyTest\<close> and \<open>runKruskalWallisTest\<close> do not call \<open>calculateRanks\<close>: each
  sorts the pooled observations by value and ranks them in place with a loop of its own.
  \<open>rank\<close> is the 1-based position of the first cell of a run, \<open>tieCount\<close> the length
  of the run, and \<open>rank + (tieCount - 1) / 2\<close> is pushed once per cell of the run. The two
  loops are the same statements; \<open>s\<close> is the sorted array of values.
\<close>

function countTies :: "real list \<Rightarrow> nat \<Rightarrow> nat \<Rightarrow> nat" where
  "countTies s i tieCount =
     (if i + tieCount < length s \<and> s ! i = s ! (i + tieCount) then countTies s i (tieCount + 1)
      else tieCount)"
  by pat_completeness auto
termination
  by (relation "measure (\<lambda>(s, i, tieCount). length s - (i + tieCount))") auto

declare countTies.simps [simp del]

lemma countTies_ge: "c \<le> countTies s i c"
  by (induction s i c rule: countTies.induct) (subst countTies.simps, auto)

function sortedRanks :: "real list \<Rightarrow> nat \<Rightarrow> real list \<Rightarrow> real list" where
  "sortedRanks s rank ranks =
     (if rank \<le> length s
      then (let i = rank - 1;
                tieCount = countTies s i 1;
                averageRank = real rank + (real tieCount - 1) / 2
            in sortedRanks s (rank + tieCount) (ranks @ replicate tieCount averageRank))
      else ranks)"
  by pat_completeness auto
termination
proof (relation "measure (\<lambda>(s, rank, ranks). length s + 1 - rank)")
  show "wf (measure (\<lambda>(s, rank, ranks). length s + 1 - rank))" by simp
next
  fix s :: "real list" and rank :: nat and ranks :: "real list" and x xa xb
  assume "rank \<le> length s" "xa = countTies s x 1"
  then show "((s, rank + xa, ranks @ replicate xa xb), (s, rank, ranks)) \<in> measure (\<lambda>(s, rank, ranks). length s + 1 - rank)"
    using countTies_ge[of 1 s x] by simp
qed

declare sortedRanks.simps [simp del]

definition pooledRanks :: "('g \<times> real) list \<Rightarrow> real list" where
  "pooledRanks allValues = sortedRanks (map snd (sort_key snd allValues)) 1 []"

text \<open>
  The specification of a midrank, in its own words: the average of the 1-based positions
  that the values tied with \<open>v\<close> occupy in the sorted sequence.
\<close>

definition tiedPositions :: "real list \<Rightarrow> real \<Rightarrow> nat list" where
  "tiedPositions vs v = [p + 1. p \<leftarrow> [0..<length vs], sort vs ! p = v]"

definition midrank :: "real list \<Rightarrow> real \<Rightarrow> real" where
  "midrank vs v = (\<Sum>p\<leftarrow>tiedPositions vs v. real p) / real (length (tiedPositions vs v))"

text \<open>Auxiliary counts for the proofs: the values below \<open>v\<close> and the values equal to it.\<close>

definition lessCount :: "real list \<Rightarrow> real \<Rightarrow> nat" where
  "lessCount xs v = length (filter (\<lambda>x. x < v) xs)"

definition eqCount :: "real list \<Rightarrow> real \<Rightarrow> nat" where
  "eqCount xs v = length (filter (\<lambda>x. x = v) xs)"

definition closedMidrank :: "real list \<Rightarrow> real \<Rightarrow> real" where
  "closedMidrank xs v = real (lessCount xs v) + (real (eqCount xs v) + 1) / 2"

section \<open>Tie correction\<close>

text \<open>
  \<open>StatisticalTests.calculateTieCorrection\<close> receives the items whose \<open>value\<close> field is
  listed in \<open>vs\<close>. It counts the occurrences of every value in the object \<open>valueCounts\<close>
  (\<open>valueCounts[val] = (valueCounts[val] || 0) + 1\<close>, an absent key reading as 0), adds
  \<open>count^3 - count\<close> over the counts above 1, and divides by \<open>n^3 - n\<close> unless \<open>n < 2\<close>.
  The object is an association list in insertion order; \<open>Object.values\<close> may visit its
  entries in another order, which the sum does not depend on.
\<close>

definition lookupCount :: "(real \<times> nat) list \<Rightarrow> real \<Rightarrow> nat" where
  "lookupCount vc v = (case map_of vc v of None \<Rightarrow> 0 | Some c \<Rightarrow> c)"

definition countStep :: "(real \<times> nat) list \<Rightarrow> real \<Rightarrow> (real \<times> nat) list" where
  "countStep vc v = AList.update v (lookupCount vc v + 1) vc"

definition valueCounts :: "real list \<Rightarrow> (real \<times> nat) list" where
  "valueCounts vs = foldl countStep [] vs"

definition tieSum :: "(real \<times> nat) list \<Rightarrow> real" where
  "tieSum vc = foldl (\<lambda>s c. if c > 1 then s + (real c ^ 3 - real c) else s) 0 (map snd vc)"

definition calculateTieCorrection :: "real list \<Rightarrow> real" where
  "calculateTieCorrection vs =
     (let ts = tieSum (valueCounts vs); n = length vs
      in if n < 2 then 0 else ts / (real n ^ 3 - real n))"

text \<open>
  The specification's sum: \<open>c^3 - c\<close> over the groups of tied values, \<open>c\<close> the size of
  the group.
\<close>

definition tiedGroupsSum :: "real list \<Rightarrow> real" where
  "tiedGroupsSum vs = (\<Sum>v\<in>set vs. real (count_list vs v) ^ 3 - real (count_list vs v))"

section \<open>Test catalog and recommender\<close>

text \<open>
  A catalog entry of \<open>initializeTestsDatabase\<close>. The fields that only feed the display
  (name, description, conditions, formula, icon, references) are left out; no function
  modelled here reads them.
\<close>

record testDefinition =
  test_id :: string
  category :: string
  test_type :: string
  assumptions :: "string list"
  minGroups :: nat
  maxGroups :: nat
  minSampleSize :: nat
  recommendedSampleSize :: nat

definition testsDatabase :: "testDefinition list" where
  "testsDatabase =
    [\<lparr>test_id = ''independent-t-test'', category = ''parametric'', test_type = ''comparison'',
      assumptions = [''normality'', ''homogeneity''],
      minGroups = 2, maxGroups = 2, minSampleSize = 2, recommendedSampleSize = 30\<rparr>,
     \<lparr>test_id = ''paired-t-test'', category = ''parametric'', test_type = ''comparison'',
      assumptions = [''normality''],
      minGroups = 2, maxGroups = 2, minSampleSize = 2, recommendedSampleSize = 20\<rparr>,
     \<lparr>test_id = ''one-way-anova'', category = ''parametric'', test_type = ''comparison'',
      assumptions = [''normality'', ''homogeneity''],
      minGroups = 3, maxGroups = 100, minSampleSize = 2, recommendedSampleSize = 20\<rparr>,
     \<lparr>test_id = ''mann-whitney'', category = ''nonparametric'', test_type = ''comparison'',
      assumptions = [],
      minGroups = 2, maxGroups = 2, minSampleSize = 2, recommendedSampleSize = 20\<rparr>,
     \<lparr>test_id = ''kruskal-wallis'', category = ''nonparametric'', test_type = ''comparison'',
      assumptions = [],
      minGroups = 3, maxGroups = 100, minSampleSize = 2, recommendedSampleSize = 20\<rparr>,
     \<lparr>test_id = ''pearson-correlation'', category = ''parametric'', test_type = ''association'',
      assumptions = [''normality'', ''linearity''],
      minGroups = 0, maxGroups = 0, minSampleSize = 3, recommendedSampleSize = 30\<rparr>,
     \<lparr>test_id = ''spearman-correlation'', category = ''nonparametric'', test_type = ''association'',
      assumptions = [],
      minGroups = 0, maxGroups = 0, minSampleSize = 3, recommendedSampleSize = 20\<rparr>,
     \<lparr>test_id = ''chi-square-independence'', category = ''nonparametric'', test_type = ''association'',
      assumptions = [''expected_counts''],
      minGroups = 0, maxGroups = 0, minSampleSize = 20, recommendedSampleSize = 50\<rparr>,
     \<lparr>test_id = ''simple-linear-regression'', category = ''parametric'', test_type = ''prediction'',
      assumptions = [''normality'', ''linearity'', ''homoscedasticity'', ''independence''],
      minGroups = 0, maxGroups = 0, minSampleSize = 10, recommendedSampleSize = 30\<rparr>,
     \<lparr>test_id = ''wilcoxon-signed-rank'', category = ''nonparametric'', test_type = ''comparison'',
      assumptions = [''symmetry''],
      minGroups = 2, maxGroups = 2, minSampleSize = 2, recommendedSampleSize = 20\<rparr>]"

text \<open>\<open>String.prototype.includes\<close>: the argument occurs somewhere in the string.\<close>

fun startsWith :: "string \<Rightarrow> string \<Rightarrow> bool" where
  "startsWith s [] = True"
| "startsWith [] (c # cs) = False"
| "startsWith (x # xs) (c # cs) = (x = c \<and> startsWith xs cs)"

fun str_includes :: "string \<Rightarrow> string \<Rightarrow> bool" where
  "str_includes [] sub = (sub = [])"
| "str_includes (x # xs) sub = (startsWith (x # xs) sub \<or> str_includes xs sub)"

text \<open>
  The wizard's selections: four slots, each empty (\<open>undefined\<close>, here \<open>None\<close>) or holding
  one string. The data summary \<open>dataInfo\<close> may be absent, and so may its fields; only
  the labels of \<open>groups\<close> and the length of \<open>values\<close> are read.
\<close>

record selections =
  design :: "string option"
  characteristics :: "string option"
  samples :: "string option"
  groups :: "string option"

record dataInfo =
  data_groups :: "string list option"
  data_values :: "real list option"

text \<open>
  \<open>[...new Set(xs)]\<close>: the distinct elements in the order of their first occurrence.
\<close>

definition uniqueGroups :: "'a list \<Rightarrow> 'a list" where
  "uniqueGroups xs = foldl (\<lambda>acc x. if x \<in> set acc then acc else acc @ [x]) [] xs"

text \<open>The body of the \<open>forEach\<close> in \<open>getRecommendations\<close>: the score of one catalog entry.\<close>

definition dataCompatibility :: "dataInfo option \<Rightarrow> testDefinition \<Rightarrow> int \<Rightarrow> int" where
  "dataCompatibility info t score0 =
     (case info of
        None \<Rightarrow> score0
      | Some d \<Rightarrow>
          (case (data_groups d, data_values d) of
             (Some gs, Some vs) \<Rightarrow>
               (let unique = uniqueGroups gs;
                    s1 = (if minGroups t > 0 \<and> length unique < minGroups t then score0 - 5 else score0);
                    s2 = (if maxGroups t > 0 \<and> length unique > maxGroups t then s1 - 5 else s1);
                    s3 = (if length vs < minSampleSize t then s2 - 3 else s2)
                in s3)
           | _ \<Rightarrow> score0))"

definition scoreTest :: "selections \<Rightarrow> dataInfo option \<Rightarrow> testDefinition \<Rightarrow> int" where
  "scoreTest sel info t =
     (let s0 = 0;
          s1 = (if design sel = Some ''comparison'' \<and> test_type t = ''comparison'' then s0 + 3 else s0);
          s2 = (if design sel = Some ''association'' \<and> test_type t = ''association'' then s1 + 3 else s1);
          s3 = (if design sel = Some ''prediction'' \<and> test_type t = ''prediction'' then s2 + 3 else s2);
          s4 = (if characteristics sel = Some ''continuous-normal'' \<and> category t = ''parametric''
                then s3 + 2 else s3);
          s5 = (if characteristics sel = Some ''continuous-nonnormal'' \<and> category t = ''nonparametric''
                then s4 + 2 else s4);
          s6 = (if characteristics sel = Some ''categorical'' \<and> test_id t = ''chi-square-independence''
                then s5 + 2 else s5);
          s7 = (if characteristics sel = Some ''ordinal'' \<and> category t = ''nonparametric''
                then s6 + 2 else s6);
          s8 = (if samples sel = Some ''independent'' \<and> str_includes (test_id t) ''independent''
                then s7 + 2 else s7);
          s9 = (if samples sel = Some ''paired'' \<and>
                   (str_includes (test_id t) ''paired'' \<or> test_id t = ''wilcoxon-signed-rank'')
                then s8 + 2 else s8);
          s10 = (if groups sel = Some ''2'' \<and> minGroups t = 2 \<and> maxGroups t = 2 then s9 + 2 else s9);
          s11 = (if groups sel = Some ''3+'' \<and> minGroups t \<ge> 3 then s10 + 2 else s10);
          s12 = (if groups sel = Some ''variable'' \<and> minGroups t = 0 then s11 + 2 else s11)
      in dataCompatibility info t s12)"

text \<open>
  \<open>getSuitabilityLevel\<close> returns one of four Arabic labels; the constructors stand for
  them in the order excellent, very good, good, acceptable.
\<close>

datatype suitabilityLevel = Excellent | VeryGood | Good | Acceptable

definition getSuitabilityLevel :: "int \<Rightarrow> suitabilityLevel" where
  "getSuitabilityLevel score =
     (if score \<ge> 8 then Excellent
      else if score \<ge> 6 then VeryGood
      else if score \<ge> 4 then Good
      else Acceptable)"

record recommendation =
  rec_test :: testDefinition
  rec_score :: int
  rec_suitability :: suitabilityLevel

text \<open>
  \<open>getRecommendations\<close>: every entry with a positive score is pushed in catalog order,
  the array is sorted with the comparator \<open>b.score - a.score\<close> (stable, descending), and
  \<open>slice(0, 3)\<close> keeps the first three.
\<close>

definition scoredEntries :: "selections \<Rightarrow> dataInfo option \<Rightarrow> recommendation list" where
  "scoredEntries sel info =
     [\<lparr>rec_test = t, rec_score = scoreTest sel info t,
       rec_suitability = getSuitabilityLevel (scoreTest sel info t)\<rparr>.
        t \<leftarrow> testsDatabase, scoreTest sel info t > 0]"

definition getRecommendations :: "selections \<Rightarrow> dataInfo option \<Rightarrow> recommendation list" where
  "getRecommendations sel info = take 3 (sort_key (\<lambda>r. - rec_score r) (scoredEntries sel info))"

text \<open>
  The order of the catalog, for saying which of several entries of equal score are kept:
  \<open>a\<close> comes before \<open>b\<close> in a list when \<open>b\<close> occurs after the first occurrence of \<open>a\<close>.
\<close>

definition comesBefore :: "'a \<Rightarrow> 'a \<Rightarrow> 'a list \<Rightarrow> bool" where
  "comesBefore a b xs = (b \<in> set (tl (dropWhile (\<lambda>x. x \<noteq> a) xs)))"

section \<open>Assumption checks\<close>

text \<open>
  Errors raised inside the checks. \<open>ss.mean\<close> of the library simple-statistics is the
  arithmetic mean and throws on an empty array; calling a property that is not a method,
  or reading a property of \<open>undefined\<close>, throws a \<open>TypeError\<close>.
\<close>

datatype js_error = NotAFunction string | PropertyOfUndefined string | NoDataPoints

definition ss_mean :: "real list \<Rightarrow> js_error + real" where
  "ss_mean xs = (if xs = [] then Inl NoDataPoints else Inr (sum_list xs / real (length xs)))"

text \<open>
  The result of a check. The \<open>result\<close> and \<open>message\<close> fields hold Arabic text in the
  source; the constructors below stand for the distinct texts. \<open>statistic\<close> and \<open>pValue\<close>
  are the numbers before \<open>toFixed(4)\<close> formats them; \<open>null\<close> is \<open>None\<close>.
\<close>

datatype verdict =
  NotApplicable | Normal | NotNormal | Homogeneous | NotHomogeneous | Failed
  | NoOutliers | OutliersFound nat

datatype message =
  SampleSizeUnsuitable nat | NormalMessage | NotNormalMessage
  | NeedsTwoGroups | HomogeneousMessage | NotHomogeneousMessage
  | CalculationError js_error
  | SampleTooSmall | NoOutliersMessage | OutliersDetected nat

record assumptionResult =
  ar_test :: string
  ar_statistic :: "real option"
  ar_pValue :: "real option"
  ar_result :: verdict
  ar_passed :: "bool option"
  ar_message :: message

definition calculateShapiroWilkPValue :: "real \<Rightarrow> nat \<Rightarrow> real" where
  "calculateShapiroWilkPValue W n =
     (if W > 0.95 then 0.9
      else if W > 0.9 then 0.5
      else if W > 0.85 then 0.1
      else if W > 0.8 then 0.05
      else if W > 0.75 then 0.01
      else 0.001)"

text \<open>
  \<open>shapiroWilkTest\<close>: outside 3..5000 observations an inapplicable result; otherwise the
  values are sorted, their mean and sum of squared deviations are computed, and the
  statistic is the constant 0.9 of the source.
\<close>

definition shapiroWilkTest :: "real list \<Rightarrow> assumptionResult" where
  "shapiroWilkTest vs =
     (let n = length vs
      in if n < 3 \<or> n > 5000
         then \<lparr>ar_test = ''Shapiro-Wilk'', ar_statistic = None, ar_pValue = None,
               ar_result = NotApplicable, ar_passed = None,
               ar_message = SampleSizeUnsuitable n\<rparr>
         else (let sorted = sort vs
               in case ss_mean sorted of
                    Inl e \<Rightarrow>
                      \<lparr>ar_test = ''Shapiro-Wilk'', ar_statistic = None, ar_pValue = None,
                       ar_result = Failed, ar_passed = None,
                       ar_message = CalculationError e\<rparr>
                  | Inr mean \<Rightarrow>
                      (let numerator = (\<Sum>x\<leftarrow>sorted. (x - mean) ^ 2);
                           W = 0.9;
                           pValue = calculateShapiroWilkPValue W n;
                           passed = (pValue > 0.05)
                       in \<lparr>ar_test = ''Shapiro-Wilk'', ar_statistic = Some W,
                            ar_pValue = Some pValue,
                            ar_result = (if passed then Normal else NotNormal),
                            ar_passed = Some passed,
                            ar_message = (if passed then NormalMessage else NotNormalMessage)\<rparr>)))"

text \<open>
  \<open>values.filter((_, i) => groups[i] === group)\<close>: the values whose label is \<open>g\<close>; a value
  beyond the end of \<open>groups\<close> has the label \<open>undefined\<close> and belongs to no group.
\<close>

definition groupValues :: "'v list \<Rightarrow> 'g list \<Rightarrow> 'g \<Rightarrow> 'v list" where
  "groupValues vs gs g = map fst (filter (\<lambda>(v, g'). g' = g) (zip vs gs))"

fun groupMeansOf :: "real list \<Rightarrow> string list \<Rightarrow> string list \<Rightarrow> js_error + (string \<times> real) list" where
  "groupMeansOf vs gs [] = Inr []"
| "groupMeansOf vs gs (g # rest) =
     (case ss_mean (groupValues vs gs g) of
        Inl e \<Rightarrow> Inl e
      | Inr m \<Rightarrow> (case groupMeansOf vs gs rest of
                   Inl e \<Rightarrow> Inl e
                 | Inr ms \<Rightarrow> Inr ((g, m) # ms)))"

definition absoluteDeviations :: "real list \<Rightarrow> string list \<Rightarrow> (string \<times> real) list \<Rightarrow> real option list" where
  "absoluteDeviations vs gs groupMeans =
     map (\<lambda>(v, i). case js_index gs (int i) of
                      None \<Rightarrow> None
                    | Some g \<Rightarrow> (case map_of groupMeans g of
                                  None \<Rightarrow> None
                                | Some m \<Rightarrow> Some \<bar>v - m\<bar>))
       (zip vs [0..<length vs])"

text \<open>
  \<open>leveneTest\<close> hands the deviations to \<open>this.oneWayANOVA\<close>. The class
  \<open>StatisticalTests\<close> has no member of that name (its ANOVA is \<open>runOneWayANOVA\<close>), so
  the call throws a \<open>TypeError\<close> before anything is computed.
\<close>

definition oneWayANOVA :: "real option list \<Rightarrow> string list \<Rightarrow> js_error + (real \<times> real)" where
  "oneWayANOVA deviations gs = Inl (NotAFunction ''this.oneWayANOVA'')"

definition leveneFailed :: "js_error \<Rightarrow> assumptionResult" where
  "leveneFailed e =
     \<lparr>ar_test = ''Levene'', ar_statistic = None, ar_pValue = None,
      ar_result = Failed, ar_passed = None, ar_message = CalculationError e\<rparr>"

definition leveneTest :: "real list \<Rightarrow> string list \<Rightarrow> assumptionResult" where
  "leveneTest vs gs =
     (let unique = uniqueGroups gs
      in if length unique < 2
         then \<lparr>ar_test = ''Levene'', ar_statistic = None, ar_pValue = None,
               ar_result = NotApplicable, ar_passed = None, ar_message = NeedsTwoGroups\<rparr>
         else (case groupMeansOf vs gs unique of
                 Inl e \<Rightarrow> leveneFailed e
               | Inr groupMeans \<Rightarrow>
                   (let deviations = absoluteDeviations vs gs groupMeans
                    in case oneWayANOVA deviations gs of
                         Inl e \<Rightarrow> leveneFailed e
                       | Inr (statistic, pValue) \<Rightarrow>
                           (let passed = (pValue > 0.05)
                            in \<lparr>ar_test = ''Levene'', ar_statistic = Some statistic,
                                 ar_pValue = Some pValue,
                                 ar_result = (if passed then Homogeneous else NotHomogeneous),
                                 ar_passed = Some passed,
                                 ar_message = (if passed then HomogeneousMessage
                                               else NotHomogeneousMessage)\<rparr>))))"

text \<open>
  The worker's \<open>handleAssumptionsCheck\<close> has a homogeneity check of its own: the
  population variance of every group, and \<open>passed\<close> when the largest is less than four
  times the smallest. A quotient of a number by zero is \<open>Infinity\<close> or \<open>NaN\<close> in
  JavaScript and never below 4, which the guard on the smallest variance reproduces.
\<close>

definition populationVariance :: "real list \<Rightarrow> real" where
  "populationVariance xs =
     (let mean = sum_list xs / real (length xs)
      in (\<Sum>x\<leftarrow>xs. (x - mean) ^ 2) / real (length xs))"

definition workerHomogeneityPassed :: "real list \<Rightarrow> string list \<Rightarrow> bool" where
  "workerHomogeneityPassed vs gs =
     (let groupVariances = map (\<lambda>g. populationVariance (groupValues vs gs g)) (uniqueGroups gs);
          maxVariance = Max (set groupVariances);
          minVariance = Min (set groupVariances)
      in minVariance \<noteq> 0 \<and> maxVariance / minVariance < 4)"

text \<open>
  \<open>detectOutliers\<close>: below four observations an inapplicable result; otherwise the
  quartiles of the sorted values by \<open>calculatePercentile\<close>, the fences at 1.5 times the
  interquartile range, and the pairs of value and index outside the fences. With a
  quartile that is not a number no comparison succeeds and no outlier is reported.
\<close>

record outlierResult =
  or_test :: string
  or_outliers :: "(real \<times> nat) list"
  or_lowerBound :: "real option"
  or_upperBound :: "real option"
  or_result :: verdict
  or_passed :: "bool option"
  or_message :: message

definition detectOutliers :: "real list \<Rightarrow> outlierResult" where
  "detectOutliers vs =
     (if length vs < 4
      then \<lparr>or_test = ''IQR Outlier Detection'', or_outliers = [], or_lowerBound = None,
            or_upperBound = None, or_result = NotApplicable, or_passed = None,
            or_message = SampleTooSmall\<rparr>
      else (let sorted = sort vs
            in case (calculatePercentile sorted 25, calculatePercentile sorted 75) of
                 (Some q1, Some q3) \<Rightarrow>
                   (let iqr = q3 - q1;
                        lowerBound = q1 - 1.5 * iqr;
                        upperBound = q3 + 1.5 * iqr;
                        outliers = filter (\<lambda>(v, i). v < lowerBound \<or> v > upperBound)
                                     (zip vs [0..<length vs]);
                        passed = (length outliers = 0)
                    in \<lparr>or_test = ''IQR Outlier Detection'', or_outliers = outliers,
                         or_lowerBound = Some lowerBound, or_upperBound = Some upperBound,
                         or_result = (if passed then NoOutliers else OutliersFound (length outliers)),
                         or_passed = Some passed,
                         or_message = (if passed then NoOutliersMessage
                                       else OutliersDetected (length outliers))\<rparr>)
               | _ \<Rightarrow>
                   \<lparr>or_test = ''IQR Outlier Detection'', or_outliers = [], or_lowerBound = None,
                    or_upperBound = None, or_result = NoOutliers, or_passed = Some True,
                    or_message = NoOutliersMessage\<rparr>))"

text \<open>
  \<open>checkAssumptions\<close> keeps a cache in \<open>this.assumptionsCache\<close>. The key is the string
  \<open>JSON.stringify(values) + "-" + JSON.stringify(groups)\<close>, here the pair of the two
  payloads: equal payloads give equal keys, and \<open>checks\<close> is not part of the key.
  \<open>groups\<close> may be \<open>null\<close> (\<open>None\<close>). The clock \<open>Date.now()\<close> is read twice, when the
  cached entry is tested (\<open>now\<close>) and when the new entry is stored (\<open>storeTime\<close>); times
  are in milliseconds. The state is threaded: the function returns the results and the
  cache after the call. No check throws, so the \<open>catch\<close> of the source is never entered.
\<close>

record checks =
  chk_normality :: bool
  chk_homogeneity :: bool
  chk_outliers :: bool

record assumptionResults =
  res_normality :: "assumptionResult option"
  res_homogeneity :: "assumptionResult option"
  res_outliers :: "outlierResult option"

record cacheEntry =
  ce_results :: assumptionResults
  ce_timestamp :: int

type_synonym cacheKey = "real list \<times> string list option"

type_synonym assumptionsCache = "cacheKey \<rightharpoonup> cacheEntry"

definition cachedResults :: "assumptionsCache \<Rightarrow> int \<Rightarrow> cacheKey \<Rightarrow> assumptionResults option" where
  "cachedResults cache now cacheKey =
     (case cache cacheKey of
        None \<Rightarrow> None
      | Some cached \<Rightarrow>
          if ce_timestamp cached > now - 300000 then Some (ce_results cached) else None)"

definition computeResults :: "real list \<Rightarrow> string list option \<Rightarrow> checks \<Rightarrow> assumptionResults" where
  "computeResults vs gs chk =
     \<lparr>res_normality =
        (if chk_normality chk \<and> length vs \<ge> 3 \<and> length vs \<le> 5000
         then Some (shapiroWilkTest vs) else None),
      res_homogeneity =
        (case gs of
           None \<Rightarrow> None
         | Some labels \<Rightarrow>
             if chk_homogeneity chk \<and> length labels > 0
             then Some (leveneTest vs labels) else None),
      res_outliers =
        (if chk_outliers chk then Some (detectOutliers vs) else None)\<rparr>"

definition checkAssumptions ::
  "assumptionsCache \<Rightarrow> int \<Rightarrow> int \<Rightarrow> real list \<Rightarrow> string list option \<Rightarrow> checks
     \<Rightarrow> assumptionResults \<times> assumptionsCache" where
  "checkAssumptions cache now storeTime vs gs chk =
     (let cacheKey = (vs, gs)
      in case cachedResults cache now cacheKey of
           Some results \<Rightarrow> (results, cache)
         | None \<Rightarrow>
             (let results = computeResults vs gs chk
              in (results, cache(cacheKey \<mapsto> \<lparr>ce_results = results, ce_timestamp = storeTime\<rparr>))))"

section \<open>Running a test on the main thread and in the worker\<close>

subsection \<open>The independent t-test of the main-thread engine\<close>

text \<open>
  The main-thread engine takes its distribution functions from the library jStat, which
  is no part of the repository: \<open>jStat.studentt.cdf(x, dof)\<close>, \<open>jStat.studentt.inv(p, dof)\<close>
  and \<open>jStat.noncentralt.cdf(x, dof, ncp)\<close> are parameters of the model.
  \<open>ss.standardDeviation\<close> of simple-statistics is the population standard deviation
  (denominator \<open>n\<close>) and, like \<open>ss.mean\<close>, throws on an empty array. A division by zero
  yields \<open>Infinity\<close> or \<open>NaN\<close> in JavaScript and 0 in HOL; the statements about these
  functions say where they depend on a non-zero denominator.
\<close>

record jStat =
  studentt_cdf :: "real \<Rightarrow> real \<Rightarrow> real"
  studentt_inv :: "real \<Rightarrow> real \<Rightarrow> real"
  noncentralt_cdf :: "real \<Rightarrow> real \<Rightarrow> real \<Rightarrow> real"

definition ss_standardDeviation :: "real list \<Rightarrow> js_error + real" where
  "ss_standardDeviation xs =
     (if xs = [] then Inl NoDataPoints
      else Inr (sqrt ((\<Sum>x\<leftarrow>xs. (x - sum_list xs / real (length xs)) ^ 2) / real (length xs))))"

datatype test_error = NeedsExactlyTwoGroups | PairedLengthsDiffer | LibraryError js_error

record tTestResult =
  tt_t :: real
  tt_df :: int
  tt_pValue :: real
  tt_mean1 :: real
  tt_mean2 :: real
  tt_std1 :: real
  tt_std2 :: real
  tt_n1 :: nat
  tt_n2 :: nat
  tt_cohensD :: real
  tt_ciLower :: real
  tt_ciUpper :: real
  tt_containsZero :: bool
  tt_power :: real

text \<open>\<open>calculatePower(t, df, alpha, tails)\<close>, called with \<open>0.05\<close> and \<open>two-tailed\<close>.\<close>

definition calculatePower :: "jStat \<Rightarrow> real \<Rightarrow> int \<Rightarrow> real \<Rightarrow> bool \<Rightarrow> real" where
  "calculatePower lib t df alpha twoTailed =
     (let noncentrality = \<bar>t\<bar>;
          criticalT = studentt_inv lib (1 - alpha / (if twoTailed then 2 else 1)) (of_int df);
          power = 1 - noncentralt_cdf lib criticalT (of_int df) noncentrality
      in min (max power 0) 1)"

definition pooledStd :: "nat \<Rightarrow> real \<Rightarrow> nat \<Rightarrow> real \<Rightarrow> real" where
  "pooledStd n1 std1 n2 std2 =
     sqrt (((real n1 - 1) * std1 * std1 + (real n2 - 1) * std2 * std2) / (real n1 + real n2 - 2))"

text \<open>
  \<open>StatisticalTests.runIndependentTTest\<close>. The two groups are the first and the second
  distinct label in the order of first occurrence. The statistics are the numbers before
  \<open>toFixed(4)\<close>; the interpretation and recommendation texts and the attached assumption
  report are not modelled.
\<close>

definition runIndependentTTest :: "jStat \<Rightarrow> real list \<Rightarrow> 'g list \<Rightarrow> test_error + tTestResult" where
  "runIndependentTTest lib vs gs =
     (let unique = uniqueGroups gs
      in if length unique \<noteq> 2 then Inl NeedsExactlyTwoGroups
         else (let group1Values = groupValues vs gs (unique ! 0);
                   group2Values = groupValues vs gs (unique ! 1)
               in case (ss_mean group1Values, ss_mean group2Values,
                        ss_standardDeviation group1Values, ss_standardDeviation group2Values) of
                    (Inr mean1, Inr mean2, Inr std1, Inr std2) \<Rightarrow>
                      (let n1 = length group1Values;
                           n2 = length group2Values;
                           pooled = pooledStd n1 std1 n2 std2;
                           t = (mean1 - mean2) / (pooled * sqrt (1 / real n1 + 1 / real n2));
                           df = int n1 + int n2 - 2;
                           pValue = 2 * (1 - studentt_cdf lib \<bar>t\<bar> (of_int df));
                           d = (mean1 - mean2) / pooled;
                           se = pooled * sqrt (1 / real n1 + 1 / real n2);
                           tCritical = studentt_inv lib 0.975 (of_int df);
                           ciLower = (mean1 - mean2) - tCritical * se;
                           ciUpper = (mean1 - mean2) + tCritical * se;
                           power = calculatePower lib t df 0.05 True
                       in Inr \<lparr>tt_t = t, tt_df = df, tt_pValue = pValue,
                                tt_mean1 = mean1, tt_mean2 = mean2,
                                tt_std1 = std1, tt_std2 = std2, tt_n1 = n1, tt_n2 = n2,
                                tt_cohensD = d, tt_ciLower = ciLower, tt_ciUpper = ciUpper,
                                tt_containsZero = (ciLower \<le> 0 \<and> ciUpper \<ge> 0),
                                tt_power = power\<rparr>)
                  | _ \<Rightarrow> Inl (LibraryError NoDataPoints)))"

subsection \<open>JavaScript values and numbers\<close>

text \<open>
  What a message between the application and the worker carries: \<open>undefined\<close>, \<open>null\<close>,
  strings, numbers, arrays, and plain objects as lists of their own properties. A table
  is an array of row objects whose cells are strings (from a CSV file) or numbers (the
  built-in sample data). Equality of these values stands for \<open>===\<close> and for the
  comparison a \<open>Set\<close> makes; that is right for cells that are strings, numbers,
  \<open>undefined\<close> or \<open>null\<close>, and not for cells that are themselves arrays or objects, which
  JavaScript compares by identity.
\<close>

datatype js_value =
  Undefined | Null | Str string | Num real | Arr "js_value list" | Obj "(string \<times> js_value) list"

text \<open>
  Reading the property \<open>k\<close> of a value, as \<open>v[k]\<close> and the destructuring \<open>const { k } = v\<close> do:
  a \<open>TypeError\<close> on \<open>undefined\<close> and \<open>null\<close>, the property of an object, and \<open>undefined\<close>
  where there is none. The model knows own data properties only: not \<open>length\<close> and the
  indices of an array or string, and not the methods inherited from a prototype. No name
  read below (\<open>action\<close>, \<open>data\<close>, \<open>testId\<close>, \<open>catColumn\<close>, \<open>numColumn\<close>) is one of those, and the
  names of the selected columns are assumed not to be.
\<close>

definition property :: "js_value \<Rightarrow> string \<Rightarrow> js_error + js_value" where
  "property v k =
     (case v of
        Undefined \<Rightarrow> Inl (PropertyOfUndefined k)
      | Null \<Rightarrow> Inl (PropertyOfUndefined k)
      | Obj props \<Rightarrow> Inr (case map_of props k of Some x \<Rightarrow> x | None \<Rightarrow> Undefined)
      | _ \<Rightarrow> Inr Undefined)"

text \<open>
  A number as the arithmetic of the worker sees it: a real number, \<open>Infinity\<close>,
  \<open>-Infinity\<close> or \<open>NaN\<close>. The arithmetic is exact on the real numbers (no rounding and no
  overflow), follows IEEE 754 where an operand or the result is not a real number, and
  knows one zero only, the positive one: on what \<open>handleTestRequest\<close> passes on, the
  divisors in the functions below are counts, square roots and products of square roots,
  and \<open>n1 + n2 - 2\<close>, none of which is \<open>-0\<close>.
\<close>

datatype number = Finite real | PosInfinity | NegInfinity | NaN

fun signOf :: "number \<Rightarrow> real" where
  "signOf (Finite a) = sgn a"
| "signOf PosInfinity = 1"
| "signOf NegInfinity = - 1"
| "signOf NaN = 0"

fun ofSign :: "real \<Rightarrow> number" where
  "ofSign s = (if s = 0 then NaN else if 0 < s then PosInfinity else NegInfinity)"

fun js_uminus :: "number \<Rightarrow> number" where
  "js_uminus (Finite a) = Finite (- a)"
| "js_uminus PosInfinity = NegInfinity"
| "js_uminus NegInfinity = PosInfinity"
| "js_uminus NaN = NaN"

fun js_plus :: "number \<Rightarrow> number \<Rightarrow> number" where
  "js_plus (Finite a) (Finite b) = Finite (a + b)"
| "js_plus NaN y = NaN"
| "js_plus x NaN = NaN"
| "js_plus PosInfinity NegInfinity = NaN"
| "js_plus NegInfinity PosInfinity = NaN"
| "js_plus PosInfinity y = PosInfinity"
| "js_plus x PosInfinity = PosInfinity"
| "js_plus NegInfinity y = NegInfinity"
| "js_plus x NegInfinity = NegInfinity"

definition js_minus :: "number \<Rightarrow> number \<Rightarrow> number" where
  "js_minus x y = js_plus x (js_uminus y)"

fun js_times :: "number \<Rightarrow> number \<Rightarrow> number" where
  "js_times (Finite a) (Finite b) = Finite (a * b)"
| "js_times NaN y = NaN"
| "js_times x NaN = NaN"
| "js_times x y = ofSign (signOf x * signOf y)"

fun js_divide :: "number \<Rightarrow> number \<Rightarrow> number" where
  "js_divide (Finite a) (Finite b) = (if b = 0 then ofSign (sgn a) else Finite (a / b))"
| "js_divide NaN y = NaN"
| "js_divide x NaN = NaN"
| "js_divide (Finite a) y = Finite 0"
| "js_divide x (Finite b) = ofSign (signOf x * (if b < 0 then - 1 else 1))"
| "js_divide x y = NaN"

fun js_sqrt :: "number \<Rightarrow> number" where
  "js_sqrt (Finite a) = (if a < 0 then NaN else Finite (sqrt a))"
| "js_sqrt PosInfinity = PosInfinity"
| "js_sqrt NegInfinity = NaN"
| "js_sqrt NaN = NaN"

fun js_abs :: "number \<Rightarrow> number" where
  "js_abs (Finite a) = Finite \<bar>a\<bar>"
| "js_abs PosInfinity = PosInfinity"
| "js_abs NegInfinity = PosInfinity"
| "js_abs NaN = NaN"

text \<open>\<open>x > y\<close>, which is false as soon as one side is \<open>NaN\<close>.\<close>

fun js_greater :: "number \<Rightarrow> number \<Rightarrow> bool" where
  "js_greater (Finite a) (Finite b) = (a > b)"
| "js_greater NaN y = False"
| "js_greater x NaN = False"
| "js_greater PosInfinity y = (y \<noteq> PosInfinity)"
| "js_greater x PosInfinity = False"
| "js_greater x NegInfinity = (x \<noteq> NegInfinity)"
| "js_greater NegInfinity y = False"

text \<open>
  \<open>parseFloat\<close> and the conversion of a value to a string belong to the language, not to
  the repository. \<open>parseFloat\<close> of a number is that number, of \<open>undefined\<close> and \<open>null\<close> it
  is \<open>NaN\<close>; how a string is read as a number and how a number, an array or an object
  is written as a string are parameters of the model.
\<close>

record builtins =
  parseFloat_string :: "string \<Rightarrow> number"
  toString :: "js_value \<Rightarrow> string"

definition parseFloat :: "builtins \<Rightarrow> js_value \<Rightarrow> number" where
  "parseFloat b v =
     (case v of
        Num r \<Rightarrow> Finite r
      | Undefined \<Rightarrow> NaN
      | Null \<Rightarrow> NaN
      | Str s \<Rightarrow> parseFloat_string b s
      | _ \<Rightarrow> parseFloat_string b (toString b v))"

text \<open>The name under which \<open>row[k]\<close> looks up a property when \<open>k\<close> is any value.\<close>

definition propertyKey :: "builtins \<Rightarrow> js_value \<Rightarrow> string" where
  "propertyKey b k =
     (case k of
        Str s \<Rightarrow> s
      | Undefined \<Rightarrow> ''undefined''
      | Null \<Rightarrow> ''null''
      | _ \<Rightarrow> toString b k)"

subsection \<open>The worker\<close>

text \<open>
  The worker's statistics library \<open>StatsLib\<close>: mean and population standard deviation
  written with \<open>reduce\<close> (no exception on an empty array, but \<open>0 / 0\<close>), the p-value of
  a t statistic as a step function of its magnitude, and \<open>tTest\<close> with its paired and
  independent branches. \<open>Math.pow(x, 2)\<close> is \<open>x * x\<close>, also at the infinities and \<open>NaN\<close>.
\<close>

definition StatsLib_mean :: "number list \<Rightarrow> number" where
  "StatsLib_mean xs = js_divide (foldl js_plus (Finite 0) xs) (Finite (real (length xs)))"

definition StatsLib_stdDev :: "number list \<Rightarrow> number" where
  "StatsLib_stdDev xs =
     (let mean = StatsLib_mean xs;
          squaredDiffs = map (\<lambda>x. js_times (js_minus x mean) (js_minus x mean)) xs;
          variance = js_divide (foldl js_plus (Finite 0) squaredDiffs) (Finite (real (length xs)))
      in js_sqrt variance)"

definition calculateTPValue :: "number \<Rightarrow> int \<Rightarrow> real" where
  "calculateTPValue t df =
     (let absT = js_abs t
      in if df \<le> 0 then 1
         else if js_greater absT (Finite 10) then 0.0001
         else if js_greater absT (Finite 4) then 0.001
         else if js_greater absT (Finite 2.5) then 0.02
         else if js_greater absT (Finite 2) then 0.05
         else if js_greater absT (Finite 1.5) then 0.15
         else 0.3)"

text \<open>
  \<open>tTest\<close> returns an object with \<open>t\<close>, \<open>df\<close> and \<open>pValue\<close> and, depending on the
  branch, either \<open>meanDiff\<close> and \<open>stdDiff\<close> or the two means and standard deviations; a
  field the branch does not set is \<open>undefined\<close> (\<open>None\<close>).
\<close>

record tTestStats =
  ts_t :: number
  ts_df :: int
  ts_pValue :: real
  ts_mean1 :: "number option"
  ts_mean2 :: "number option"
  ts_std1 :: "number option"
  ts_std2 :: "number option"
  ts_meanDiff :: "number option"
  ts_stdDiff :: "number option"

definition StatsLib_tTest :: "number list \<Rightarrow> number list \<Rightarrow> bool \<Rightarrow> test_error + tTestStats" where
  "StatsLib_tTest group1 group2 paired =
     (if paired \<and> length group1 \<noteq> length group2 then Inl PairedLengthsDiffer
      else if paired
      then (let differences = map (\<lambda>(a, b). js_minus a b) (zip group1 group2);
                meanDiff = StatsLib_mean differences;
                stdDiff = StatsLib_stdDev differences;
                n = length differences;
                t = js_divide meanDiff (js_divide stdDiff (js_sqrt (Finite (real n))));
                df = int n - 1;
                pValue = calculateTPValue t df
            in Inr \<lparr>ts_t = t, ts_df = df, ts_pValue = pValue,
                     ts_mean1 = None, ts_mean2 = None, ts_std1 = None, ts_std2 = None,
                     ts_meanDiff = Some meanDiff, ts_stdDiff = Some stdDiff\<rparr>)
      else (let mean1 = StatsLib_mean group1;
                mean2 = StatsLib_mean group2;
                std1 = StatsLib_stdDev group1;
                std2 = StatsLib_stdDev group2;
                n1 = length group1;
                n2 = length group2;
                pooled = js_sqrt (js_divide
                           (js_plus (js_times (js_times (Finite (real n1 - 1)) std1) std1)
                                    (js_times (js_times (Finite (real n2 - 1)) std2) std2))
                           (Finite (real n1 + real n2 - 2)));
                t = js_divide (js_minus mean1 mean2)
                      (js_times pooled
                         (js_sqrt (js_plus (js_divide (Finite 1) (Finite (real n1)))
                                           (js_divide (Finite 1) (Finite (real n2))))));
                df = int n1 + int n2 - 2;
                pValue = calculateTPValue t df
            in Inr \<lparr>ts_t = t, ts_df = df, ts_pValue = pValue,
                     ts_mean1 = Some mean1, ts_mean2 = Some mean2,
                     ts_std1 = Some std1, ts_std2 = Some std2,
                     ts_meanDiff = None, ts_stdDiff = None\<rparr>))"

text \<open>
  The worker's \<open>runIndependentTTest\<close>: the same grouping as on the main thread, then
  \<open>StatsLib.tTest(group1, group2, false)\<close>. The statistics are the numbers before
  \<open>toFixed(4)\<close>; of the interpretation, an Arabic sentence, the model keeps which of the
  two sentences it is and the p-value the second one quotes.
\<close>

datatype tTestInterpretation = SignificantDifference | NoSignificantDifference real

definition interpretTTestResult :: "real \<Rightarrow> tTestInterpretation" where
  "interpretTTestResult pValue =
     (if pValue < 0.05 then SignificantDifference else NoSignificantDifference pValue)"

record workerTTestResult =
  wt_t :: number
  wt_df :: int
  wt_pValue :: real
  wt_mean1 :: number
  wt_mean2 :: number
  wt_std1 :: number
  wt_std2 :: number
  wt_n1 :: nat
  wt_n2 :: nat
  wt_interpretation :: tTestInterpretation

definition worker_runIndependentTTest :: "number list \<Rightarrow> 'g list \<Rightarrow> test_error + workerTTestResult" where
  "worker_runIndependentTTest vs gs =
     (let unique = uniqueGroups gs
      in if length unique \<noteq> 2 then Inl NeedsExactlyTwoGroups
         else (let group1Values = groupValues vs gs (unique ! 0);
                   group2Values = groupValues vs gs (unique ! 1)
               in case StatsLib_tTest group1Values group2Values False of
                    Inl e \<Rightarrow> Inl e
                  | Inr result \<Rightarrow>
                      (case (ts_mean1 result, ts_mean2 result, ts_std1 result, ts_std2 result) of
                         (Some mean1, Some mean2, Some std1, Some std2) \<Rightarrow>
                           Inr \<lparr>wt_t = ts_t result, wt_df = ts_df result,
                                wt_pValue = ts_pValue result,
                                wt_mean1 = mean1, wt_mean2 = mean2,
                                wt_std1 = std1, wt_std2 = std2,
                                wt_n1 = length group1Values, wt_n2 = length group2Values,
                                wt_interpretation = interpretTTestResult (ts_pValue result)\<rparr>
                       | _ \<Rightarrow> Inl (LibraryError (PropertyOfUndefined ''toFixed'')))))"

text \<open>
  Why a test did not produce a result: the data did not pass \<open>validateDataForTest\<close>, a
  test function threw, the engine raised a \<open>TypeError\<close>, or the test id is not one of the
  \<open>switch\<close>. What a consumer receives is a text: the message of the failure behind the
  prefix that \<open>runTest\<close> and \<open>handleTestRequest\<close> both put in front of it, the bare
  message of an exception that the worker's \<open>onmessage\<close> caught itself, the worker's
  complaint about an unknown action, or the application's complaint that the worker took
  too long.
\<close>

datatype validationError =
  TestNotFound string | NoData | CategoricalColumnMissing string
  | NumericalColumnMissing string | SampleSizeTooSmall nat nat | TooFewGroups nat nat

datatype failure =
  InvalidData "validationError list" | Thrown test_error | TypeError js_error
  | UnknownTest js_value

datatype errorText = RunFailed failure | Unprefixed js_error | UnknownAction | CalculationTimeout

text \<open>
  The message the worker posts back: an object with \<open>action\<close> and either \<open>results\<close> or
  \<open>error\<close>.
\<close>

record 'r response =
  rsp_action :: string
  rsp_results :: "'r option"
  rsp_error :: "errorText option"

definition testComplete :: "'r \<Rightarrow> 'r response" where
  "testComplete results =
     \<lparr>rsp_action = ''testComplete'', rsp_results = Some results, rsp_error = None\<rparr>"

definition errorResponse :: "errorText \<Rightarrow> 'r response" where
  "errorResponse msg = \<lparr>rsp_action = ''error'', rsp_results = None, rsp_error = Some msg\<rparr>"

text \<open>
  Of the worker script the model takes as given, as parameters, the three other test
  functions that \<open>handleTestRequest\<close> dispatches to and the two other request handlers:
  what is stated below about a request to run a test holds whatever they compute.
\<close>

record ('r, 'm) workerScript =
  runPairedTTest :: "number list \<Rightarrow> js_value list \<Rightarrow> failure + 'r"
  runOneWayANOVA :: "number list \<Rightarrow> js_value list \<Rightarrow> failure + 'r"
  runPearsonCorrelation :: "number list \<Rightarrow> js_value list \<Rightarrow> failure + 'r"
  handleAssumptionsCheck :: "js_value \<Rightarrow> js_error + 'm response"
  handleDataValidation :: "js_value \<Rightarrow> js_error + 'm response"

datatype 'r workerResults = IndependentTTestResults workerTTestResult | OtherResults 'r

text \<open>\<open>dataset.map(row => row[k])\<close> on an array of rows.\<close>

fun readColumn :: "string \<Rightarrow> js_value list \<Rightarrow> js_error + js_value list" where
  "readColumn k [] = Inr []"
| "readColumn k (row # rows) =
     (case property row k of
        Inl e \<Rightarrow> Inl e
      | Inr v \<Rightarrow> (case readColumn k rows of Inl e \<Rightarrow> Inl e | Inr vs \<Rightarrow> Inr (v # vs)))"

text \<open>
  The body of the \<open>try\<close> in \<open>handleTestRequest\<close>: the two columns are read from the
  dataset, the rows whose value is \<open>NaN\<close> are dropped, and the test named by \<open>testId\<close> is
  run. Calling \<open>map\<close> on \<open>undefined\<close> or \<open>null\<close> is a \<open>TypeError\<close>, and so is calling it on
  a value that has no such method. (The array that the source calls \<open>groups\<close> is \<open>labels\<close>
  here and in \<open>runTest\<close>, \<open>groups\<close> being a field of the wizard's selections.)
\<close>

definition requestedTest ::
  "('r, 'm) workerScript \<Rightarrow> builtins \<Rightarrow> js_value \<Rightarrow> js_value \<Rightarrow> js_value \<Rightarrow> js_value \<Rightarrow>
   failure + 'r workerResults" where
  "requestedTest script b testId dataset catColumn numColumn =
     (case dataset of
        Undefined \<Rightarrow> Inl (TypeError (PropertyOfUndefined ''map''))
      | Null \<Rightarrow> Inl (TypeError (PropertyOfUndefined ''map''))
      | Arr rows \<Rightarrow>
          (case (readColumn (propertyKey b catColumn) rows,
                 readColumn (propertyKey b numColumn) rows) of
             (Inl e, _) \<Rightarrow> Inl (TypeError e)
           | (_, Inl e) \<Rightarrow> Inl (TypeError e)
           | (Inr labels, Inr cells) \<Rightarrow>
               (let values = map (parseFloat b) cells;
                    valid = filter (\<lambda>(v, g). v \<noteq> NaN) (zip values labels);
                    validValues = map fst valid;
                    validGroups = map snd valid
                in if testId = Str ''independent-t-test''
                   then (case worker_runIndependentTTest validValues validGroups of
                           Inl e \<Rightarrow> Inl (Thrown e)
                         | Inr r \<Rightarrow> Inr (IndependentTTestResults r))
                   else if testId = Str ''paired-t-test''
                   then map_sum id OtherResults (runPairedTTest script validValues validGroups)
                   else if testId = Str ''one-way-anova''
                   then map_sum id OtherResults (runOneWayANOVA script validValues validGroups)
                   else if testId = Str ''pearson-correlation''
                   then map_sum id OtherResults (runPearsonCorrelation script validValues validGroups)
                   else Inl (UnknownTest testId)))
      | _ \<Rightarrow> Inl (TypeError (NotAFunction ''dataset.map'')))"

text \<open>
  \<open>handleTestRequest(data)\<close> takes \<open>testId\<close>, \<open>data\<close> (the dataset), \<open>catColumn\<close> and
  \<open>numColumn\<close> out of its argument, which throws on \<open>undefined\<close> and \<open>null\<close> before the
  \<open>try\<close> is entered (\<open>Inl\<close>). Whatever is thrown inside the \<open>try\<close> is posted as an error
  message behind the prefix.
\<close>

definition handleTestRequest ::
  "('r, 'm) workerScript \<Rightarrow> builtins \<Rightarrow> js_value \<Rightarrow> js_error + 'r workerResults response" where
  "handleTestRequest script b data =
     (case (property data ''testId'', property data ''data'',
            property data ''catColumn'', property data ''numColumn'') of
        (Inr testId, Inr dataset, Inr catColumn, Inr numColumn) \<Rightarrow>
          Inr (case requestedTest script b testId dataset catColumn numColumn of
                 Inl f \<Rightarrow> errorResponse (RunFailed f)
               | Inr results \<Rightarrow> testComplete results)
      | _ \<Rightarrow> Inl (PropertyOfUndefined ''testId''))"

text \<open>
  The worker's \<open>onmessage\<close>: \<open>action\<close> and \<open>data\<close> are taken out of the message (outside
  the \<open>try\<close>: \<open>Inl\<close> is an exception nobody catches, and no answer), the handler of the
  action is called on \<open>data\<close>, an unknown action is answered with an error message, and
  an exception that escapes a handler is answered with its bare message.
\<close>

definition worker_onmessage ::
  "('r, 'r workerResults) workerScript \<Rightarrow> builtins \<Rightarrow> js_value \<Rightarrow>
   js_error + 'r workerResults response" where
  "worker_onmessage script b eventData =
     (case (property eventData ''action'', property eventData ''data'') of
        (Inr action, Inr data) \<Rightarrow>
          Inr (case (if action = Str ''runTest'' then handleTestRequest script b data
                     else if action = Str ''checkAssumptions'' then handleAssumptionsCheck script data
                     else if action = Str ''validateData'' then handleDataValidation script data
                     else Inr (errorResponse UnknownAction)) of
                 Inl e \<Rightarrow> errorResponse (Unprefixed e)
               | Inr answer \<Rightarrow> answer)
      | _ \<Rightarrow> Inl (PropertyOfUndefined ''action''))"

subsection \<open>The two ways to run a test\<close>

text \<open>
  The table the application holds in \<open>state.data\<close>: \<open>null\<close> before any data is loaded,
  and otherwise an array of row objects (the setter refuses anything else), a row being
  the list of its columns and cells. \<open>row[k]\<close> is the cell of column \<open>k\<close>, or \<open>undefined\<close>.
\<close>

type_synonym row = "(string \<times> js_value) list"

type_synonym dataset = "row list option"

definition datasetValue :: "dataset \<Rightarrow> js_value" where
  "datasetValue data = (case data of None \<Rightarrow> Null | Some rows \<Rightarrow> Arr (map Obj rows))"

definition cell :: "string \<Rightarrow> row \<Rightarrow> js_value" where
  "cell k row = (case map_of row k of Some v \<Rightarrow> v | None \<Rightarrow> Undefined)"

text \<open>
  How the promise of a run settles. \<open>OutsideModel\<close> marks a run that leaves what the
  model expresses: the main-thread t-test entered with a value that is \<open>NaN\<close> or
  infinite, or dividing by zero, so that its statistics are no real numbers.
\<close>

datatype 'a settlement = Resolved 'a | Rejected errorText | OutsideModel

text \<open>
  \<open>runAnalysisWithWorker\<close> posts one message, the object with the five properties
  \<open>action\<close>, \<open>testId\<close>, \<open>data\<close>, \<open>catColumn\<close> and \<open>numColumn\<close>, and its handler rejects
  with the \<open>error\<close> of the answer if the answer has one (every error text is a
  non-empty string) and resolves with the \<open>results\<close> of the answer if not. The worker
  is taken to have loaded its script and to answer within the 30 seconds of the timer;
  where it raises an exception that nobody catches there is no answer, and the timer
  rejects.
\<close>

definition runAnalysisWithWorker ::
  "('r, 'r workerResults) workerScript \<Rightarrow> builtins \<Rightarrow> string \<Rightarrow> dataset \<Rightarrow> string \<Rightarrow> string \<Rightarrow>
   'r workerResults option settlement" where
  "runAnalysisWithWorker script b testId data catColumn numColumn =
     (case worker_onmessage script b
             (Obj [(''action'', Str ''runTest''), (''testId'', Str testId),
                   (''data'', datasetValue data),
                   (''catColumn'', Str catColumn), (''numColumn'', Str numColumn)]) of
        Inl e \<Rightarrow> Rejected CalculationTimeout
      | Inr answer \<Rightarrow>
          (case rsp_error answer of
             Some msg \<Rightarrow> Rejected msg
           | None \<Rightarrow> Resolved (rsp_results answer)))"

text \<open>
  \<open>validateDataForTest\<close>, as far as \<open>runTest\<close> uses it: the list of its errors (the
  data is valid when there is none). The warnings are not modelled.
\<close>

definition getTestById :: "string \<Rightarrow> testDefinition option" where
  "getTestById testId = find (\<lambda>t. test_id t = testId) testsDatabase"

definition validateDataForTest ::
  "builtins \<Rightarrow> string \<Rightarrow> dataset \<Rightarrow> string \<Rightarrow> string \<Rightarrow> validationError list" where
  "validateDataForTest b testId data categoricalColumn numericalColumn =
     (case getTestById testId of
        None \<Rightarrow> [TestNotFound testId]
      | Some test \<Rightarrow>
          (case data of
             None \<Rightarrow> [NoData]
           | Some [] \<Rightarrow> [NoData]
           | Some (first # rest) \<Rightarrow>
               (let rows = first # rest;
                    columns = map fst first;
                    missing =
                      (if categoricalColumn \<notin> set columns \<and> minGroups test > 0
                       then [CategoricalColumnMissing categoricalColumn] else []) @
                      (if numericalColumn \<notin> set columns
                       then [NumericalColumnMissing numericalColumn] else [])
                in if missing \<noteq> [] then missing
                   else (let labels = (if minGroups test > 0
                                       then map (cell categoricalColumn) rows else []);
                             values = map (\<lambda>row. parseFloat b (cell numericalColumn row)) rows;
                             validValues = filter (\<lambda>v. v \<noteq> NaN) values;
                             validGroups = map snd (filter (\<lambda>(v, g). v \<noteq> NaN) (zip values labels))
                         in (if length validValues < minSampleSize test
                             then [SampleSizeTooSmall (length validValues) (minSampleSize test)]
                             else []) @
                            (if minGroups test > 0 \<and>
                                length (uniqueGroups validGroups) < minGroups test
                             then [TooFewGroups (length (uniqueGroups validGroups)) (minGroups test)]
                             else [])))))"

text \<open>
  \<open>runTest\<close>: validation, the two columns read from every row (here the rows with a
  value that is \<open>NaN\<close> stay in), and the \<open>switch\<close> over the test id. Of the ten test
  functions the model holds \<open>runIndependentTTest\<close>; the other nine are a parameter,
  a function of the test id and of everything \<open>runTest\<close> passes to any of them.
  Whatever is thrown is thrown again behind the prefix, and the promise rejects with it.
\<close>

datatype 'r testOutcome = IndependentTTest tTestResult | OtherTest 'r

text \<open>
  Where \<open>runIndependentTTest\<close> gets as far as its arithmetic, it divides by \<open>n1 + n2 - 2\<close>
  and by the pooled standard deviation (the other divisors are not zero): its real-valued
  model is the function of the source when neither is zero.
\<close>

definition dividesByNonZero :: "real list \<Rightarrow> 'g list \<Rightarrow> bool" where
  "dividesByNonZero vs gs =
     (let unique = uniqueGroups gs
      in if length unique = 2
         then (let group1Values = groupValues vs gs (unique ! 0);
                   group2Values = groupValues vs gs (unique ! 1)
               in case (ss_standardDeviation group1Values, ss_standardDeviation group2Values) of
                    (Inr std1, Inr std2) \<Rightarrow>
                      length group1Values + length group2Values > 2 \<and>
                      pooledStd (length group1Values) std1 (length group2Values) std2 \<noteq> 0
                  | _ \<Rightarrow> True)
         else True)"

definition isFinite :: "number \<Rightarrow> bool" where
  "isFinite x = (case x of Finite a \<Rightarrow> True | _ \<Rightarrow> False)"

definition realOf :: "number \<Rightarrow> real" where
  "realOf x = (case x of Finite a \<Rightarrow> a | _ \<Rightarrow> 0)"

definition runTest ::
  "jStat \<Rightarrow> builtins \<Rightarrow>
   (string \<Rightarrow> number list \<Rightarrow> js_value list \<Rightarrow> row list \<Rightarrow> string \<Rightarrow> string \<Rightarrow> failure + 'r) \<Rightarrow>
   string \<Rightarrow> dataset \<Rightarrow> string \<Rightarrow> string \<Rightarrow> 'r testOutcome settlement" where
  "runTest lib b otherTests testId data categoricalColumn numericalColumn =
     (let errors = validateDataForTest b testId data categoricalColumn numericalColumn
      in if errors \<noteq> [] then Rejected (RunFailed (InvalidData errors))
         else (let rows = (case data of Some rows \<Rightarrow> rows | None \<Rightarrow> []);
                   labels = map (cell categoricalColumn) rows;
                   values = map (\<lambda>row. parseFloat b (cell numericalColumn row)) rows
               in if testId = ''independent-t-test''
                  then (if list_all isFinite values \<and> dividesByNonZero (map realOf values) labels
                        then (case runIndependentTTest lib (map realOf values) labels of
                                Inl e \<Rightarrow> Rejected (RunFailed (Thrown e))
                              | Inr r \<Rightarrow> Resolved (IndependentTTest r))
                        else OutsideModel)
                  else if testId \<in> set [''paired-t-test'', ''one-way-anova'', ''mann-whitney'',
                                         ''kruskal-wallis'', ''pearson-correlation'',
                                         ''spearman-correlation'', ''chi-square-independence'',
                                         ''simple-linear-regression'', ''wilcoxon-signed-rank'']
                  then (case otherTests testId values labels rows categoricalColumn
                               numericalColumn of
                          Inl f \<Rightarrow> Rejected (RunFailed f)
                        | Inr r \<Rightarrow> Resolved (OtherTest r))
                  else Rejected (RunFailed (UnknownTest (Str testId)))))"

section \<open>Offloading an analysis to the worker\<close>

text \<open>
  The part of the application state that decides where an analysis runs:
  \<open>this.statsWorker\<close> (is there a worker object), the flag \<open>state.workerBusy\<close>, the
  messages posted to the live worker that it has not answered yet (the outstanding
  offloaded computations), and the timeout timers that are armed. Every call of
  \<open>runAnalysisWithWorker\<close> creates a timer and a promise of its own and replaces the
  worker's \<open>onmessage\<close> handler by a closure over them, so the handler that runs on an
  answer is the one of the most recent call: \<open>latestTimerArmed\<close> and \<open>latestPending\<close>
  say whether that call's timer is still armed and its promise still unsettled. A call
  that has been overtaken keeps its timer armed and its promise pending until the timer
  fires. All timers run for 30 seconds, so they fire in the order they were armed.
\<close>

record offloadState =
  hasWorker :: bool
  workerBusy :: bool
  outstanding :: nat
  armedTimers :: nat
  latestTimerArmed :: bool
  latestPending :: bool

text \<open>
  What can happen, one event at a time on the single JavaScript thread: the user starts
  an analysis (\<open>runSelectedAnalysis\<close>), the worker answers (\<open>onmessage\<close>), a 30 second
  timer fires, or the user clears the data (\<open>clearData\<close>, which calls \<open>state.reset()\<close>).
\<close>

datatype event = RunAnalysis | WorkerAnswers | TimerFires | ClearData

datatype outcome =
  Offloaded | RanOnMainThread | Settled | AnswerDropped | RejectedWithTimeout | StateReset
  | NothingHappens

text \<open>
  \<open>runSelectedAnalysis\<close> offloads when \<open>this.statsWorker && !this.state.workerBusy\<close> and
  otherwise calls \<open>this.tests.runTest\<close> itself. \<open>runAnalysisWithWorker\<close> sets the flag,
  arms its timer, installs its handler and posts the message.
\<close>

definition runSelectedAnalysis :: "offloadState \<Rightarrow> offloadState \<times> outcome" where
  "runSelectedAnalysis s =
     (if hasWorker s \<and> \<not> workerBusy s
      then (s\<lparr>workerBusy := True, armedTimers := armedTimers s + 1,
               outstanding := outstanding s + 1,
               latestTimerArmed := True, latestPending := True\<rparr>, Offloaded)
      else (s, RanOnMainThread))"

text \<open>
  The worker answers one of its outstanding messages, and the handler installed by the
  most recent \<open>runAnalysisWithWorker\<close> runs: \<open>clearTimeout\<close> on that call's timer (no
  effect if it is not armed any more), the flag cleared, and \<open>resolve\<close> or \<open>reject\<close> on
  that call's promise (no effect if it is settled already). A message arrives only if
  one is outstanding, and then the worker has been given that handler.
\<close>

definition onWorkerMessage :: "offloadState \<Rightarrow> offloadState \<times> outcome" where
  "onWorkerMessage s =
     (if outstanding s = 0 then (s, NothingHappens)
      else (s\<lparr>armedTimers := (if latestTimerArmed s then armedTimers s - 1 else armedTimers s),
               workerBusy := False, outstanding := outstanding s - 1,
               latestTimerArmed := False, latestPending := False\<rparr>,
            if latestPending s then Settled else AnswerDropped))"

text \<open>
  The callback of the oldest armed timer: \<open>terminate()\<close> ends the worker and with it
  every computation it holds, \<open>initializeWorker()\<close> creates a new one, and the promise of
  the timer's call, which is still pending, is rejected with the timeout error. The timer
  is the one of the most recent call exactly when that one is armed and no other is. The
  callback does not touch \<open>workerBusy\<close>.
\<close>

definition onTimeout :: "offloadState \<Rightarrow> offloadState \<times> outcome" where
  "onTimeout s =
     (if armedTimers s = 0 then (s, NothingHappens)
      else (let latest = (latestTimerArmed s \<and> armedTimers s = 1)
            in (s\<lparr>armedTimers := armedTimers s - 1, outstanding := 0, hasWorker := True,
                   latestTimerArmed := (latestTimerArmed s \<and> \<not> latest),
                   latestPending := (latestPending s \<and> \<not> latest)\<rparr>,
                RejectedWithTimeout)))"

text \<open>\<open>StateManager.reset\<close> sets \<open>_workerBusy\<close> to false, whatever the worker is doing.\<close>

definition clearData :: "offloadState \<Rightarrow> offloadState \<times> outcome" where
  "clearData s = (s\<lparr>workerBusy := False\<rparr>, StateReset)"

fun step :: "offloadState \<Rightarrow> event \<Rightarrow> offloadState \<times> outcome" where
  "step s RunAnalysis = runSelectedAnalysis s"
| "step s WorkerAnswers = onWorkerMessage s"
| "step s TimerFires = onTimeout s"
| "step s ClearData = clearData s"

fun run :: "offloadState \<Rightarrow> event list \<Rightarrow> offloadState" where
  "run s [] = s"
| "run s (e # es) = run (fst (step s e)) es"

text \<open>The state after the constructor: a worker if the browser has workers, nothing pending.\<close>

definition initialState :: "bool \<Rightarrow> offloadState" where
  "initialState workersSupported =
     \<lparr>hasWorker = workersSupported, workerBusy = False, outstanding = 0, armedTimers = 0,
      latestTimerArmed = False, latestPending = False\<rparr>"

chapter \<open>Properties\<close>

section \<open>Shared facts about lists\<close>

lemma comprehension_filter:
  "concat (map (\<lambda>p. if P p then [f p] else []) xs) = map f (filter P xs)"
  by (induction xs) simp_all

lemma uniqueGroups_foldl:
  "distinct acc \<Longrightarrow>
   distinct (foldl (\<lambda>acc x. if x \<in> set acc then acc else acc @ [x]) acc xs) \<and>
   set (foldl (\<lambda>acc x. if x \<in> set acc then acc else acc @ [x]) acc xs) = set acc \<union> set xs"
  by (induction xs arbitrary: acc) auto

lemma uniqueGroups_distinct: "distinct (uniqueGroups xs)"
  unfolding uniqueGroups_def using uniqueGroups_foldl[of "[]" xs] by simp

lemma uniqueGroups_set: "set (uniqueGroups xs) = set xs"
  unfolding uniqueGroups_def using uniqueGroups_foldl[of "[]" xs] by simp

lemma uniqueGroups_length: "length (uniqueGroups xs) = card (set xs)"
  using distinct_card[OF uniqueGroups_distinct[of xs]] by (simp add: uniqueGroups_set)

lemma two_element_list:
  assumes "length xs = 2"
  obtains a b where "xs = [a, b]"
proof -
  from assms obtain a ys where "xs = a # ys" "length ys = 1"
    by (cases xs) auto
  moreover then obtain b where "ys = [b]"
    by (cases ys) auto
  ultimately show ?thesis
    using that by blast
qed

section \<open>Properties of the percentile routine\<close>

lemma dv_calculatePercentile_eq: "dv_calculatePercentile = calculatePercentile"
  by (intro ext) (simp add: dv_calculatePercentile_def calculatePercentile_def)

lemma percentile_position_bounds:
  assumes "xs \<noteq> []" "0 \<le> p" "p \<le> 100"
  defines "pos \<equiv> (p / 100) * (real (length xs) - 1)"
  shows "0 \<le> pos" "pos \<le> real (length xs) - 1"
    "0 \<le> \<lfloor>pos\<rfloor>" "\<lceil>pos\<rceil> < int (length xs)" "\<lfloor>pos\<rfloor> \<le> \<lceil>pos\<rceil>"
proof -
  have n: "1 \<le> real (length xs)"
    using assms(1) by (cases xs) auto
  show a: "0 \<le> pos"
    unfolding pos_def using n assms(2) by simp
  have "(p / 100) * (real (length xs) - 1) \<le> 1 * (real (length xs) - 1)"
    by (rule mult_right_mono) (use n assms(3) in auto)
  then show b: "pos \<le> real (length xs) - 1"
    unfolding pos_def by simp
  show "0 \<le> \<lfloor>pos\<rfloor>"
    using a by simp
  have "pos \<le> of_int (int (length xs) - 1)"
    using b by simp
  then have "\<lceil>pos\<rceil> \<le> int (length xs) - 1"
    by (simp only: ceiling_le_iff)
  then show "\<lceil>pos\<rceil> < int (length xs)"
    by simp
  show "\<lfloor>pos\<rfloor> \<le> \<lceil>pos\<rceil>"
    by (rule floor_le_ceiling)
qed

lemma calculatePercentile_unfold:
  "calculatePercentile xs p =
     (let pos = (p / 100) * (real (length xs) - 1)
      in if \<lfloor>pos\<rfloor> = \<lceil>pos\<rceil> then js_index xs \<lfloor>pos\<rfloor>
         else (case (js_index xs \<lfloor>pos\<rfloor>, js_index xs \<lceil>pos\<rceil>) of
                 (Some a, Some b) \<Rightarrow> Some (a * (1 - (pos - of_int \<lfloor>pos\<rfloor>)) + b * (pos - of_int \<lfloor>pos\<rfloor>))
               | _ \<Rightarrow> None))"
  unfolding calculatePercentile_def Let_def ..

lemma calculatePercentile_interpolates:
  assumes "xs \<noteq> []" "0 \<le> p" "p \<le> 100"
  shows "calculatePercentile xs p = Some (interpolated xs p)"
proof -
  define pos where "pos = (p / 100) * (real (length xs) - 1)"
  have lo: "0 \<le> \<lfloor>pos\<rfloor>" and hi: "\<lceil>pos\<rceil> < int (length xs)" and le: "\<lfloor>pos\<rfloor> \<le> \<lceil>pos\<rceil>"
    using percentile_position_bounds[OF assms] unfolding pos_def by auto
  have lo': "\<lfloor>pos\<rfloor> < int (length xs)" and hi': "0 \<le> \<lceil>pos\<rceil>"
    using lo hi le by linarith+
  have il: "js_index xs \<lfloor>pos\<rfloor> = Some (xs ! nat \<lfloor>pos\<rfloor>)"
    using lo lo' by (simp add: js_index_def)
  have iu: "js_index xs \<lceil>pos\<rceil> = Some (xs ! nat \<lceil>pos\<rceil>)"
    using hi hi' by (simp add: js_index_def)
  have cp: "calculatePercentile xs p =
     (if \<lfloor>pos\<rfloor> = \<lceil>pos\<rceil> then js_index xs \<lfloor>pos\<rfloor>
      else (case (js_index xs \<lfloor>pos\<rfloor>, js_index xs \<lceil>pos\<rceil>) of
              (Some a, Some b) \<Rightarrow> Some (a * (1 - (pos - of_int \<lfloor>pos\<rfloor>)) + b * (pos - of_int \<lfloor>pos\<rfloor>))
            | _ \<Rightarrow> None))"
    unfolding calculatePercentile_unfold Let_def pos_def ..
  have ip: "interpolated xs p = xs ! nat \<lfloor>pos\<rfloor> * (1 - frac pos) + xs ! nat \<lceil>pos\<rceil> * frac pos"
    unfolding interpolated_def Let_def pos_def ..
  show ?thesis
  proof (cases "\<lfloor>pos\<rfloor> = \<lceil>pos\<rceil>")
    case True
    have a: "of_int \<lfloor>pos\<rfloor> \<le> pos"
      by (rule of_int_floor_le)
    have "pos \<le> of_int \<lceil>pos\<rceil>"
      by (rule le_of_int_ceiling)
    then have "pos \<le> of_int \<lfloor>pos\<rfloor>"
      unfolding True[symmetric] .
    with a have "pos = of_int \<lfloor>pos\<rfloor>"
      by linarith
    then have "frac pos = 0"
      by (simp add: frac_def)
    with True il show ?thesis
      unfolding cp ip by (simp add: algebra_simps)
  next
    case False
    with il iu show ?thesis
      unfolding cp ip by (simp add: frac_def)
  qed
qed

lemma sorted_hd_Min: "sorted xs \<Longrightarrow> xs \<noteq> [] \<Longrightarrow> xs ! 0 = Min (set xs)"
  by (cases xs) (auto intro!: Min_eqI[symmetric])

lemma sorted_last_Max: "sorted xs \<Longrightarrow> xs \<noteq> [] \<Longrightarrow> xs ! (length xs - 1) = Max (set xs)"
proof -
  assume s: "sorted xs" and ne: "xs \<noteq> []"
  have "\<And>y. y \<in> set xs \<Longrightarrow> y \<le> xs ! (length xs - 1)"
  proof -
    fix y assume "y \<in> set xs"
    then obtain i where "i < length xs" "xs ! i = y"
      by (auto simp: in_set_conv_nth)
    then show "y \<le> xs ! (length xs - 1)"
      using s by (auto simp: sorted_iff_nth_mono)
  qed
  moreover have "xs ! (length xs - 1) \<in> set xs"
    using ne by simp
  ultimately show ?thesis
    by (intro Max_eqI[symmetric]) auto
qed

lemma interpolated_between:
  assumes "sorted xs" "xs \<noteq> []" "0 \<le> p" "p \<le> 100"
  shows "xs ! nat \<lfloor>(p / 100) * (real (length xs) - 1)\<rfloor> \<le> interpolated xs p"
    and "interpolated xs p \<le> xs ! nat \<lceil>(p / 100) * (real (length xs) - 1)\<rceil>"
proof -
  define pos where "pos = (p / 100) * (real (length xs) - 1)"
  have lo: "0 \<le> \<lfloor>pos\<rfloor>" and hi: "\<lceil>pos\<rceil> < int (length xs)" and le: "\<lfloor>pos\<rfloor> \<le> \<lceil>pos\<rceil>"
    using percentile_position_bounds[OF assms(2-4)] unfolding pos_def by auto
  have "nat \<lfloor>pos\<rfloor> \<le> nat \<lceil>pos\<rceil>" and "nat \<lceil>pos\<rceil> < length xs"
    using lo hi le by linarith+
  then have ord: "xs ! nat \<lfloor>pos\<rfloor> \<le> xs ! nat \<lceil>pos\<rceil>"
    using assms(1) by (simp add: sorted_iff_nth_mono)
  define a where "a = xs ! nat \<lfloor>pos\<rfloor>"
  define b where "b = xs ! nat \<lceil>pos\<rceil>"
  have f0: "0 \<le> frac pos" and f1: "frac pos \<le> 1"
    using frac_lt_1[of pos] by (auto simp: frac_ge_0 less_imp_le)
  have ip: "interpolated xs p = a * (1 - frac pos) + b * frac pos"
    unfolding interpolated_def Let_def pos_def a_def b_def ..
  have eq: "interpolated xs p = a + frac pos * (b - a)"
    unfolding ip by (simp add: algebra_simps)
  have "0 \<le> frac pos * (b - a)"
    using f0 ord by (simp add: a_def b_def)
  then have "a \<le> interpolated xs p"
    unfolding eq by simp
  then show "xs ! nat \<lfloor>(p / 100) * (real (length xs) - 1)\<rfloor> \<le> interpolated xs p"
    unfolding a_def pos_def .
  have "frac pos * (b - a) \<le> 1 * (b - a)"
    by (rule mult_right_mono) (use f1 ord in \<open>auto simp: a_def b_def\<close>)
  then have "interpolated xs p \<le> b"
    unfolding eq by simp
  then show "interpolated xs p \<le> xs ! nat \<lceil>(p / 100) * (real (length xs) - 1)\<rceil>"
    unfolding b_def pos_def .
qed

text \<open>
  C8: on a sorted non-empty sequence the percentile routine (both copies of it)
  interpolates linearly between the order statistics around position
  \<open>(p / 100) * (n - 1)\<close> for every \<open>p\<close> from 0 to 100, the result lies between these two
  order statistics, percentile 0 is the minimum and percentile 100 is the maximum.
\<close>

theorem C8_percentile_interpolation_min_max:
  assumes "sorted xs" and "xs \<noteq> []"
  shows "calculatePercentile xs 0 = Some (Min (set xs)) \<and>
         calculatePercentile xs 100 = Some (Max (set xs)) \<and>
         dv_calculatePercentile xs = calculatePercentile xs \<and>
         (\<forall>p. 0 \<le> p \<and> p \<le> 100 \<longrightarrow>
           calculatePercentile xs p = Some (interpolated xs p) \<and>
           xs ! nat \<lfloor>(p / 100) * (real (length xs) - 1)\<rfloor> \<le> interpolated xs p \<and>
           interpolated xs p \<le> xs ! nat \<lceil>(p / 100) * (real (length xs) - 1)\<rceil>)"
proof (intro conjI allI impI)
  have n: "0 < length xs"
    using assms(2) by simp
  have "calculatePercentile xs 0 = Some (xs ! 0)"
    using n by (simp add: calculatePercentile_def js_index_def)
  then show "calculatePercentile xs 0 = Some (Min (set xs))"
    using sorted_hd_Min[OF assms] by simp
  have "nat (int (length xs) - 1) = length xs - 1"
    by simp
  then have "calculatePercentile xs 100 = Some (xs ! (length xs - 1))"
    using n by (simp add: calculatePercentile_def js_index_def)
  then show "calculatePercentile xs 100 = Some (Max (set xs))"
    using sorted_last_Max[OF assms] by simp
  show "dv_calculatePercentile xs = calculatePercentile xs"
    by (simp add: dv_calculatePercentile_eq)
next
  fix p :: real
  assume p: "0 \<le> p \<and> p \<le> 100"
  show "calculatePercentile xs p = Some (interpolated xs p)"
    using calculatePercentile_interpolates[OF assms(2)] p by simp
  show "xs ! nat \<lfloor>(p / 100) * (real (length xs) - 1)\<rfloor> \<le> interpolated xs p"
    using interpolated_between(1)[OF assms] p by simp
  show "interpolated xs p \<le> xs ! nat \<lceil>(p / 100) * (real (length xs) - 1)\<rceil>"
    using interpolated_between(2)[OF assms] p by simp
qed

theorem C8_percentile_witness:
  "sorted [1, 2, 4, 8 :: real] \<and> [1, 2, 4, 8 :: real] \<noteq> [] \<and>
   calculatePercentile [1, 2, 4, 8] 0 = Some 1 \<and>
   calculatePercentile [1, 2, 4, 8] 100 = Some 8 \<and>
   calculatePercentile [1, 2, 4, 8] 50 = Some 3"
proof -
  have s: "sorted [1, 2, 4, 8 :: real]" and ne: "[1, 2, 4, 8 :: real] \<noteq> []"
    by simp_all
  have i: "interpolated [1, 2, 4, 8] 50 = 3"
    by (simp add: interpolated_def frac_def)
  have "Min (set [1, 2, 4, 8 :: real]) = 1" "Max (set [1, 2, 4, 8 :: real]) = 8"
    by simp_all
  then show ?thesis
    using C8_percentile_interpolation_min_max[OF s ne] i by simp
qed

section \<open>Properties of the rank assignment\<close>

lemma sorted_nth_down_iff:
  fixes s :: "real list"
  assumes down: "\<And>x y. x \<le> y \<Longrightarrow> P y \<Longrightarrow> P x"
  shows "sorted s \<Longrightarrow> p < length s \<Longrightarrow> P (s ! p) \<longleftrightarrow> p < length (filter P s)"
proof (induction s arbitrary: p)
  case Nil
  then show ?case by simp
next
  case (Cons x xs)
  show ?case
  proof (cases "P x")
    case True
    show ?thesis
    proof (cases p)
      case 0
      with True show ?thesis by simp
    next
      case (Suc q)
      have "P (xs ! q) \<longleftrightarrow> q < length (filter P xs)"
        by (rule Cons.IH) (use Cons.prems Suc in auto)
      with True Suc show ?thesis by simp
    qed
  next
    case False
    have np: "\<not> P y" if "y \<in> set (x # xs)" for y
    proof
      assume "P y"
      moreover have "x \<le> y" using that Cons.prems(1) by auto
      ultimately show False using False down by blast
    qed
    have "(x # xs) ! p \<in> set (x # xs)"
      using Cons.prems(2) by (rule nth_mem)
    then have a: "\<not> P ((x # xs) ! p)"
      by (rule np)
    have "filter P (x # xs) = []"
      unfolding filter_empty_conv using np by blast
    with a show ?thesis by simp
  qed
qed

lemma sorted_nth_less_iff:
  "sorted s \<Longrightarrow> p < length s \<Longrightarrow> s ! p < v \<longleftrightarrow> p < lessCount s v"
  unfolding lessCount_def by (rule sorted_nth_down_iff) auto

lemma le_count_split:
  "length (filter (\<lambda>x. x \<le> v) s) = lessCount s (v::real) + eqCount s v"
  unfolding lessCount_def eqCount_def by (induction s) auto

lemma sorted_nth_le_iff:
  "sorted s \<Longrightarrow> p < length s \<Longrightarrow> s ! p \<le> v \<longleftrightarrow> p < lessCount s v + eqCount s v"
  unfolding le_count_split[symmetric] by (rule sorted_nth_down_iff) auto

lemma count_sum_le_length: "lessCount s v + eqCount s v \<le> length s"
  unfolding le_count_split[symmetric] by simp

lemma tieEnd_spec:
  "i \<le> j \<Longrightarrow> j < length w \<Longrightarrow> (\<forall>q. i \<le> q \<and> q \<le> j \<longrightarrow> fst (w ! i) = fst (w ! q)) \<Longrightarrow>
   j \<le> tieEnd w i j \<and> tieEnd w i j < length w \<and>
   (\<forall>q. i \<le> q \<and> q \<le> tieEnd w i j \<longrightarrow> fst (w ! i) = fst (w ! q)) \<and>
   (tieEnd w i j + 1 < length w \<longrightarrow> fst (w ! (tieEnd w i j + 1)) \<noteq> fst (w ! i))"
proof (induction w i j rule: tieEnd.induct)
  case (1 w i j)
  show ?case
  proof (cases "j + 1 < length w \<and> fst (w ! (j + 1)) = fst (w ! i)")
    case True
    have eq: "tieEnd w i j = tieEnd w i (j + 1)"
      using True by (subst tieEnd.simps) simp
    have "fst (w ! i) = fst (w ! q)" if "i \<le> q \<and> q \<le> j + 1" for q
    proof (cases "q = j + 1")
      case True
      with \<open>j + 1 < length w \<and> fst (w ! (j + 1)) = fst (w ! i)\<close> show ?thesis by simp
    next
      case False
      with that have "i \<le> q \<and> q \<le> j" by simp
      with "1.prems"(3) show ?thesis by blast
    qed
    then have pre: "\<forall>q. i \<le> q \<and> q \<le> j + 1 \<longrightarrow> fst (w ! i) = fst (w ! q)"
      by blast
    have ij: "i \<le> j + 1" and jl: "j + 1 < length w"
      using "1.prems"(1) True by simp_all
    note ih = "1.IH"[OF True ij jl pre]
    from ih have "j \<le> tieEnd w i (j + 1)"
      by linarith
    with ih show ?thesis
      unfolding eq by blast
  next
    case False
    have eq: "tieEnd w i j = j"
      using False by (subst tieEnd.simps) auto
    from False "1.prems"(2) have "j + 1 < length w \<longrightarrow> fst (w ! (j + 1)) \<noteq> fst (w ! i)"
      by blast
    with "1.prems" show ?thesis
      unfolding eq by blast
  qed
qed

lemma assignRanks_spec:
  "distinct (map snd w) \<Longrightarrow> j < length w \<Longrightarrow> (\<forall>p<length w. snd (w ! p) < length ranks) \<Longrightarrow>
   length (assignRanks w a k j ranks) = length ranks \<and>
   (\<forall>p<length w. assignRanks w a k j ranks ! snd (w ! p) =
       (if k \<le> p \<and> p \<le> j then Some a else ranks ! snd (w ! p)))"
proof (induction w a k j ranks rule: assignRanks.induct)
  case (1 w a k j ranks)
  show ?case
  proof (cases "k \<le> j")
    case True
    define ranks' where "ranks' = ranks[snd (w ! k) := Some a]"
    have eq: "assignRanks w a k j ranks = assignRanks w a (k + 1) j ranks'"
      using True by (subst assignRanks.simps) (simp add: ranks'_def)
    have len: "\<forall>p<length w. snd (w ! p) < length ranks'"
      using "1.prems"(3) by (simp add: ranks'_def)
    have ih: "length (assignRanks w a (k + 1) j ranks') = length ranks' \<and>
      (\<forall>p<length w. assignRanks w a (k + 1) j ranks' ! snd (w ! p) =
         (if k + 1 \<le> p \<and> p \<le> j then Some a else ranks' ! snd (w ! p)))"
      using "1.IH"[OF True "1.prems"(1,2)] len unfolding ranks'_def by blast
    have inj: "snd (w ! p) = snd (w ! k) \<longleftrightarrow> p = k" if "p < length w" for p
    proof -
      have "k < length w" using True "1.prems"(2) by simp
      then have "(map snd w ! p = map snd w ! k) = (p = k)"
        using "1.prems"(1) that by (simp add: nth_eq_iff_index_eq del: nth_map)
      then show ?thesis using that \<open>k < length w\<close> by simp
    qed
    have upd: "ranks' ! snd (w ! p) = (if p = k then Some a else ranks ! snd (w ! p))"
      if "p < length w" for p
      using inj[OF that] "1.prems"(3) that True "1.prems"(2)
      by (auto simp: ranks'_def nth_list_update)
    have len': "length ranks' = length ranks"
      by (simp add: ranks'_def)
    have "assignRanks w a (k + 1) j ranks' ! snd (w ! p) =
       (if k \<le> p \<and> p \<le> j then Some a else ranks ! snd (w ! p))" if "p < length w" for p
    proof -
      have "assignRanks w a (k + 1) j ranks' ! snd (w ! p) =
         (if k + 1 \<le> p \<and> p \<le> j then Some a else ranks' ! snd (w ! p))"
        using ih that by blast
      then show ?thesis
        unfolding upd[OF that] using True by (cases "p = k") auto
    qed
    then show ?thesis
      unfolding eq using ih len' by simp
  next
    case False
    have eq: "assignRanks w a k j ranks = ranks"
      using False by (subst assignRanks.simps) simp
    show ?thesis unfolding eq using False by auto
  qed
qed


lemma run_counts:
  assumes s: "sorted ks"
    and ie: "i \<le> e" and en: "e < length ks"
    and start: "lessCount ks (ks ! i) = i"
    and run: "\<forall>q. i \<le> q \<and> q \<le> e \<longrightarrow> ks ! i = ks ! q"
    and stop: "e + 1 < length ks \<longrightarrow> ks ! (e + 1) \<noteq> ks ! i"
  shows "eqCount ks (ks ! i) = e + 1 - i"
    and "e + 1 < length ks \<longrightarrow> lessCount ks (ks ! (e + 1)) = e + 1"
proof -
  define v where "v = ks ! i"
  have "ks ! i = ks ! e"
    using run ie by blast
  then have kse: "ks ! e = v"
    by (simp add: v_def)
  have L: "lessCount ks v = i"
    using start by (simp add: v_def)
  have "ks ! e \<le> v" using kse by simp
  then have up: "e < lessCount ks v + eqCount ks v"
    using sorted_nth_le_iff[OF s, of e v] en by simp
  have gt: "v < ks ! (e + 1)" if "e + 1 < length ks"
  proof -
    have "ks ! e \<le> ks ! (e + 1)"
      using s that by (simp add: sorted_iff_nth_mono)
    moreover have "ks ! (e + 1) \<noteq> v"
      using stop that by (simp add: v_def)
    ultimately show ?thesis using kse by simp
  qed
  have lo: "lessCount ks v + eqCount ks v \<le> e + 1"
  proof (cases "e + 1 < length ks")
    case True
    have "\<not> ks ! (e + 1) \<le> v" using gt[OF True] by simp
    then have "\<not> e + 1 < lessCount ks v + eqCount ks v"
      using sorted_nth_le_iff[OF s, of "e + 1" v] True by simp
    then show ?thesis by simp
  next
    case False
    then have "length ks = e + 1" using en by simp
    then show ?thesis using count_sum_le_length[of ks v] by simp
  qed
  from up lo L have "eqCount ks v = e + 1 - i" by simp
  then show "eqCount ks (ks ! i) = e + 1 - i"
    by (simp add: v_def)
  show "e + 1 < length ks \<longrightarrow> lessCount ks (ks ! (e + 1)) = e + 1"
  proof
    assume n: "e + 1 < length ks"
    define v' where "v' = ks ! (e + 1)"
    have "ks ! e < v'" using gt[OF n] kse by (simp add: v'_def)
    then have a: "e < lessCount ks v'"
      using sorted_nth_less_iff[OF s, of e v'] en by simp
    have "\<not> ks ! (e + 1) < v'" by (simp add: v'_def)
    then have "\<not> e + 1 < lessCount ks v'"
      using sorted_nth_less_iff[OF s, of "e + 1" v'] n by simp
    with a have "lessCount ks v' = e + 1" by simp
    then show "lessCount ks (ks ! (e + 1)) = e + 1"
      by (simp add: v'_def)
  qed
qed

lemma first_position: 
  assumes "sorted ks" "0 < length ks"
  shows "lessCount ks (ks ! 0) = 0"
proof -
  have "\<not> ks ! 0 < ks ! 0" by simp
  then have "\<not> 0 < lessCount ks (ks ! 0)"
    using sorted_nth_less_iff[OF assms(1), of 0 "ks ! 0"] assms(2) by simp
  then show ?thesis by simp
qed

lemma rankLoop_spec:
  "sorted (map fst w) \<Longrightarrow> distinct (map snd w) \<Longrightarrow>
   (\<forall>p<length w. snd (w ! p) < length ranks) \<Longrightarrow> i \<le> length w \<Longrightarrow>
   (i < length w \<longrightarrow> lessCount (map fst w) (fst (w ! i)) = i) \<Longrightarrow>
   (\<forall>p<i. ranks ! snd (w ! p) = Some (closedMidrank (map fst w) (fst (w ! p)))) \<Longrightarrow>
   length (rankLoop w i ranks) = length ranks \<and>
   (\<forall>p<length w. rankLoop w i ranks ! snd (w ! p) = Some (closedMidrank (map fst w) (fst (w ! p))))"
proof (induction w i ranks rule: rankLoop.induct)
  case (1 w i ranks)
  note srt = "1.prems"(1) and dst = "1.prems"(2) and inb = "1.prems"(3)
    and start = "1.prems"(5) and prev = "1.prems"(6)
  show ?case
  proof (cases "i < length w")
    case True
    define e where "e = tieEnd w i i"
    define a where "a = (real i + real e + 2) / 2"
    define ranks' where "ranks' = assignRanks w a i e ranks"
    have eq: "rankLoop w i ranks = rankLoop w (e + 1) ranks'"
      using True by (subst rankLoop.simps) (simp add: Let_def e_def a_def ranks'_def)
    have te: "i \<le> e \<and> e < length w \<and>
        (\<forall>q. i \<le> q \<and> q \<le> e \<longrightarrow> fst (w ! i) = fst (w ! q)) \<and>
        (e + 1 < length w \<longrightarrow> fst (w ! (e + 1)) \<noteq> fst (w ! i))"
      unfolding e_def by (rule tieEnd_spec) (use True in auto)
    then have ie: "i \<le> e" and en: "e < length w"
      and run: "\<forall>q. i \<le> q \<and> q \<le> e \<longrightarrow> fst (w ! i) = fst (w ! q)"
      and stop: "e + 1 < length w \<longrightarrow> fst (w ! (e + 1)) \<noteq> fst (w ! i)"
      by blast+
    have L: "lessCount (map fst w) (fst (w ! i)) = i"
      using start True by simp
    have L': "lessCount (map fst w) (map fst w ! i) = i"
      using L True by simp
    have en': "e < length (map fst w)"
      using en by simp
    have run': "\<forall>q. i \<le> q \<and> q \<le> e \<longrightarrow> map fst w ! i = map fst w ! q"
      using run en True by simp
    have stop': "e + 1 < length (map fst w) \<longrightarrow> map fst w ! (e + 1) \<noteq> map fst w ! i"
      using stop True by simp
    have rc: "eqCount (map fst w) (fst (w ! i)) = e + 1 - i"
      "e + 1 < length w \<longrightarrow> lessCount (map fst w) (fst (w ! (e + 1))) = e + 1"
      using run_counts[OF srt ie en' L' run' stop'] True by simp_all
    have mid: "closedMidrank (map fst w) (fst (w ! i)) = a"
      using ie by (simp add: closedMidrank_def L rc(1) a_def of_nat_diff field_simps)
    have ar: "length ranks' = length ranks \<and>
       (\<forall>p<length w. ranks' ! snd (w ! p) =
          (if i \<le> p \<and> p \<le> e then Some a else ranks ! snd (w ! p)))"
      unfolding ranks'_def by (rule assignRanks_spec[OF dst en inb])
    have inb': "\<forall>p<length w. snd (w ! p) < length ranks'"
      using ar inb by simp
    have done': "\<forall>p<e + 1. ranks' ! snd (w ! p) = Some (closedMidrank (map fst w) (fst (w ! p)))"
    proof (intro allI impI)
      fix p assume p: "p < e + 1"
      then have pn: "p < length w" using en by simp
      show "ranks' ! snd (w ! p) = Some (closedMidrank (map fst w) (fst (w ! p)))"
      proof (cases "i \<le> p")
        case True
        then have "fst (w ! i) = fst (w ! p)" using run p by simp
        then show ?thesis using ar pn True p mid by simp
      next
        case False
        then show ?thesis using ar pn prev by simp
      qed
    qed
    have "length (rankLoop w (e + 1) ranks') = length ranks' \<and>
      (\<forall>p<length w. rankLoop w (e + 1) ranks' ! snd (w ! p) =
          Some (closedMidrank (map fst w) (fst (w ! p))))"
      unfolding ranks'_def
    proof (rule "1.IH"[OF True e_def a_def srt dst])
      show "\<forall>p<length w. snd (w ! p) < length (assignRanks w a i e ranks)"
        using inb' by (simp add: ranks'_def)
      show "e + 1 \<le> length w" using en by simp
      show "e + 1 < length w \<longrightarrow> lessCount (map fst w) (fst (w ! (e + 1))) = e + 1"
        by (rule rc(2))
      show "\<forall>p<e + 1. assignRanks w a i e ranks ! snd (w ! p) =
          Some (closedMidrank (map fst w) (fst (w ! p)))"
        using done' by (simp add: ranks'_def)
    qed
    then show ?thesis
      unfolding eq using ar by simp
  next
    case False
    have eq: "rankLoop w i ranks = ranks"
      using False by (subst rankLoop.simps) simp
    from False "1.prems"(4) have "i = length w" by simp
    with prev show ?thesis unfolding eq by simp
  qed
qed


lemma length_filter_mset:
  assumes "mset xs = mset ys"
  shows "length (filter P xs) = length (filter P ys)"
proof -
  have "mset (filter P xs) = mset (filter P ys)"
    unfolding mset_filter assms ..
  then show ?thesis by (rule mset_eq_length)
qed

lemma lessCount_mset: "mset xs = mset ys \<Longrightarrow> lessCount xs v = lessCount ys v"
  unfolding lessCount_def by (rule length_filter_mset)

lemma eqCount_mset: "mset xs = mset ys \<Longrightarrow> eqCount xs v = eqCount ys v"
  unfolding eqCount_def by (rule length_filter_mset)

lemma closedMidrank_mset: "mset xs = mset ys \<Longrightarrow> closedMidrank xs v = closedMidrank ys v"
  unfolding closedMidrank_def using lessCount_mset[of xs ys v] eqCount_mset[of xs ys v] by simp

lemma withIndices_length: "length (withIndices vs) = length vs"
  by (simp add: withIndices_def)

lemma withIndices_sorted: "sorted (map fst (withIndices vs))"
  unfolding withIndices_def by (rule sorted_sort_key)

lemma withIndices_mset: "mset (withIndices vs) = mset (zip vs [0..<length vs])"
  by (simp add: withIndices_def)

lemma withIndices_keys: "mset (map fst (withIndices vs)) = mset vs"
proof -
  have "mset (map fst (withIndices vs)) = image_mset fst (mset (zip vs [0..<length vs]))"
    by (simp add: withIndices_mset)
  also have "\<dots> = mset (map fst (zip vs [0..<length vs]))"
    by (rule mset_map[symmetric])
  also have "map fst (zip vs [0..<length vs]) = vs"
    by (rule map_fst_zip) simp
  finally show ?thesis .
qed

lemma withIndices_indices: "mset (map snd (withIndices vs)) = mset [0..<length vs]"
proof -
  have "mset (map snd (withIndices vs)) = image_mset snd (mset (zip vs [0..<length vs]))"
    by (simp add: withIndices_mset)
  also have "\<dots> = mset (map snd (zip vs [0..<length vs]))"
    by (rule mset_map[symmetric])
  also have "map snd (zip vs [0..<length vs]) = [0..<length vs]"
    by (rule map_snd_zip) simp
  finally show ?thesis .
qed

lemma withIndices_distinct: "distinct (map snd (withIndices vs))"
  using mset_eq_imp_distinct_iff[OF withIndices_indices[of vs]] by simp

lemma withIndices_nth:
  assumes "p < length vs"
  shows "snd (withIndices vs ! p) < length vs \<and> fst (withIndices vs ! p) = vs ! snd (withIndices vs ! p)"
proof -
  have "withIndices vs ! p \<in> set (withIndices vs)"
    using assms by (simp add: withIndices_length)
  then have "withIndices vs ! p \<in> set (zip vs [0..<length vs])"
    using mset_eq_setD[OF withIndices_mset[of vs]] by simp
  moreover obtain a b where ab: "withIndices vs ! p = (a, b)"
    by (cases "withIndices vs ! p")
  ultimately have "(a, b) \<in> set (zip vs [0..<length vs])"
    by simp
  then obtain i where "vs ! i = a" "[0..<length vs] ! i = b" "i < length vs"
    unfolding in_set_zip by auto
  then show ?thesis by (simp add: ab)
qed

lemma withIndices_covers:
  assumes "k < length vs"
  shows "\<exists>p<length vs. snd (withIndices vs ! p) = k"
proof -
  have "k \<in> set [0..<length vs]" using assms by simp
  then have "k \<in> set (map snd (withIndices vs))"
    using mset_eq_setD[OF withIndices_indices[of vs]] by simp
  then obtain p where "p < length (map snd (withIndices vs))" "map snd (withIndices vs) ! p = k"
    unfolding in_set_conv_nth by blast
  then show ?thesis
    by (auto simp: withIndices_length)
qed

lemma calculateRanks_closed:
  "calculateRanks vs = map (\<lambda>v. Some (closedMidrank vs v)) vs"
proof -
  define w where "w = withIndices vs"
  define R where "R = rankLoop w 0 (replicate (length vs) None)"
  have lw: "length w = length vs" by (simp add: w_def withIndices_length)
  have srt: "sorted (map fst w)" unfolding w_def by (rule withIndices_sorted)
  have dst: "distinct (map snd w)" unfolding w_def by (rule withIndices_distinct)
  have inb: "\<forall>p<length w. snd (w ! p) < length (replicate (length vs) (None :: real option))"
    using withIndices_nth[of _ vs] by (simp add: w_def withIndices_length)
  have start: "0 < length w \<longrightarrow> lessCount (map fst w) (fst (w ! 0)) = 0"
    using first_position[OF srt] by simp
  have spec: "length R = length (replicate (length vs) (None :: real option)) \<and>
      (\<forall>p<length w. R ! snd (w ! p) = Some (closedMidrank (map fst w) (fst (w ! p))))"
    unfolding R_def by (rule rankLoop_spec[OF srt dst inb _ start]) simp_all
  have cm: "closedMidrank (map fst w) v = closedMidrank vs v" for v
    unfolding w_def by (rule closedMidrank_mset) (rule withIndices_keys)
  have "R ! k = Some (closedMidrank vs (vs ! k))" if k: "k < length vs" for k
  proof -
    obtain p where p: "p < length vs" "snd (w ! p) = k"
      using withIndices_covers[OF k] unfolding w_def by blast
    have "fst (w ! p) = vs ! k"
      using withIndices_nth[OF p(1)] p(2) unfolding w_def by simp
    moreover have "R ! snd (w ! p) = Some (closedMidrank (map fst w) (fst (w ! p)))"
      using spec p(1) lw by simp
    ultimately show ?thesis
      unfolding cm p(2) by simp
  qed
  moreover have "length R = length vs" using spec by simp
  ultimately have "R = map (\<lambda>v. Some (closedMidrank vs v)) vs"
    by (intro nth_equalityI) simp_all
  then show ?thesis
    by (simp add: calculateRanks_def R_def w_def)
qed


lemma length_filter_indicator:
  "real (length (filter P xs)) = (\<Sum>y\<leftarrow>xs. if P y then 1 else 0)"
  by (induction xs) auto

lemma sum_list_swap:
  fixes f :: "'a \<Rightarrow> 'b \<Rightarrow> real"
  shows "(\<Sum>x\<leftarrow>xs. \<Sum>y\<leftarrow>ys. f x y) = (\<Sum>y\<leftarrow>ys. \<Sum>x\<leftarrow>xs. f x y)"
  by (induction xs) (simp_all add: sum_list_addf)

lemma closedMidrank_sum:
  "(\<Sum>x\<leftarrow>vs. closedMidrank vs x) = real (length vs) * (real (length vs) + 1) / 2"
proof -
  define n where "n = real (length vs)"
  define A where "A = (\<Sum>x\<leftarrow>vs. \<Sum>y\<leftarrow>vs. if y < x then 1 else (0::real))"
  define B where "B = (\<Sum>x\<leftarrow>vs. \<Sum>y\<leftarrow>vs. if y = x then 1 else (0::real))"
  define C where "C = (\<Sum>x\<leftarrow>vs. \<Sum>y\<leftarrow>vs. if x < y then 1 else (0::real))"
  have AC: "A = C"
    unfolding A_def C_def by (rule sum_list_swap)
  have one: "(if y < x then 1 else 0) + (if y = x then 1 else 0) + (if x < y then 1 else (0::real)) = 1"
    for x y :: real
    by auto
  have "A + B + C = (\<Sum>x\<leftarrow>vs. \<Sum>y\<leftarrow>vs.
      (if y < x then 1 else 0) + (if y = x then 1 else 0) + (if x < y then 1 else (0::real)))"
    unfolding A_def B_def C_def by (simp add: sum_list_addf)
  also have "\<dots> = (\<Sum>x\<leftarrow>vs. \<Sum>y\<leftarrow>vs. (1::real))"
    unfolding one ..
  also have "\<dots> = n * n"
    by (simp add: sum_list_triv n_def)
  finally have tot: "A + B + C = n * n" .
  have "(\<Sum>x\<leftarrow>vs. closedMidrank vs x) = (\<Sum>x\<leftarrow>vs.
      (\<Sum>y\<leftarrow>vs. if y < x then 1 else 0) + ((\<Sum>y\<leftarrow>vs. if y = x then 1 else 0) + 1) / 2)"
    unfolding closedMidrank_def lessCount_def eqCount_def length_filter_indicator ..
  also have "\<dots> = (\<Sum>x\<leftarrow>vs. (\<Sum>y\<leftarrow>vs. if y < x then 1 else 0)
      + ((\<Sum>y\<leftarrow>vs. if y = x then 1 else 0) * (1 / 2) + 1 / 2))"
    by (simp add: field_simps)
  also have "\<dots> = A + (B * (1 / 2) + n * (1 / 2))"
    unfolding A_def B_def n_def sum_list_addf sum_list_mult_const[symmetric] sum_list_triv
    by simp
  finally have "(\<Sum>x\<leftarrow>vs. closedMidrank vs x) = A + B / 2 + n / 2"
    by simp
  with tot AC show ?thesis
    unfolding n_def[symmetric] by (simp add: field_simps)
qed

lemma filter_upt_interval:
  assumes "b \<le> n"
  shows "filter (\<lambda>p. a \<le> p \<and> p < b) [0..<n] = [a..<b]"
proof (rule sorted_distinct_set_unique)
  show "sorted (filter (\<lambda>p. a \<le> p \<and> p < b) [0..<n])" by (rule sorted_wrt_filter) simp
  show "distinct (filter (\<lambda>p. a \<le> p \<and> p < b) [0..<n])" by simp
  show "sorted [a..<b]" by simp
  show "distinct [a..<b]" by simp
  show "set (filter (\<lambda>p. a \<le> p \<and> p < b) [0..<n]) = set [a..<b]"
    using assms by auto
qed

lemma sum_positions:
  "(\<Sum>p\<leftarrow>[L..<L + E]. real (p + 1)) = real E * real L + real E * (real E + 1) / 2"
proof (induction E)
  case 0
  then show ?case by simp
next
  case (Suc E)
  have "[L..<L + Suc E] = [L..<L + E] @ [L + E]" by simp
  then show ?case
    using Suc by (simp add: field_simps)
qed

lemma tiedPositions_interval:
  "tiedPositions vs v = map (\<lambda>p. p + 1) [lessCount vs v..<lessCount vs v + eqCount vs v]"
proof -
  define s where "s = sort vs"
  have ms: "mset s = mset vs" by (simp add: s_def)
  have srt: "sorted s" by (simp add: s_def)
  have len: "length s = length vs" by (simp add: s_def)
  have L: "lessCount s v = lessCount vs v" by (rule lessCount_mset[OF ms])
  have E: "eqCount s v = eqCount vs v" by (rule eqCount_mset[OF ms])
  have iff: "s ! p = v \<longleftrightarrow> lessCount vs v \<le> p \<and> p < lessCount vs v + eqCount vs v"
    if "p < length vs" for p
  proof -
    have "s ! p = v \<longleftrightarrow> s ! p \<le> v \<and> \<not> s ! p < v" by auto
    then show ?thesis
      using sorted_nth_le_iff[OF srt, of p v] sorted_nth_less_iff[OF srt, of p v] that len L E
      by auto
  qed
  have "filter (\<lambda>p. s ! p = v) [0..<length vs]
      = filter (\<lambda>p. lessCount vs v \<le> p \<and> p < lessCount vs v + eqCount vs v) [0..<length vs]"
    by (rule filter_cong) (use iff in auto)
  also have "\<dots> = [lessCount vs v..<lessCount vs v + eqCount vs v]"
    by (rule filter_upt_interval) (use count_sum_le_length[of vs v] in simp)
  finally have "filter (\<lambda>p. s ! p = v) [0..<length vs] = [lessCount vs v..<lessCount vs v + eqCount vs v]" .
  moreover have "tiedPositions vs v = map (\<lambda>p. p + 1) (filter (\<lambda>p. s ! p = v) [0..<length vs])"
    unfolding tiedPositions_def s_def by (rule comprehension_filter)
  ultimately show ?thesis by simp
qed

lemma midrank_closed:
  assumes "v \<in> set vs"
  shows "midrank vs v = closedMidrank vs v"
proof -
  have "filter (\<lambda>x. x = v) vs \<noteq> []"
    using assms by (simp add: filter_empty_conv)
  then have E: "0 < eqCount vs v"
    by (simp add: eqCount_def)
  have "(\<Sum>p\<leftarrow>tiedPositions vs v. real p) =
      real (eqCount vs v) * real (lessCount vs v) + real (eqCount vs v) * (real (eqCount vs v) + 1) / 2"
    unfolding tiedPositions_interval using sum_positions[of "lessCount vs v" "eqCount vs v"]
    by (simp add: comp_def)
  moreover have "length (tiedPositions vs v) = eqCount vs v"
    unfolding tiedPositions_interval by simp
  ultimately show ?thesis
    using E by (simp add: midrank_def closedMidrank_def field_simps)
qed


lemma countTies_spec:
  "1 \<le> c \<Longrightarrow> i + c \<le> length s \<Longrightarrow> (\<forall>q<c. s ! i = s ! (i + q)) \<Longrightarrow>
   c \<le> countTies s i c \<and> i + countTies s i c \<le> length s \<and>
   (\<forall>q<countTies s i c. s ! i = s ! (i + q)) \<and>
   (i + countTies s i c < length s \<longrightarrow> s ! i \<noteq> s ! (i + countTies s i c))"
proof (induction s i c rule: countTies.induct)
  case (1 s i c)
  show ?case
  proof (cases "i + c < length s \<and> s ! i = s ! (i + c)")
    case True
    have eq: "countTies s i c = countTies s i (c + 1)"
      using True by (subst countTies.simps) simp
    have "s ! i = s ! (i + q)" if "q < c + 1" for q
    proof (cases "q = c")
      case True
      with \<open>i + c < length s \<and> s ! i = s ! (i + c)\<close> show ?thesis by simp
    next
      case False
      with that have "q < c" by simp
      with "1.prems"(3) show ?thesis by blast
    qed
    then have pre: "\<forall>q<c + 1. s ! i = s ! (i + q)"
      by blast
    have c1: "1 \<le> c + 1" and il: "i + (c + 1) \<le> length s"
      using True by simp_all
    note ih = "1.IH"[OF True c1 il pre]
    from ih have "c \<le> countTies s i (c + 1)"
      by linarith
    with ih show ?thesis
      unfolding eq by blast
  next
    case False
    have eq: "countTies s i c = c"
      using False by (subst countTies.simps) auto
    from False have "i + c < length s \<longrightarrow> s ! i \<noteq> s ! (i + c)"
      by blast
    with "1.prems" show ?thesis
      unfolding eq by blast
  qed
qed

lemma sortedRanks_spec:
  "sorted s \<Longrightarrow> 1 \<le> rank \<Longrightarrow> rank - 1 \<le> length s \<Longrightarrow>
   (rank - 1 < length s \<longrightarrow> lessCount s (s ! (rank - 1)) = rank - 1) \<Longrightarrow>
   ranks = map (closedMidrank s) (take (rank - 1) s) \<Longrightarrow>
   sortedRanks s rank ranks = map (closedMidrank s) s"
proof (induction s rank ranks rule: sortedRanks.induct)
  case (1 s rank ranks)
  note srt = "1.prems"(1) and r1 = "1.prems"(2) and start = "1.prems"(4) and prev = "1.prems"(5)
  show ?case
  proof (cases "rank \<le> length s")
    case True
    define i where "i = rank - 1"
    define t where "t = countTies s i 1"
    define a where "a = real rank + (real t - 1) / 2"
    have il: "i < length s" using True r1 by (simp add: i_def)
    have eq: "sortedRanks s rank ranks = sortedRanks s (rank + t) (ranks @ replicate t a)"
      using True by (subst sortedRanks.simps) (simp add: Let_def i_def t_def a_def)
    have ct: "1 \<le> t \<and> i + t \<le> length s \<and> (\<forall>q<t. s ! i = s ! (i + q)) \<and>
        (i + t < length s \<longrightarrow> s ! i \<noteq> s ! (i + t))"
      unfolding t_def by (rule countTies_spec) (use il in auto)
    then have t1: "1 \<le> t" and itl: "i + t \<le> length s"
      and run: "\<forall>q<t. s ! i = s ! (i + q)"
      and stop: "i + t < length s \<longrightarrow> s ! i \<noteq> s ! (i + t)"
      by blast+
    define e where "e = i + t - 1"
    have ie: "i \<le> e" and en: "e < length s" and e1: "e + 1 = i + t"
      using t1 itl by (simp_all add: e_def)
    have L: "lessCount s (s ! i) = i"
      using start il by (simp add: i_def)
    have run': "\<forall>q. i \<le> q \<and> q \<le> e \<longrightarrow> s ! i = s ! q"
    proof (intro allI impI)
      fix q assume q: "i \<le> q \<and> q \<le> e"
      then have "q - i < t" using e1 by linarith
      then have "s ! i = s ! (i + (q - i))" using run by blast
      then show "s ! i = s ! q" using q by simp
    qed
    have stop': "e + 1 < length s \<longrightarrow> s ! (e + 1) \<noteq> s ! i"
      using stop unfolding e1 by auto
    note rc = run_counts[OF srt ie en L run' stop']
    have E: "eqCount s (s ! i) = t"
      using rc(1) e1 by simp
    have "real rank = real i + 1"
      using r1 by (simp add: i_def of_nat_diff)
    then have mid: "closedMidrank s (s ! i) = a"
      unfolding closedMidrank_def L E a_def by (simp add: field_simps)
    have "map (closedMidrank s) (take t (drop i s)) = replicate t a"
    proof (rule nth_equalityI)
      show "length (map (closedMidrank s) (take t (drop i s))) = length (replicate t a)"
        using itl by simp
    next
      fix q assume "q < length (map (closedMidrank s) (take t (drop i s)))"
      then have q: "q < t" by simp
      then have "s ! (i + q) = s ! i" using run by simp
      then show "map (closedMidrank s) (take t (drop i s)) ! q = replicate t a ! q"
        using q itl mid by simp
    qed
    moreover have "take (i + t) s = take i s @ take t (drop i s)"
      by (rule take_add)
    ultimately have ranks': "ranks @ replicate t a = map (closedMidrank s) (take (rank + t - 1) s)"
      using prev r1 by (simp add: i_def)
    have "sortedRanks s (rank + t) (ranks @ replicate t a) = map (closedMidrank s) s"
    proof (rule "1.IH"[OF True i_def t_def a_def srt _ _ _ ranks'])
      show "1 \<le> rank + t" using r1 by simp
      show "rank + t - 1 \<le> length s" using itl r1 by (simp add: i_def)
      have "rank + t - 1 = e + 1" using e1 r1 by (simp add: i_def)
      then show "rank + t - 1 < length s \<longrightarrow> lessCount s (s ! (rank + t - 1)) = rank + t - 1"
        using rc(2) by simp
    qed
    then show ?thesis unfolding eq .
  next
    case False
    have eq: "sortedRanks s rank ranks = ranks"
      using False by (subst sortedRanks.simps) simp
    from False "1.prems"(3) have "rank - 1 = length s" by simp
    with prev show ?thesis unfolding eq by simp
  qed
qed

lemma sortedRanks_closed:
  assumes "sorted s"
  shows "sortedRanks s 1 [] = map (closedMidrank s) s"
  by (rule sortedRanks_spec[OF assms]) (use first_position[OF assms] in simp_all)

lemma sorted_values: "map snd (sort_key snd (xs :: ('g \<times> real) list)) = sort (map snd xs)"
proof -
  have "mset (map snd (sort_key snd xs)) = mset (map snd xs)"
    unfolding mset_map by simp
  moreover have "sorted (map snd (sort_key snd xs))"
    by (rule sorted_sort_key)
  ultimately show ?thesis
    by (rule properties_for_sort[symmetric])
qed

lemma pooledRanks_midrank:
  "pooledRanks allValues =
     map (midrank (map snd allValues)) (map snd (sort_key snd allValues))"
proof -
  define vs where "vs = map snd allValues"
  have sv: "map snd (sort_key snd allValues) = sort vs"
    unfolding vs_def by (rule sorted_values)
  have "sortedRanks (sort vs) 1 [] = map (closedMidrank (sort vs)) (sort vs)"
    by (rule sortedRanks_closed) simp
  also have "\<dots> = map (closedMidrank vs) (sort vs)"
    using closedMidrank_mset[of "sort vs" vs] by simp
  also have "\<dots> = map (midrank vs) (sort vs)"
    by (rule map_cong) (simp_all add: midrank_closed)
  finally show ?thesis
    unfolding pooledRanks_def sv vs_def[symmetric] .
qed

lemma sl_tieEnd_eq: "sl_tieEnd w i j = tieEnd w i j"
proof (induction w i j rule: tieEnd.induct)
  case (1 w i j)
  show ?case
  proof (cases "j + 1 < length w \<and> fst (w ! (j + 1)) = fst (w ! i)")
    case True
    have "sl_tieEnd w i j = sl_tieEnd w i (j + 1)"
      using True by (subst sl_tieEnd.simps) simp
    moreover have "tieEnd w i j = tieEnd w i (j + 1)"
      using True by (subst tieEnd.simps) simp
    ultimately show ?thesis
      using "1.IH"[OF True] by simp
  next
    case False
    have "sl_tieEnd w i j = j"
      using False by (subst sl_tieEnd.simps) auto
    moreover have "tieEnd w i j = j"
      using False by (subst tieEnd.simps) auto
    ultimately show ?thesis by simp
  qed
qed

lemma sl_assignRanks_eq: "sl_assignRanks w a k j ranks = assignRanks w a k j ranks"
proof (induction w a k j ranks rule: assignRanks.induct)
  case (1 w a k j ranks)
  show ?case
  proof (cases "k \<le> j")
    case True
    have "sl_assignRanks w a k j ranks = sl_assignRanks w a (k + 1) j (ranks[snd (w ! k) := Some a])"
      using True by (subst sl_assignRanks.simps) simp
    moreover have "assignRanks w a k j ranks = assignRanks w a (k + 1) j (ranks[snd (w ! k) := Some a])"
      using True by (subst assignRanks.simps) simp
    ultimately show ?thesis
      using "1.IH"[OF True] by simp
  next
    case False
    have "sl_assignRanks w a k j ranks = ranks"
      using False by (subst sl_assignRanks.simps) simp
    moreover have "assignRanks w a k j ranks = ranks"
      using False by (subst assignRanks.simps) simp
    ultimately show ?thesis by simp
  qed
qed

lemma sl_rankLoop_eq: "sl_rankLoop w i ranks = rankLoop w i ranks"
proof (induction w i ranks rule: rankLoop.induct)
  case (1 w i ranks)
  show ?case
  proof (cases "i < length w")
    case True
    define j where "j = tieEnd w i i"
    define a where "a = (real i + real j + 2) / 2"
    have "sl_rankLoop w i ranks = sl_rankLoop w (j + 1) (assignRanks w a i j ranks)"
      using True
      by (subst sl_rankLoop.simps) (simp add: Let_def sl_tieEnd_eq sl_assignRanks_eq j_def a_def)
    moreover have "rankLoop w i ranks = rankLoop w (j + 1) (assignRanks w a i j ranks)"
      using True by (subst rankLoop.simps) (simp add: Let_def j_def a_def)
    ultimately show ?thesis
      using "1.IH"[OF True j_def a_def] by simp
  next
    case False
    have "sl_rankLoop w i ranks = ranks"
      using False by (subst sl_rankLoop.simps) simp
    moreover have "rankLoop w i ranks = ranks"
      using False by (subst rankLoop.simps) simp
    ultimately show ?thesis by simp
  qed
qed

text \<open>
  C2: for every sequence of numbers, \<open>calculateRanks\<close> gives each value the average of
  the 1-based positions that the values tied with it occupy in sorted order, the ranks
  sum to \<open>n (n + 1) / 2\<close>, the worker's copy of the routine returns the same array, and
  the ranking loops of the Mann-Whitney and Kruskal-Wallis tests give every pooled
  observation the same midrank (Spearman and Wilcoxon call \<open>calculateRanks\<close> itself).
\<close>

theorem C2_midranks_sum_and_agreement:
  "calculateRanks vs = map (\<lambda>v. Some (midrank vs v)) vs \<and>
   (\<Sum>v\<leftarrow>vs. midrank vs v) = real (length vs) * (real (length vs) + 1) / 2 \<and>
   StatsLib_calculateRanks vs = calculateRanks vs \<and>
   pooledRanks allValues =
     map (midrank (map snd allValues)) (map snd (sort_key snd allValues))"
proof (intro conjI)
  have cm: "map (\<lambda>v. Some (closedMidrank vs v)) vs = map (\<lambda>v. Some (midrank vs v)) vs"
    by (rule map_cong) (simp_all add: midrank_closed)
  show "calculateRanks vs = map (\<lambda>v. Some (midrank vs v)) vs"
    unfolding calculateRanks_closed cm ..
  have "(\<Sum>v\<leftarrow>vs. midrank vs v) = (\<Sum>v\<leftarrow>vs. closedMidrank vs v)"
    by (rule arg_cong[where f = sum_list], rule map_cong) (simp_all add: midrank_closed)
  then show "(\<Sum>v\<leftarrow>vs. midrank vs v) = real (length vs) * (real (length vs) + 1) / 2"
    by (simp only: closedMidrank_sum)
  show "StatsLib_calculateRanks vs = calculateRanks vs"
    by (simp add: StatsLib_calculateRanks_def calculateRanks_def sl_rankLoop_eq)
  show "pooledRanks allValues =
     map (midrank (map snd allValues)) (map snd (sort_key snd allValues))"
    by (rule pooledRanks_midrank)
qed

section \<open>Properties of the tie correction\<close>

lemma lookupCount_countStep:
  "lookupCount (countStep vc v) x = (if x = v then lookupCount vc v + 1 else lookupCount vc x)"
  by (simp add: lookupCount_def countStep_def update_conv')

lemma lookupCount_foldl:
  "lookupCount (foldl countStep vc vs) x = lookupCount vc x + count_list vs x"
  by (induction vs arbitrary: vc) (auto simp: lookupCount_countStep)

lemma keys_countStep: "fst ` set (countStep vc v) = insert v (fst ` set vc)"
  using dom_update[of v "lookupCount vc v + 1" vc] by (simp add: countStep_def dom_map_of_conv_image_fst)

lemma keys_foldl: "fst ` set (foldl countStep vc vs) = fst ` set vc \<union> set vs"
  by (induction vs arbitrary: vc) (auto simp: keys_countStep)

lemma distinct_countStep: "distinct (map fst vc) \<Longrightarrow> distinct (map fst (countStep vc v))"
  by (simp add: countStep_def distinct_update)

lemma distinct_foldl: "distinct (map fst vc) \<Longrightarrow> distinct (map fst (foldl countStep vc vs))"
  by (induction vs arbitrary: vc) (auto simp: distinct_countStep)

lemma tieSum_foldl:
  "foldl (\<lambda>s c. if c > 1 then s + (real c ^ 3 - real c) else s) a cs
     = a + (\<Sum>c\<leftarrow>cs. real c ^ 3 - real c)"
proof (induction cs arbitrary: a)
  case Nil then show ?case by simp
next
  case (Cons c cs)
  have "c \<le> 1 \<Longrightarrow> real c ^ 3 - real c = 0"
    by (cases "c = 0") (auto simp: le_Suc_eq)
  with Cons show ?case by (auto simp: not_less)
qed

lemma sum_list_alist:
  "distinct (map fst vc) \<Longrightarrow> (\<Sum>c\<leftarrow>map snd vc. g c) = (\<Sum>k\<in>fst ` set vc. g (lookupCount vc k))"
proof (induction vc)
  case Nil then show ?case by simp
next
  case (Cons kc vc)
  obtain k c where kc: "kc = (k, c)" by (cases kc)
  have nk: "k \<notin> fst ` set vc" using Cons.prems kc by auto
  have "(\<Sum>x\<in>fst ` set vc. g (lookupCount ((k, c) # vc) x)) = (\<Sum>x\<in>fst ` set vc. g (lookupCount vc x))"
    by (rule sum.cong) (use nk in \<open>auto simp: lookupCount_def\<close>)
  with Cons nk show ?case
    by (simp add: kc lookupCount_def)
qed

lemma calculateTieCorrection_spec:
  "calculateTieCorrection vs =
     (if length vs < 2 then 0 else tiedGroupsSum vs / (real (length vs) ^ 3 - real (length vs)))"
proof -
  have d: "distinct (map fst (valueCounts vs))"
    unfolding valueCounts_def by (rule distinct_foldl) simp
  have k: "fst ` set (valueCounts vs) = set vs"
    unfolding valueCounts_def by (simp add: keys_foldl)
  have "lookupCount [] x = 0" for x
    by (simp add: lookupCount_def)
  then have l: "lookupCount (valueCounts vs) x = count_list vs x" for x
    unfolding valueCounts_def by (simp add: lookupCount_foldl)
  have "tieSum (valueCounts vs) = tiedGroupsSum vs"
    unfolding tieSum_def tieSum_foldl tiedGroupsSum_def
    using sum_list_alist[OF d, of "\<lambda>c. real c ^ 3 - real c"] by (simp add: k l)
  then show ?thesis
    by (simp add: calculateTieCorrection_def Let_def)
qed

lemma distinct_iff_count_list: "distinct xs \<longleftrightarrow> (\<forall>v\<in>set xs. count_list xs v = 1)"
  by (induction xs) (auto simp: count_list_0_iff)

lemma cube_minus_self: "1 \<le> c \<Longrightarrow> 0 \<le> real c ^ 3 - real c" "1 \<le> c \<Longrightarrow> real c ^ 3 - real c = 0 \<longleftrightarrow> c = 1"
proof -
  assume c: "1 \<le> c"
  have eq: "real c ^ 3 - real c = real c * (real c - 1) * (real c + 1)"
    by (simp add: power3_eq_cube algebra_simps)
  show "0 \<le> real c ^ 3 - real c" unfolding eq using c by simp
  show "real c ^ 3 - real c = 0 \<longleftrightarrow> c = 1" unfolding eq using c by auto
qed

lemma tiedGroupsSum_zero_iff: "tiedGroupsSum vs = 0 \<longleftrightarrow> distinct vs"
proof -
  have ge: "1 \<le> count_list vs v" if "v \<in> set vs" for v
    using that count_list_0_iff[of vs v] by (cases "count_list vs v") auto
  have "tiedGroupsSum vs = 0 \<longleftrightarrow> (\<forall>v\<in>set vs. real (count_list vs v) ^ 3 - real (count_list vs v) = 0)"
    unfolding tiedGroupsSum_def
    by (rule sum_nonneg_eq_0_iff) (use cube_minus_self(1) ge in auto)
  also have "\<dots> \<longleftrightarrow> (\<forall>v\<in>set vs. count_list vs v = 1)"
    using cube_minus_self(2) ge by blast
  finally show ?thesis by (simp add: distinct_iff_count_list)
qed

text \<open>
  C3: the tie-correction factor is the sum of \<open>c^3 - c\<close> over the groups of tied values
  divided by \<open>n^3 - n\<close>; it is 0 when \<open>n < 2\<close> and when no two values are equal, and for
  \<open>n \<ge> 2\<close> it is 0 exactly when all values are distinct.
\<close>

theorem C3_tie_correction:
  "calculateTieCorrection vs =
     (if length vs < 2 then 0 else tiedGroupsSum vs / (real (length vs) ^ 3 - real (length vs))) \<and>
   (length vs < 2 \<longrightarrow> calculateTieCorrection vs = 0) \<and>
   (distinct vs \<longrightarrow> calculateTieCorrection vs = 0) \<and>
   (2 \<le> length vs \<longrightarrow> (calculateTieCorrection vs = 0 \<longleftrightarrow> distinct vs))"
proof -
  have nz: "real (length vs) ^ 3 - real (length vs) \<noteq> 0" if "2 \<le> length vs"
  proof -
    have "real (length vs) ^ 3 - real (length vs) = real (length vs) * (real (length vs) - 1) * (real (length vs) + 1)"
      by (simp add: power3_eq_cube algebra_simps)
    then show ?thesis using that by auto
  qed
  show ?thesis
    using nz tiedGroupsSum_zero_iff[of vs] by (auto simp: calculateTieCorrection_spec)
qed

theorem C3_tie_correction_witness:
  "2 \<le> length [1, 2, 2, 3, 3, 3 :: real] \<and> \<not> distinct [1, 2, 2, 3, 3, 3 :: real] \<and>
   calculateTieCorrection [1, 2, 2, 3, 3, 3] = 1 / 7 \<and>
   tiedGroupsSum [1, 2, 2, 3, 3, 3] = 30 \<and>
   distinct [1, 2, 3 :: real] \<and> calculateTieCorrection [1, 2, 3] = 0 \<and>
   length [5 :: real] < 2 \<and> calculateTieCorrection [5] = 0"
proof -
  have a: "calculateTieCorrection [1, 2, 2, 3, 3, 3] = 1 / 7"
    by (simp add: calculateTieCorrection_def valueCounts_def countStep_def lookupCount_def tieSum_def)
  have "tiedGroupsSum [1, 2, 2, 3, 3, 3] / (real (length [1, 2, 2, 3, 3, 3 :: real]) ^ 3 - real (length [1, 2, 2, 3, 3, 3 :: real])) = 1 / 7"
    using C3_tie_correction[of "[1, 2, 2, 3, 3, 3]"] a by simp
  then have b: "tiedGroupsSum [1, 2, 2, 3, 3, 3] = 30"
    by simp
  have c: "calculateTieCorrection [1, 2, 3] = 0"
    using C3_tie_correction[of "[1, 2, 3]"] by simp
  have d: "calculateTieCorrection [5] = 0"
    using C3_tie_correction[of "[5]"] by simp
  show ?thesis
    using a b c d by simp
qed

section \<open>Properties of the recommender\<close>

lemma scoredEntries_map:
  "scoredEntries sel info =
     map (\<lambda>t. \<lparr>rec_test = t, rec_score = scoreTest sel info t,
                rec_suitability = getSuitabilityLevel (scoreTest sel info t)\<rparr>)
       (filter (\<lambda>t. scoreTest sel info t > 0) testsDatabase)"
  unfolding scoredEntries_def by (rule comprehension_filter)

lemma scoredEntries_member:
  assumes "r \<in> set (scoredEntries sel info)"
  shows "0 < rec_score r \<and> rec_test r \<in> set testsDatabase \<and>
         rec_score r = scoreTest sel info (rec_test r) \<and>
         rec_suitability r = getSuitabilityLevel (rec_score r)"
  using assms unfolding scoredEntries_map by auto

lemma getRecommendations_subset:
  "set (getRecommendations sel info) \<subseteq> set (scoredEntries sel info)"
proof -
  have "set (getRecommendations sel info) \<subseteq> set (sort_key (\<lambda>r. - rec_score r) (scoredEntries sel info))"
    unfolding getRecommendations_def by (rule set_take_subset)
  then show ?thesis by simp
qed

lemma sorted_descending:
  "sorted_wrt (\<lambda>a b. rec_score b \<le> rec_score a) (sort_key (\<lambda>r. - rec_score r) zs)"
proof -
  have "sorted (map (\<lambda>r. - rec_score r) (sort_key (\<lambda>r. - rec_score r) zs))"
    by (rule sorted_sort_key)
  then show ?thesis
    by (simp add: sorted_map)
qed

lemma getRecommendations_sorted:
  "sorted_wrt (\<lambda>a b. rec_score b \<le> rec_score a) (getRecommendations sel info)"
proof -
  define ss where "ss = sort_key (\<lambda>r. - rec_score r) (scoredEntries sel info)"
  have "sorted_wrt (\<lambda>a b. rec_score b \<le> rec_score a) (take 3 ss @ drop 3 ss)"
    unfolding ss_def by (simp add: sorted_descending)
  then have "sorted_wrt (\<lambda>a b. rec_score b \<le> rec_score a) (take 3 ss)"
    unfolding sorted_wrt_append by blast
  then show ?thesis
    by (simp add: getRecommendations_def ss_def)
qed

lemma filter_take_subseq: "subseq (filter P (take n xs)) (filter P xs)"
proof -
  have "subseq (filter P (take n xs)) (filter P (take n xs @ drop n xs))"
    unfolding filter_append by (rule subseq_rev_drop_many) simp
  then show ?thesis by simp
qed

lemma getRecommendations_stable:
  "subseq (map rec_test (filter (\<lambda>r. rec_score r = k) (getRecommendations sel info))) testsDatabase"
proof -
  define zs where "zs = scoredEntries sel info"
  define ss where "ss = sort_key (\<lambda>r. - rec_score r) zs"
  have eqk: "(\<lambda>r. rec_score r = k) = (\<lambda>r. - rec_score r = - k)"
    by auto
  have "filter (\<lambda>r. - rec_score r = - k) ss = filter (\<lambda>r. - rec_score r = - k) zs"
    unfolding ss_def by (rule sort_key_stable)
  then have st: "filter (\<lambda>r. rec_score r = k) ss = filter (\<lambda>r. rec_score r = k) zs"
    unfolding eqk .
  have "subseq (filter (\<lambda>r. rec_score r = k) (take 3 ss)) (filter (\<lambda>r. rec_score r = k) ss)"
    by (rule filter_take_subseq)
  then have "subseq (filter (\<lambda>r. rec_score r = k) (take 3 ss)) zs"
    unfolding st using subseq_filter_left subseq_order.trans by blast
  then have "subseq (map rec_test (filter (\<lambda>r. rec_score r = k) (take 3 ss))) (map rec_test zs)"
    by (rule subseq_map)
  moreover have "map rec_test zs = filter (\<lambda>t. scoreTest sel info t > 0) testsDatabase"
    unfolding zs_def scoredEntries_map by (simp add: comp_def)
  ultimately have "subseq (map rec_test (filter (\<lambda>r. rec_score r = k) (take 3 ss))) testsDatabase"
    using subseq_filter_left subseq_order.trans by metis
  then show ?thesis
    by (simp add: getRecommendations_def ss_def zs_def)
qed

lemma getRecommendations_top:
  assumes t: "t \<in> set testsDatabase" and pos: "0 < scoreTest sel info t"
    and out: "t \<notin> rec_test ` set (getRecommendations sel info)"
  shows "length (getRecommendations sel info) = 3 \<and>
         (\<forall>r\<in>set (getRecommendations sel info). scoreTest sel info t \<le> rec_score r)"
proof -
  define zs where "zs = scoredEntries sel info"
  define ss where "ss = sort_key (\<lambda>r. - rec_score r) zs"
  define e where "e = \<lparr>rec_test = t, rec_score = scoreTest sel info t,
                rec_suitability = getSuitabilityLevel (scoreTest sel info t)\<rparr>"
  have gr: "getRecommendations sel info = take 3 ss"
    by (simp add: getRecommendations_def ss_def zs_def)
  have "e \<in> set zs"
    unfolding zs_def scoredEntries_map e_def using t pos by simp
  then have "e \<in> set ss"
    by (simp add: ss_def)
  moreover have "set ss = set (take 3 ss) \<union> set (drop 3 ss)"
    by (metis append_take_drop_id set_append)
  moreover have "e \<notin> set (take 3 ss)"
    using out unfolding gr by (force simp: e_def)
  ultimately have ed: "e \<in> set (drop 3 ss)"
    by blast
  then have "drop 3 ss \<noteq> []"
    by auto
  then have len: "length (take 3 ss) = 3"
    by simp
  have "sorted_wrt (\<lambda>a b. rec_score b \<le> rec_score a) (take 3 ss @ drop 3 ss)"
    unfolding ss_def by (simp add: sorted_descending)
  then have "\<forall>r\<in>set (take 3 ss). rec_score e \<le> rec_score r"
    unfolding sorted_wrt_append using ed by blast
  then show ?thesis
    unfolding gr using len by (simp add: e_def)
qed

lemma comesBefore_split: "comesBefore a b (as @ a # bs @ b # cs)"
  unfolding comesBefore_def by (induction as) simp_all

text \<open>
  In a list without repetitions, as the catalog is one, \<open>comesBefore\<close> is the order of the
  positions.
\<close>

lemma dropWhile_nth:
  "distinct xs \<Longrightarrow> i < length xs \<Longrightarrow> dropWhile (\<lambda>x. x \<noteq> xs ! i) xs = drop i xs"
proof (induction xs arbitrary: i)
  case Nil
  then show ?case by simp
next
  case (Cons a xs)
  show ?case
  proof (cases i)
    case 0
    then show ?thesis by simp
  next
    case (Suc k)
    then have k: "k < length xs"
      using Cons.prems by simp
    then have "xs ! k \<noteq> a"
      using Cons.prems(1) by auto
    then show ?thesis
      using Suc Cons.IH[of k] Cons.prems(1) k by simp
  qed
qed

lemma comesBefore_index:
  assumes "distinct xs" "i < length xs" "j < length xs"
  shows "comesBefore (xs ! i) (xs ! j) xs \<longleftrightarrow> i < j"
proof -
  have "tl (dropWhile (\<lambda>x. x \<noteq> xs ! i) xs) = drop (Suc i) xs"
    using dropWhile_nth[OF assms(1,2)] by (simp add: drop_Suc tl_drop)
  moreover have "xs ! j \<in> set (drop (Suc i) xs) \<longleftrightarrow> Suc i \<le> j"
  proof
    assume "xs ! j \<in> set (drop (Suc i) xs)"
    then obtain k where k: "k < length xs - Suc i" "drop (Suc i) xs ! k = xs ! j"
      by (auto simp: in_set_conv_nth)
    then have "xs ! (Suc i + k) = xs ! j"
      by simp
    then have "Suc i + k = j"
      using assms(1,3) k(1) by (simp add: nth_eq_iff_index_eq)
    then show "Suc i \<le> j"
      by simp
  next
    assume le: "Suc i \<le> j"
    then have "j - Suc i < length (drop (Suc i) xs)" "drop (Suc i) xs ! (j - Suc i) = xs ! j"
      using assms(3) by simp_all
    then show "xs ! j \<in> set (drop (Suc i) xs)"
      by (metis nth_mem)
  qed
  ultimately show ?thesis
    by (auto simp: comesBefore_def)
qed

lemma distinct_testsDatabase: "distinct testsDatabase"
  by (simp add: testsDatabase_def)

lemma filter_split:
  "filter Q xs = A @ x # R \<Longrightarrow> \<exists>as rest. xs = as @ x # rest \<and> filter Q rest = R"
proof (induction A arbitrary: xs)
  case Nil
  then have "filter Q xs = x # R"
    by simp
  then obtain us vs where "xs = us @ x # vs" "R = filter Q vs"
    unfolding filter_eq_Cons_iff by blast
  then show ?case
    by blast
next
  case (Cons a A)
  then have "filter Q xs = a # (A @ x # R)"
    by simp
  then obtain us vs where xs: "xs = us @ a # vs" and vs: "A @ x # R = filter Q vs"
    unfolding filter_eq_Cons_iff by blast
  obtain as rest where "vs = as @ x # rest" "filter Q rest = R"
    using Cons.IH[OF vs[symmetric]] by blast
  then have "xs = (us @ a # as) @ x # rest \<and> filter Q rest = R"
    using xs by simp
  then show ?case
    by blast
qed

lemma filter_order:
  assumes "filter Q xs = A @ x # B @ y # C"
  shows "\<exists>as bs cs. xs = as @ x # bs @ y # cs"
proof -
  obtain as rest where xs: "xs = as @ x # rest" and rest: "filter Q rest = B @ y # C"
    using filter_split[OF assms] by blast
  obtain bs cs where "rest = bs @ y # cs"
    using filter_split[OF rest] by blast
  then show ?thesis
    using xs by blast
qed

lemma getRecommendations_ties:
  assumes r: "r \<in> set (getRecommendations sel info)"
    and t: "t \<in> set testsDatabase" and pos: "0 < scoreTest sel info t"
    and out: "t \<notin> rec_test ` set (getRecommendations sel info)"
    and tie: "scoreTest sel info t = rec_score r"
  shows "comesBefore (rec_test r) t testsDatabase"
proof -
  define zs where "zs = scoredEntries sel info"
  define ss where "ss = sort_key (\<lambda>r. - rec_score r) zs"
  define e where "e = \<lparr>rec_test = t, rec_score = scoreTest sel info t,
                rec_suitability = getSuitabilityLevel (scoreTest sel info t)\<rparr>"
  define P where "P = (\<lambda>x :: recommendation. rec_score x = rec_score r)"
  have gr: "getRecommendations sel info = take 3 ss"
    by (simp add: getRecommendations_def ss_def zs_def)
  have "e \<in> set zs"
    unfolding zs_def scoredEntries_map e_def using t pos by simp
  then have "e \<in> set ss"
    by (simp add: ss_def)
  moreover have "set ss = set (take 3 ss) \<union> set (drop 3 ss)"
    by (metis append_take_drop_id set_append)
  moreover have "e \<notin> set (take 3 ss)"
    using out unfolding gr by (force simp: e_def)
  ultimately have "e \<in> set (drop 3 ss)"
    by blast
  then obtain b1 b2 where dr: "drop 3 ss = b1 @ e # b2"
    by (meson split_list)
  obtain a1 a2 where tk: "take 3 ss = a1 @ r # a2"
    using r unfolding gr by (meson split_list)
  have Pr: "P r" and Pe: "P e"
    using tie by (simp_all add: P_def e_def)
  have "filter P ss = filter P (take 3 ss @ drop 3 ss)"
    by simp
  also have "\<dots> = filter P a1 @ r # (filter P a2 @ filter P b1) @ e # filter P b2"
    unfolding tk dr using Pr Pe by simp
  finally have fs: "filter P ss = filter P a1 @ r # (filter P a2 @ filter P b1) @ e # filter P b2" .
  have eqk: "P = (\<lambda>x. - rec_score x = - rec_score r)"
    by (auto simp: P_def)
  have "filter P ss = filter P zs"
    unfolding eqk ss_def by (rule sort_key_stable)
  then obtain as bs cs where z: "zs = as @ r # bs @ e # cs"
    using filter_order[of P zs] fs by metis
  have "map rec_test zs = filter (\<lambda>t. scoreTest sel info t > 0) testsDatabase"
    unfolding zs_def scoredEntries_map by (simp add: comp_def)
  then have "filter (\<lambda>t. scoreTest sel info t > 0) testsDatabase =
      map rec_test as @ rec_test r # map rec_test bs @ t # map rec_test cs"
    unfolding z by (simp add: e_def)
  then obtain as' bs' cs' where "testsDatabase = as' @ rec_test r # bs' @ t # cs'"
    using filter_order by metis
  then show ?thesis
    using comesBefore_split by metis
qed

lemma score_two_group_comparison:
  assumes "design sel = Some ''comparison''"
    and "characteristics sel = Some ''continuous-normal''"
    and "groups sel = Some ''2''"
    and "info = Some d" and "data_groups d = Some gs" and "data_values d = Some vs"
    and "card (set gs) = 2" and "30 \<le> length vs"
  shows "map (scoreTest sel info) testsDatabase =
     [7 + (if samples sel = Some ''independent'' then 2 else 0),
      7 + (if samples sel = Some ''paired'' then 2 else 0),
      0, 5, - 2, 2, 0, 0, 2,
      5 + (if samples sel = Some ''paired'' then 2 else 0)]"
  using assms
  by (simp add: testsDatabase_def scoreTest_def dataCompatibility_def Let_def uniqueGroups_length)

lemma recommendations_two_group_comparison:
  assumes "design sel = Some ''comparison''"
    and "characteristics sel = Some ''continuous-normal''"
    and "groups sel = Some ''2''"
    and "info = Some d" and "data_groups d = Some gs" and "data_values d = Some vs"
    and "card (set gs) = 2" and "30 \<le> length vs"
  shows "map (\<lambda>r. (test_id (rec_test r), rec_score r)) (getRecommendations sel info) =
     (if samples sel = Some ''independent''
      then [(''independent-t-test'', 9), (''paired-t-test'', 7), (''mann-whitney'', 5)]
      else if samples sel = Some ''paired''
      then [(''paired-t-test'', 9), (''independent-t-test'', 7), (''wilcoxon-signed-rank'', 7)]
      else [(''independent-t-test'', 7), (''paired-t-test'', 7), (''mann-whitney'', 5)])"
proof -
  note sc = score_two_group_comparison[OF assms]
  have len: "length testsDatabase = 10"
    by (simp add: testsDatabase_def)
  have sc': "scoreTest sel info (testsDatabase ! k) = map (scoreTest sel info) testsDatabase ! k"
    if "k < 10" for k
    using that len by simp
  have db: "testsDatabase = map (\<lambda>k. testsDatabase ! k) [0, 1, 2, 3, 4, 5, 6, 7, 8, 9]"
    by (simp add: testsDatabase_def)
  have vals: "scoreTest sel info (testsDatabase ! 0) = 7 + (if samples sel = Some ''independent'' then 2 else 0)"
    "scoreTest sel info (testsDatabase ! 1) = 7 + (if samples sel = Some ''paired'' then 2 else 0)"
    "scoreTest sel info (testsDatabase ! 2) = 0"
    "scoreTest sel info (testsDatabase ! 3) = 5"
    "scoreTest sel info (testsDatabase ! 4) = - 2"
    "scoreTest sel info (testsDatabase ! 5) = 2"
    "scoreTest sel info (testsDatabase ! 6) = 0"
    "scoreTest sel info (testsDatabase ! 7) = 0"
    "scoreTest sel info (testsDatabase ! 8) = 2"
    "scoreTest sel info (testsDatabase ! 9) = 5 + (if samples sel = Some ''paired'' then 2 else 0)"
    using sc'[of 0] sc'[of 1] sc'[of 2] sc'[of 3] sc'[of 4] sc'[of 5] sc'[of 6] sc'[of 7]
      sc'[of 8] sc'[of 9]
    unfolding sc by simp_all
  have ids: "map test_id testsDatabase = [''independent-t-test'', ''paired-t-test'', ''one-way-anova'',
      ''mann-whitney'', ''kruskal-wallis'', ''pearson-correlation'', ''spearman-correlation'',
      ''chi-square-independence'', ''simple-linear-regression'', ''wilcoxon-signed-rank'']"
    by (simp add: testsDatabase_def)
  have id: "test_id (testsDatabase ! k) = map test_id testsDatabase ! k" if "k < 10" for k
    using that len by simp
  have se: "scoredEntries sel info =
     map (\<lambda>t. \<lparr>rec_test = t, rec_score = scoreTest sel info t,
                rec_suitability = getSuitabilityLevel (scoreTest sel info t)\<rparr>)
       (filter (\<lambda>t. scoreTest sel info t > 0) (map (\<lambda>k. testsDatabase ! k) [0, 1, 2, 3, 4, 5, 6, 7, 8, 9]))"
    unfolding scoredEntries_map using db by simp
  have v1: "scoreTest sel info (testsDatabase ! Suc 0) = 7 + (if samples sel = Some ''paired'' then 2 else 0)"
    using vals(2) by simp
  have i1: "test_id (testsDatabase ! Suc 0) = ''paired-t-test''"
    using id[of 1] ids by simp
  consider (indep) "samples sel = Some ''independent''" | (paired) "samples sel = Some ''paired''"
    | (other) "samples sel \<noteq> Some ''independent''" "samples sel \<noteq> Some ''paired''"
    by blast
  then show ?thesis
  proof cases
    case indep
    then show ?thesis
      unfolding getRecommendations_def se by (simp add: vals v1 i1 id ids)
  next
    case paired
    then show ?thesis
      unfolding getRecommendations_def se by (simp add: vals v1 i1 id ids)
  next
    case other
    then show ?thesis
      unfolding getRecommendations_def se by (simp add: vals v1 i1 id ids)
  qed
qed

text \<open>
  C6 (amended): the recommender returns only catalog entries with a positive score,
  each with its score and the suitability tier of that score (excellent from 8, very good
  from 6, good from 4, acceptable below), in descending order of score, entries of equal
  score in catalog order, at most three of them; no entry left out scores higher than
  one returned, and an entry left out with the score of one returned comes after it in the
  catalog, so that the three are the first three of the stably sorted list. For design "comparison", characteristics "continuous-normal", groups "2"
  and data with exactly two distinct groups and at least 30 values, the independent t-test
  is among the recommendations with a score of at least 7, and it is the first of them
  unless the sample relationship selected is "paired".
\<close>

theorem C6_recommendations:
  "(\<forall>r\<in>set (getRecommendations sel info).
      0 < rec_score r \<and> rec_test r \<in> set testsDatabase \<and>
      rec_score r = scoreTest sel info (rec_test r) \<and>
      rec_suitability r =
        (if 8 \<le> rec_score r then Excellent else if 6 \<le> rec_score r then VeryGood
         else if 4 \<le> rec_score r then Good else Acceptable)) \<and>
   sorted_wrt (\<lambda>a b. rec_score b \<le> rec_score a) (getRecommendations sel info) \<and>
   (\<forall>k. subseq (map rec_test (filter (\<lambda>r. rec_score r = k) (getRecommendations sel info)))
          testsDatabase) \<and>
   length (getRecommendations sel info) \<le> 3 \<and>
   (\<forall>t\<in>set testsDatabase.
      0 < scoreTest sel info t \<and> t \<notin> rec_test ` set (getRecommendations sel info) \<longrightarrow>
      length (getRecommendations sel info) = 3 \<and>
      (\<forall>r\<in>set (getRecommendations sel info). scoreTest sel info t \<le> rec_score r)) \<and>
   (\<forall>r\<in>set (getRecommendations sel info). \<forall>t\<in>set testsDatabase.
      0 < scoreTest sel info t \<and> t \<notin> rec_test ` set (getRecommendations sel info) \<and>
      scoreTest sel info t = rec_score r \<longrightarrow>
      comesBefore (rec_test r) t testsDatabase) \<and>
   (design sel = Some ''comparison'' \<and> characteristics sel = Some ''continuous-normal'' \<and>
    groups sel = Some ''2'' \<and> info = Some d \<and> data_groups d = Some gs \<and>
    data_values d = Some vs \<and> card (set gs) = 2 \<and> 30 \<le> length vs \<longrightarrow>
      (\<exists>r\<in>set (getRecommendations sel info).
          test_id (rec_test r) = ''independent-t-test'' \<and> 7 \<le> rec_score r) \<and>
      (samples sel \<noteq> Some ''paired'' \<longrightarrow>
          getRecommendations sel info \<noteq> [] \<and>
          test_id (rec_test (hd (getRecommendations sel info))) = ''independent-t-test''))"
proof (intro conjI ballI allI impI)
  fix r assume r: "r \<in> set (getRecommendations sel info)"
  then have m: "r \<in> set (scoredEntries sel info)"
    using getRecommendations_subset by blast
  show "0 < rec_score r" "rec_test r \<in> set testsDatabase"
    "rec_score r = scoreTest sel info (rec_test r)"
    using scoredEntries_member[OF m] by simp_all
  show "rec_suitability r =
        (if 8 \<le> rec_score r then Excellent else if 6 \<le> rec_score r then VeryGood
         else if 4 \<le> rec_score r then Good else Acceptable)"
    using scoredEntries_member[OF m] by (simp add: getSuitabilityLevel_def)
next
  show "sorted_wrt (\<lambda>a b. rec_score b \<le> rec_score a) (getRecommendations sel info)"
    by (rule getRecommendations_sorted)
next
  fix k
  show "subseq (map rec_test (filter (\<lambda>r. rec_score r = k) (getRecommendations sel info)))
          testsDatabase"
    by (rule getRecommendations_stable)
next
  show "length (getRecommendations sel info) \<le> 3"
    by (simp add: getRecommendations_def)
next
  fix t assume t: "t \<in> set testsDatabase"
    and h: "0 < scoreTest sel info t \<and> t \<notin> rec_test ` set (getRecommendations sel info)"
  show "length (getRecommendations sel info) = 3"
    using getRecommendations_top[OF t] h by blast
  fix r assume "r \<in> set (getRecommendations sel info)"
  then show "scoreTest sel info t \<le> rec_score r"
    using getRecommendations_top[OF t] h by blast
next
  fix r t assume r: "r \<in> set (getRecommendations sel info)" and t: "t \<in> set testsDatabase"
    and h: "0 < scoreTest sel info t \<and> t \<notin> rec_test ` set (getRecommendations sel info) \<and>
      scoreTest sel info t = rec_score r"
  show "comesBefore (rec_test r) t testsDatabase"
    using getRecommendations_ties[OF r t] h by blast
next
  assume h: "design sel = Some ''comparison'' \<and> characteristics sel = Some ''continuous-normal'' \<and>
    groups sel = Some ''2'' \<and> info = Some d \<and> data_groups d = Some gs \<and>
    data_values d = Some vs \<and> card (set gs) = 2 \<and> 30 \<le> length vs"
  define out where "out = getRecommendations sel info"
  have l: "map (\<lambda>r. (test_id (rec_test r), rec_score r)) out =
     (if samples sel = Some ''independent''
      then [(''independent-t-test'', 9), (''paired-t-test'', 7), (''mann-whitney'', 5)]
      else if samples sel = Some ''paired''
      then [(''paired-t-test'', 9), (''independent-t-test'', 7), (''wilcoxon-signed-rank'', 7)]
      else [(''independent-t-test'', 7), (''paired-t-test'', 7), (''mann-whitney'', 5)])"
    unfolding out_def
    by (rule recommendations_two_group_comparison[where d = d and gs = gs and vs = vs])
      (use h in simp_all)
  have "(''independent-t-test'', 7) \<in> set (map (\<lambda>r. (test_id (rec_test r), rec_score r)) out) \<or>
        (''independent-t-test'', 9) \<in> set (map (\<lambda>r. (test_id (rec_test r), rec_score r)) out)"
    unfolding l by simp
  then show "\<exists>r\<in>set (getRecommendations sel info).
          test_id (rec_test r) = ''independent-t-test'' \<and> 7 \<le> rec_score r"
    unfolding out_def by auto
  assume np: "samples sel \<noteq> Some ''paired''"
  have ne: "out \<noteq> []"
    using l by (auto split: if_splits)
  then show "getRecommendations sel info \<noteq> []"
    by (simp add: out_def)
  have "hd (map (\<lambda>r. (test_id (rec_test r), rec_score r)) out) = (test_id (rec_test (hd out)), rec_score (hd out))"
    using ne by (simp add: hd_map)
  moreover have "fst (hd (map (\<lambda>r. (test_id (rec_test r), rec_score r)) out)) = ''independent-t-test''"
    unfolding l using np by simp
  ultimately show "test_id (rec_test (hd (getRecommendations sel info))) = ''independent-t-test''"
    by (simp add: out_def)
qed

theorem C6_recommendations_witness:
  "card (set (replicate 15 ''a'' @ replicate 15 ''b'')) = 2 \<and>
   30 \<le> length (replicate 30 (0 :: real)) \<and>
   getRecommendations
     \<lparr>design = Some ''comparison'', characteristics = Some ''continuous-normal'',
      samples = Some ''independent'', groups = Some ''2''\<rparr>
     (Some \<lparr>data_groups = Some (replicate 15 ''a'' @ replicate 15 ''b''),
            data_values = Some (replicate 30 0)\<rparr>) \<noteq> [] \<and>
   test_id (rec_test (hd (getRecommendations
     \<lparr>design = Some ''comparison'', characteristics = Some ''continuous-normal'',
      samples = Some ''independent'', groups = Some ''2''\<rparr>
     (Some \<lparr>data_groups = Some (replicate 15 ''a'' @ replicate 15 ''b''),
            data_values = Some (replicate 30 0)\<rparr>)))) = ''independent-t-test'' \<and>
   length (getRecommendations
     \<lparr>design = Some ''comparison'', characteristics = Some ''continuous-normal'',
      samples = Some ''independent'', groups = Some ''2''\<rparr>
     (Some \<lparr>data_groups = Some (replicate 15 ''a'' @ replicate 15 ''b''),
            data_values = Some (replicate 30 0)\<rparr>)) \<le> 3 \<and>
   map (\<lambda>r. test_id (rec_test r)) (getRecommendations
     \<lparr>design = Some ''comparison'', characteristics = Some ''continuous-normal'',
      samples = Some ''independent'', groups = Some ''2''\<rparr>
     (Some \<lparr>data_groups = Some (replicate 15 ''a'' @ replicate 15 ''b''),
            data_values = Some (replicate 30 0)\<rparr>)) =
     [''independent-t-test'', ''paired-t-test'', ''mann-whitney''] \<and>
   (getRecommendations
     \<lparr>design = Some ''comparison'', characteristics = Some ''continuous-normal'',
      samples = Some ''independent'', groups = Some ''2''\<rparr>
     (Some \<lparr>data_groups = Some (replicate 15 ''a'' @ replicate 15 ''b''),
            data_values = Some (replicate 30 0)\<rparr>)) ! 2 \<in> set (getRecommendations
     \<lparr>design = Some ''comparison'', characteristics = Some ''continuous-normal'',
      samples = Some ''independent'', groups = Some ''2''\<rparr>
     (Some \<lparr>data_groups = Some (replicate 15 ''a'' @ replicate 15 ''b''),
            data_values = Some (replicate 30 0)\<rparr>)) \<and>
   testsDatabase ! 9 \<in> set testsDatabase \<and>
   test_id (testsDatabase ! 9) = ''wilcoxon-signed-rank'' \<and>
   0 < (scoreTest
     \<lparr>design = Some ''comparison'', characteristics = Some ''continuous-normal'',
      samples = Some ''independent'', groups = Some ''2''\<rparr>
     (Some \<lparr>data_groups = Some (replicate 15 ''a'' @ replicate 15 ''b''),
            data_values = Some (replicate 30 0)\<rparr>)) (testsDatabase ! 9) \<and>
   testsDatabase ! 9 \<notin> rec_test ` set (getRecommendations
     \<lparr>design = Some ''comparison'', characteristics = Some ''continuous-normal'',
      samples = Some ''independent'', groups = Some ''2''\<rparr>
     (Some \<lparr>data_groups = Some (replicate 15 ''a'' @ replicate 15 ''b''),
            data_values = Some (replicate 30 0)\<rparr>)) \<and>
   (scoreTest
     \<lparr>design = Some ''comparison'', characteristics = Some ''continuous-normal'',
      samples = Some ''independent'', groups = Some ''2''\<rparr>
     (Some \<lparr>data_groups = Some (replicate 15 ''a'' @ replicate 15 ''b''),
            data_values = Some (replicate 30 0)\<rparr>)) (testsDatabase ! 9) = rec_score ((getRecommendations
     \<lparr>design = Some ''comparison'', characteristics = Some ''continuous-normal'',
      samples = Some ''independent'', groups = Some ''2''\<rparr>
     (Some \<lparr>data_groups = Some (replicate 15 ''a'' @ replicate 15 ''b''),
            data_values = Some (replicate 30 0)\<rparr>)) ! 2) \<and>
   comesBefore (rec_test ((getRecommendations
     \<lparr>design = Some ''comparison'', characteristics = Some ''continuous-normal'',
      samples = Some ''independent'', groups = Some ''2''\<rparr>
     (Some \<lparr>data_groups = Some (replicate 15 ''a'' @ replicate 15 ''b''),
            data_values = Some (replicate 30 0)\<rparr>)) ! 2)) (testsDatabase ! 9) testsDatabase"
proof -
  have c: "card (set (replicate 15 ''a'' @ replicate 15 ''b'')) = 2"
    by simp
  have n: "30 \<le> length (replicate 30 (0 :: real))"
    by simp
  have ids: "map (\<lambda>r. test_id (rec_test r)) (getRecommendations
     \<lparr>design = Some ''comparison'', characteristics = Some ''continuous-normal'',
      samples = Some ''independent'', groups = Some ''2''\<rparr>
     (Some \<lparr>data_groups = Some (replicate 15 ''a'' @ replicate 15 ''b''),
            data_values = Some (replicate 30 0)\<rparr>)) =
     [''independent-t-test'', ''paired-t-test'', ''mann-whitney'']"
    by code_simp
  have r: "(getRecommendations
     \<lparr>design = Some ''comparison'', characteristics = Some ''continuous-normal'',
      samples = Some ''independent'', groups = Some ''2''\<rparr>
     (Some \<lparr>data_groups = Some (replicate 15 ''a'' @ replicate 15 ''b''),
            data_values = Some (replicate 30 0)\<rparr>)) ! 2 \<in> set (getRecommendations
     \<lparr>design = Some ''comparison'', characteristics = Some ''continuous-normal'',
      samples = Some ''independent'', groups = Some ''2''\<rparr>
     (Some \<lparr>data_groups = Some (replicate 15 ''a'' @ replicate 15 ''b''),
            data_values = Some (replicate 30 0)\<rparr>))"
    by code_simp
  have t: "testsDatabase ! 9 \<in> set testsDatabase"
    by code_simp
  have tid: "test_id (testsDatabase ! 9) = ''wilcoxon-signed-rank''"
    by code_simp
  have pos: "0 < (scoreTest
     \<lparr>design = Some ''comparison'', characteristics = Some ''continuous-normal'',
      samples = Some ''independent'', groups = Some ''2''\<rparr>
     (Some \<lparr>data_groups = Some (replicate 15 ''a'' @ replicate 15 ''b''),
            data_values = Some (replicate 30 0)\<rparr>)) (testsDatabase ! 9)"
    by code_simp
  have out: "testsDatabase ! 9 \<notin> rec_test ` set (getRecommendations
     \<lparr>design = Some ''comparison'', characteristics = Some ''continuous-normal'',
      samples = Some ''independent'', groups = Some ''2''\<rparr>
     (Some \<lparr>data_groups = Some (replicate 15 ''a'' @ replicate 15 ''b''),
            data_values = Some (replicate 30 0)\<rparr>))"
    by code_simp
  have tie: "(scoreTest
     \<lparr>design = Some ''comparison'', characteristics = Some ''continuous-normal'',
      samples = Some ''independent'', groups = Some ''2''\<rparr>
     (Some \<lparr>data_groups = Some (replicate 15 ''a'' @ replicate 15 ''b''),
            data_values = Some (replicate 30 0)\<rparr>)) (testsDatabase ! 9) = rec_score ((getRecommendations
     \<lparr>design = Some ''comparison'', characteristics = Some ''continuous-normal'',
      samples = Some ''independent'', groups = Some ''2''\<rparr>
     (Some \<lparr>data_groups = Some (replicate 15 ''a'' @ replicate 15 ''b''),
            data_values = Some (replicate 30 0)\<rparr>)) ! 2)"
    by code_simp
  note inst = C6_recommendations[of
        "\<lparr>design = Some ''comparison'', characteristics = Some ''continuous-normal'',
      samples = Some ''independent'', groups = Some ''2''\<rparr>"
        "Some \<lparr>data_groups = Some (replicate 15 ''a'' @ replicate 15 ''b''),
            data_values = Some (replicate 30 0)\<rparr>"
        "\<lparr>data_groups = Some (replicate 15 ''a'' @ replicate 15 ''b''),
          data_values = Some (replicate 30 0)\<rparr>"
        "replicate 15 ''a'' @ replicate 15 ''b''" "replicate 30 0"]
  have first: "getRecommendations
     \<lparr>design = Some ''comparison'', characteristics = Some ''continuous-normal'',
      samples = Some ''independent'', groups = Some ''2''\<rparr>
     (Some \<lparr>data_groups = Some (replicate 15 ''a'' @ replicate 15 ''b''),
            data_values = Some (replicate 30 0)\<rparr>) \<noteq> [] \<and>
   test_id (rec_test (hd (getRecommendations
     \<lparr>design = Some ''comparison'', characteristics = Some ''continuous-normal'',
      samples = Some ''independent'', groups = Some ''2''\<rparr>
     (Some \<lparr>data_groups = Some (replicate 15 ''a'' @ replicate 15 ''b''),
            data_values = Some (replicate 30 0)\<rparr>)))) = ''independent-t-test'' \<and>
   length (getRecommendations
     \<lparr>design = Some ''comparison'', characteristics = Some ''continuous-normal'',
      samples = Some ''independent'', groups = Some ''2''\<rparr>
     (Some \<lparr>data_groups = Some (replicate 15 ''a'' @ replicate 15 ''b''),
            data_values = Some (replicate 30 0)\<rparr>)) \<le> 3"
    using c n inst by simp
  have "comesBefore (rec_test ((getRecommendations
     \<lparr>design = Some ''comparison'', characteristics = Some ''continuous-normal'',
      samples = Some ''independent'', groups = Some ''2''\<rparr>
     (Some \<lparr>data_groups = Some (replicate 15 ''a'' @ replicate 15 ''b''),
            data_values = Some (replicate 30 0)\<rparr>)) ! 2)) (testsDatabase ! 9) testsDatabase"
    using inst[THEN conjunct2, THEN conjunct2, THEN conjunct2, THEN conjunct2, THEN conjunct2,
        THEN conjunct1] r t pos out tie
    by blast
  then show ?thesis
    using c n ids r t tid pos out tie first by blast
qed

theorem C6_top_recommendation_counterexample:
  "map (\<lambda>r. (test_id (rec_test r), rec_score r))
     (getRecommendations
        \<lparr>design = Some ''comparison'', characteristics = Some ''continuous-normal'',
         samples = Some ''paired'', groups = Some ''2''\<rparr>
        (Some \<lparr>data_groups = Some (replicate 15 ''a'' @ replicate 15 ''b''),
               data_values = Some (replicate 30 0)\<rparr>))
   = [(''paired-t-test'', 9), (''independent-t-test'', 7), (''wilcoxon-signed-rank'', 7)]"
  by code_simp

section \<open>Properties of the assumption checks\<close>

lemma shapiroWilkTest_applicable:
  assumes "3 \<le> length vs" "length vs \<le> 5000"
  shows "shapiroWilkTest vs =
     \<lparr>ar_test = ''Shapiro-Wilk'', ar_statistic = Some 0.9, ar_pValue = Some 0.1,
      ar_result = Normal, ar_passed = Some True, ar_message = NormalMessage\<rparr>"
proof -
  have "sort vs \<noteq> []"
    using assms(1) by (metis length_sort list.size(3) not_numeral_le_zero)
  then show ?thesis
    using assms
    by (simp add: shapiroWilkTest_def ss_mean_def calculateShapiroWilkPValue_def Let_def)
qed

lemma shapiroWilkTest_inapplicable:
  assumes "length vs < 3 \<or> 5000 < length vs"
  shows "shapiroWilkTest vs =
     \<lparr>ar_test = ''Shapiro-Wilk'', ar_statistic = None, ar_pValue = None,
      ar_result = NotApplicable, ar_passed = None,
      ar_message = SampleSizeUnsuitable (length vs)\<rparr>"
  using assms by (simp add: shapiroWilkTest_def Let_def)

lemma leveneTest_two_groups:
  assumes "2 \<le> card (set gs)"
  shows "\<exists>e. leveneTest vs gs = leveneFailed e"
  using assms
  by (auto simp: leveneTest_def Let_def uniqueGroups_length oneWayANOVA_def
      split: sum.splits)

lemma leveneTest_one_group:
  assumes "card (set gs) < 2"
  shows "leveneTest vs gs =
     \<lparr>ar_test = ''Levene'', ar_statistic = None, ar_pValue = None,
      ar_result = NotApplicable, ar_passed = None, ar_message = NeedsTwoGroups\<rparr>"
  using assms by (simp add: leveneTest_def Let_def uniqueGroups_length)

text \<open>
  C4: at the values 1, 2, 3, 4 with the labels a, a, b, b (two groups of two) the
  homogeneity check of \<open>leveneTest\<close> does not report whether the ANOVA p-value exceeds
  0.05: the call of the undefined \<open>this.oneWayANOVA\<close> throws, and the result is the
  failure record with \<open>passed = null\<close>. The same holds for every input with two or more
  groups. With one group the result is the inapplicable record with its message. The
  worker's check passes at the same values, by its variance-ratio rule.
\<close>

theorem C4_leveneTest_fails_with_two_groups:
  "leveneTest [1, 2, 3, 4] [''a'', ''a'', ''b'', ''b''] =
     \<lparr>ar_test = ''Levene'', ar_statistic = None, ar_pValue = None,
      ar_result = Failed, ar_passed = None,
      ar_message = CalculationError (NotAFunction ''this.oneWayANOVA'')\<rparr> \<and>
   (\<forall>vs gs. \<exists>e. leveneTest vs (''a'' # ''b'' # gs) = leveneFailed e) \<and>
   leveneTest [1, 2, 3, 4] [''a'', ''a'', ''a'', ''a''] =
     \<lparr>ar_test = ''Levene'', ar_statistic = None, ar_pValue = None,
      ar_result = NotApplicable, ar_passed = None, ar_message = NeedsTwoGroups\<rparr> \<and>
   workerHomogeneityPassed [1, 2, 3, 4] [''a'', ''a'', ''b'', ''b'']"
proof (intro conjI allI)
  show "leveneTest [1, 2, 3, 4] [''a'', ''a'', ''b'', ''b''] =
     \<lparr>ar_test = ''Levene'', ar_statistic = None, ar_pValue = None,
      ar_result = Failed, ar_passed = None,
      ar_message = CalculationError (NotAFunction ''this.oneWayANOVA'')\<rparr>"
    by (simp add: leveneTest_def uniqueGroups_def groupValues_def ss_mean_def oneWayANOVA_def
        leveneFailed_def Let_def)
  fix vs :: "real list" and gs :: "string list"
  have "card (set (''a'' # ''b'' # gs)) = card (insert ''a'' (insert ''b'' (set gs)))"
    by simp
  also have "\<dots> \<ge> card {''a'', ''b''}"
    by (intro card_mono) auto
  finally have "2 \<le> card (set (''a'' # ''b'' # gs))"
    by simp
  then show "\<exists>e. leveneTest vs (''a'' # ''b'' # gs) = leveneFailed e"
    by (rule leveneTest_two_groups)
next
  show "leveneTest [1, 2, 3, 4] [''a'', ''a'', ''a'', ''a''] =
     \<lparr>ar_test = ''Levene'', ar_statistic = None, ar_pValue = None,
      ar_result = NotApplicable, ar_passed = None, ar_message = NeedsTwoGroups\<rparr>"
    by (rule leveneTest_one_group) simp
  show "workerHomogeneityPassed [1, 2, 3, 4] [''a'', ''a'', ''b'', ''b'']"
    by (simp add: workerHomogeneityPassed_def uniqueGroups_def groupValues_def
        populationVariance_def Let_def power2_eq_square)
qed

lemma cache_miss:
  assumes "cachedResults cache now (vs, gs) = None"
  shows "checkAssumptions cache now storeTime vs gs chk =
     (computeResults vs gs chk,
      cache((vs, gs) \<mapsto> \<lparr>ce_results = computeResults vs gs chk, ce_timestamp = storeTime\<rparr>))"
  using assms by (simp add: checkAssumptions_def Let_def)

lemma cache_hit:
  assumes "cachedResults cache now (vs, gs) = Some r"
  shows "checkAssumptions cache now storeTime vs gs chk = (r, cache)"
  using assms by (simp add: checkAssumptions_def Let_def)

text \<open>
  C5 (amended): when \<open>checkAssumptions\<close> computes (there is no unexpired cache entry for
  the payload) and the normality check is requested, the result holds a normality entry
  with a statistic, a p-value and a pass flag equal to \<open>p > 0.05\<close> if \<open>3 \<le> n \<le> 5000\<close>,
  and it holds no normality entry at all if \<open>n\<close> is outside that range: the guard in
  \<open>checkAssumptions\<close> skips the check. The inapplicable result with its message is what
  \<open>shapiroWilkTest\<close> itself returns for such \<open>n\<close> when it is called directly.
\<close>

theorem C5_normality_check:
  "cachedResults cache now (vs, gs) = None \<and> chk_normality chk \<longrightarrow>
     (3 \<le> length vs \<and> length vs \<le> 5000 \<longrightarrow>
        (\<exists>r st p. res_normality (fst (checkAssumptions cache now storeTime vs gs chk)) = Some r \<and>
           ar_statistic r = Some st \<and> ar_pValue r = Some p \<and>
           ar_passed r = Some (p > 0.05))) \<and>
     (length vs < 3 \<or> 5000 < length vs \<longrightarrow>
        res_normality (fst (checkAssumptions cache now storeTime vs gs chk)) = None \<and>
        ar_result (shapiroWilkTest vs) = NotApplicable \<and>
        ar_statistic (shapiroWilkTest vs) = None \<and>
        ar_pValue (shapiroWilkTest vs) = None \<and>
        ar_passed (shapiroWilkTest vs) = None \<and>
        ar_message (shapiroWilkTest vs) = SampleSizeUnsuitable (length vs))"
proof (intro impI conjI)
  assume h: "cachedResults cache now (vs, gs) = None \<and> chk_normality chk"
  then have ca: "fst (checkAssumptions cache now storeTime vs gs chk) = computeResults vs gs chk"
    by (simp add: cache_miss)
  {
    assume n: "3 \<le> length vs \<and> length vs \<le> 5000"
    then have "res_normality (computeResults vs gs chk) = Some (shapiroWilkTest vs)"
      using h by (simp add: computeResults_def)
    moreover have "ar_statistic (shapiroWilkTest vs) = Some 0.9"
      "ar_pValue (shapiroWilkTest vs) = Some 0.1"
      "ar_passed (shapiroWilkTest vs) = Some ((0.1 :: real) > 0.05)"
      using n by (simp_all add: shapiroWilkTest_applicable)
    ultimately show "\<exists>r st p. res_normality (fst (checkAssumptions cache now storeTime vs gs chk)) = Some r \<and>
           ar_statistic r = Some st \<and> ar_pValue r = Some p \<and> ar_passed r = Some (p > 0.05)"
      unfolding ca by blast
  }
  assume n: "length vs < 3 \<or> 5000 < length vs"
  then show "res_normality (fst (checkAssumptions cache now storeTime vs gs chk)) = None"
    unfolding ca by (auto simp: computeResults_def)
  show "ar_result (shapiroWilkTest vs) = NotApplicable"
    "ar_statistic (shapiroWilkTest vs) = None"
    "ar_pValue (shapiroWilkTest vs) = None"
    "ar_passed (shapiroWilkTest vs) = None"
    "ar_message (shapiroWilkTest vs) = SampleSizeUnsuitable (length vs)"
    using n by (simp_all add: shapiroWilkTest_inapplicable)
qed

theorem C5_normality_check_witness:
  "cachedResults Map.empty 0 ([1, 2, 3], None) = None \<and>
   res_normality (fst (checkAssumptions Map.empty 0 0 [1, 2, 3] None
      \<lparr>chk_normality = True, chk_homogeneity = False, chk_outliers = False\<rparr>))
     = Some \<lparr>ar_test = ''Shapiro-Wilk'', ar_statistic = Some 0.9, ar_pValue = Some 0.1,
            ar_result = Normal, ar_passed = Some True, ar_message = NormalMessage\<rparr> \<and>
   res_normality (fst (checkAssumptions Map.empty 0 0 [1, 2] None
      \<lparr>chk_normality = True, chk_homogeneity = False, chk_outliers = False\<rparr>)) = None \<and>
   ar_message (shapiroWilkTest [1, 2]) = SampleSizeUnsuitable 2"
proof -
  have m3: "cachedResults Map.empty 0 ([1, 2, 3], None) = None"
    and m2: "cachedResults Map.empty 0 ([1, 2], None) = None"
    by (simp_all add: cachedResults_def)
  have a: "res_normality (fst (checkAssumptions Map.empty 0 0 [1, 2, 3] None
      \<lparr>chk_normality = True, chk_homogeneity = False, chk_outliers = False\<rparr>))
     = Some \<lparr>ar_test = ''Shapiro-Wilk'', ar_statistic = Some 0.9, ar_pValue = Some 0.1,
            ar_result = Normal, ar_passed = Some True, ar_message = NormalMessage\<rparr>"
    using m3 by (simp add: cache_miss computeResults_def shapiroWilkTest_applicable)
  show ?thesis
    using m3 m2 a
      C5_normality_check[of Map.empty 0 "[1, 2]" None
        "\<lparr>chk_normality = True, chk_homogeneity = False, chk_outliers = False\<rparr>" 0]
    by simp
qed

theorem C5_normality_omitted_counterexample:
  "res_normality (fst (checkAssumptions Map.empty 0 0 [1, 2] None
      \<lparr>chk_normality = True, chk_homogeneity = False, chk_outliers = False\<rparr>)) = None \<and>
   res_normality (fst (checkAssumptions
      (Map.empty(([1, 2, 3], None) \<mapsto>
         \<lparr>ce_results = \<lparr>res_normality = None, res_homogeneity = None, res_outliers = None\<rparr>,
          ce_timestamp = 0\<rparr>))
      1000 1000 [1, 2, 3] None
      \<lparr>chk_normality = True, chk_homogeneity = False, chk_outliers = False\<rparr>)) = None"
  by (simp add: checkAssumptions_def cachedResults_def computeResults_def Let_def)

text \<open>
  C10 (amended): when a first call of \<open>checkAssumptions\<close> finds no unexpired entry for
  its payload, it stores its result under the payload alone; a second call with the same
  values and groups whose clock is less than five minutes past the time of storing
  returns that result and leaves the cache as it is, whatever checks it requests. So a
  check that the first call did not request is absent from the second result. A check
  that the first call requested is present exactly when the first call produced it:
  outliers always, normality when \<open>3 \<le> n \<le> 5000\<close>, homogeneity when \<open>groups\<close> is a
  non-empty array.
\<close>

theorem C10_cache_ignores_checks:
  "cachedResults cache t0 (vs, gs) = None \<and>
   checkAssumptions cache t0 s0 vs gs chk1 = (r1, cache1) \<and> t1 - 300000 < s0 \<longrightarrow>
     checkAssumptions cache1 t1 s1 vs gs chk2 = (r1, cache1) \<and>
     (\<not> chk_normality chk1 \<longrightarrow> res_normality r1 = None) \<and>
     (\<not> chk_homogeneity chk1 \<longrightarrow> res_homogeneity r1 = None) \<and>
     (\<not> chk_outliers chk1 \<longrightarrow> res_outliers r1 = None) \<and>
     (chk_normality chk1 \<longrightarrow>
        (res_normality r1 \<noteq> None \<longleftrightarrow> 3 \<le> length vs \<and> length vs \<le> 5000)) \<and>
     (chk_homogeneity chk1 \<longrightarrow>
        (res_homogeneity r1 \<noteq> None \<longleftrightarrow> (\<exists>labels. gs = Some labels \<and> labels \<noteq> []))) \<and>
     (chk_outliers chk1 \<longrightarrow> res_outliers r1 \<noteq> None)"
proof (intro impI)
  assume h: "cachedResults cache t0 (vs, gs) = None \<and>
   checkAssumptions cache t0 s0 vs gs chk1 = (r1, cache1) \<and> t1 - 300000 < s0"
  then have "(computeResults vs gs chk1,
      cache((vs, gs) \<mapsto> \<lparr>ce_results = computeResults vs gs chk1, ce_timestamp = s0\<rparr>))
      = (r1, cache1)"
    using cache_miss[of cache t0 vs gs s0 chk1] by simp
  then have r1: "r1 = computeResults vs gs chk1"
    and c1: "cache1 = cache((vs, gs) \<mapsto> \<lparr>ce_results = r1, ce_timestamp = s0\<rparr>)"
    by auto
  have "cachedResults cache1 t1 (vs, gs) = Some r1"
    using h by (simp add: c1 cachedResults_def)
  then have second: "checkAssumptions cache1 t1 s1 vs gs chk2 = (r1, cache1)"
    by (rule cache_hit)
  have hom: "res_homogeneity r1 \<noteq> None \<longleftrightarrow> (\<exists>labels. gs = Some labels \<and> labels \<noteq> [])"
    if "chk_homogeneity chk1"
    using that unfolding r1 by (cases gs) (simp_all add: computeResults_def)
  have nohom: "res_homogeneity r1 = None" if "\<not> chk_homogeneity chk1"
    using that unfolding r1 by (cases gs) (simp_all add: computeResults_def)
  show "checkAssumptions cache1 t1 s1 vs gs chk2 = (r1, cache1) \<and>
     (\<not> chk_normality chk1 \<longrightarrow> res_normality r1 = None) \<and>
     (\<not> chk_homogeneity chk1 \<longrightarrow> res_homogeneity r1 = None) \<and>
     (\<not> chk_outliers chk1 \<longrightarrow> res_outliers r1 = None) \<and>
     (chk_normality chk1 \<longrightarrow>
        (res_normality r1 \<noteq> None \<longleftrightarrow> 3 \<le> length vs \<and> length vs \<le> 5000)) \<and>
     (chk_homogeneity chk1 \<longrightarrow>
        (res_homogeneity r1 \<noteq> None \<longleftrightarrow> (\<exists>labels. gs = Some labels \<and> labels \<noteq> []))) \<and>
     (chk_outliers chk1 \<longrightarrow> res_outliers r1 \<noteq> None)"
    using second hom nohom by (simp add: r1 computeResults_def)
qed

theorem C10_cache_ignores_checks_witness:
  "cachedResults Map.empty 0 ([1, 2, 3, 4], Some [''a'', ''a'', ''b'', ''b'']) = None \<and>
   (100000 :: int) - 300000 < 5 \<and>
   fst (checkAssumptions
      (snd (checkAssumptions Map.empty 0 5 [1, 2, 3, 4] (Some [''a'', ''a'', ''b'', ''b''])
         \<lparr>chk_normality = True, chk_homogeneity = False, chk_outliers = False\<rparr>))
      100000 100005 [1, 2, 3, 4] (Some [''a'', ''a'', ''b'', ''b''])
      \<lparr>chk_normality = False, chk_homogeneity = False, chk_outliers = True\<rparr>)
   = \<lparr>res_normality = Some (shapiroWilkTest [1, 2, 3, 4]), res_homogeneity = None,
      res_outliers = None\<rparr>"
proof -
  define chk1 where "chk1 = \<lparr>chk_normality = True, chk_homogeneity = False, chk_outliers = False\<rparr>"
  define chk2 where "chk2 = \<lparr>chk_normality = False, chk_homogeneity = False, chk_outliers = True\<rparr>"
  define gs where "gs = Some [''a'', ''a'', ''b'', ''b'']"
  define vs where "vs = [1, 2, 3, 4 :: real]"
  define first where "first = checkAssumptions Map.empty 0 5 vs gs chk1"
  have miss: "cachedResults Map.empty 0 (vs, gs) = None"
    by (simp add: cachedResults_def)
  have t: "(100000 :: int) - 300000 < 5"
    by simp
  have f: "checkAssumptions Map.empty 0 5 vs gs chk1 = (fst first, snd first)"
    by (simp add: first_def)
  have r: "fst first = \<lparr>res_normality = Some (shapiroWilkTest vs), res_homogeneity = None,
      res_outliers = None\<rparr>"
    unfolding first_def cache_miss[OF miss]
    by (simp add: computeResults_def chk1_def gs_def vs_def)
  have "checkAssumptions (snd first) 100000 100005 vs gs chk2 = (fst first, snd first)"
    using C10_cache_ignores_checks[of Map.empty 0 vs gs 5 chk1 "fst first" "snd first" 100000 100005 chk2]
      miss t f by blast
  then have "fst (checkAssumptions (snd first) 100000 100005 vs gs chk2) =
      \<lparr>res_normality = Some (shapiroWilkTest vs), res_homogeneity = None, res_outliers = None\<rparr>"
    using r by simp
  then show ?thesis
    using miss t unfolding first_def chk1_def chk2_def gs_def vs_def by simp
qed

theorem C10_requested_check_absent_counterexample:
  "(100000 :: int) - 300000 < 5 \<and>
   res_normality (fst (checkAssumptions
      (snd (checkAssumptions Map.empty 0 5 [1, 2] None
         \<lparr>chk_normality = True, chk_homogeneity = False, chk_outliers = False\<rparr>))
      100000 100005 [1, 2] None
      \<lparr>chk_normality = False, chk_homogeneity = False, chk_outliers = True\<rparr>)) = None \<and>
   fst (checkAssumptions
      (Map.empty(([1, 2, 3], None) \<mapsto>
         \<lparr>ce_results = \<lparr>res_normality = None, res_homogeneity = None, res_outliers = None\<rparr>,
          ce_timestamp = 0\<rparr>))
      299999 299999 [1, 2, 3] None
      \<lparr>chk_normality = True, chk_homogeneity = False, chk_outliers = False\<rparr>)
     = \<lparr>res_normality = None, res_homogeneity = None, res_outliers = None\<rparr> \<and>
   (400000 :: int) - 299999 < 300000 \<and>
   res_normality (fst (checkAssumptions
      (Map.empty(([1, 2, 3], None) \<mapsto>
         \<lparr>ce_results = \<lparr>res_normality = None, res_homogeneity = None, res_outliers = None\<rparr>,
          ce_timestamp = 0\<rparr>))
      400000 400000 [1, 2, 3] None
      \<lparr>chk_normality = True, chk_homogeneity = False, chk_outliers = False\<rparr>)) \<noteq> None"
  by (simp add: checkAssumptions_def cachedResults_def computeResults_def Let_def)

section \<open>Properties of the two ways to run a test\<close>

text \<open>
  Addressed the way its handler reads a request, with \<open>testId\<close>, \<open>data\<close>, \<open>catColumn\<close> and
  \<open>numColumn\<close> as the properties of the handler's argument, the worker does run the
  independent t-test: on the groups \<open>1, 3\<close> and \<open>2, 4\<close> it finds \<open>t = -1\<close> and takes the
  p-value \<open>0.3\<close> from its step function; on two groups without spread it divides by zero,
  and the p-value of the infinite \<open>t\<close> is \<open>0.0001\<close>.
\<close>

lemma readColumn_objects:
  "readColumn k (map Obj rows) = Inr (map (cell k) rows)"
  by (induction rows) (simp_all add: property_def cell_def)

lemma handleTestRequest_own_request:
  "handleTestRequest script b
     (Obj [(''testId'', Str ''independent-t-test''),
           (''data'', Arr (map Obj [[(''group'', Str ''a''), (''score'', Num 1)],
                                    [(''group'', Str ''a''), (''score'', Num 3)],
                                    [(''group'', Str ''b''), (''score'', Num 2)],
                                    [(''group'', Str ''b''), (''score'', Num 4)]])),
           (''catColumn'', Str ''group''), (''numColumn'', Str ''score'')])
   = Inr (testComplete (IndependentTTestResults
       \<lparr>wt_t = Finite (- 1), wt_df = 2, wt_pValue = 0.3,
        wt_mean1 = Finite 2, wt_mean2 = Finite 3, wt_std1 = Finite 1, wt_std2 = Finite 1,
        wt_n1 = 2, wt_n2 = 2, wt_interpretation = NoSignificantDifference 0.3\<rparr>))"
  by (simp add: handleTestRequest_def property_def requestedTest_def propertyKey_def
      parseFloat_def worker_runIndependentTTest_def uniqueGroups_def groupValues_def
      StatsLib_tTest_def StatsLib_mean_def StatsLib_stdDev_def js_minus_def
      calculateTPValue_def interpretTTestResult_def testComplete_def Let_def)

lemma handleTestRequest_no_spread:
  "handleTestRequest script b
     (Obj [(''testId'', Str ''independent-t-test''),
           (''data'', Arr (map Obj [[(''group'', Str ''a''), (''score'', Num 1)],
                                    [(''group'', Str ''a''), (''score'', Num 1)],
                                    [(''group'', Str ''b''), (''score'', Num 2)],
                                    [(''group'', Str ''b''), (''score'', Num 2)]])),
           (''catColumn'', Str ''group''), (''numColumn'', Str ''score'')])
   = Inr (testComplete (IndependentTTestResults
       \<lparr>wt_t = NegInfinity, wt_df = 2, wt_pValue = 0.0001,
        wt_mean1 = Finite 1, wt_mean2 = Finite 2, wt_std1 = Finite 0, wt_std2 = Finite 0,
        wt_n1 = 2, wt_n2 = 2, wt_interpretation = SignificantDifference\<rparr>))"
  by (simp add: handleTestRequest_def property_def requestedTest_def propertyKey_def
      parseFloat_def worker_runIndependentTTest_def uniqueGroups_def groupValues_def
      StatsLib_tTest_def StatsLib_mean_def StatsLib_stdDev_def js_minus_def
      calculateTPValue_def interpretTTestResult_def testComplete_def Let_def)

text \<open>
  The application does not address the worker that way. It posts \<open>testId\<close>, \<open>data\<close>,
  \<open>catColumn\<close> and \<open>numColumn\<close> beside \<open>action\<close>, \<open>onmessage\<close> passes the \<open>data\<close> of that
  message, the table, to the handler, and the handler looks for its four properties in
  the table: an array has none of them, and \<open>null\<close> cannot be asked.
\<close>

lemma handleTestRequest_table:
  "handleTestRequest script b (Arr rows) =
     Inr (errorResponse (RunFailed (TypeError (PropertyOfUndefined ''map''))))"
  by (simp add: handleTestRequest_def property_def requestedTest_def)

lemma handleTestRequest_null:
  "handleTestRequest script b Null = Inl (PropertyOfUndefined ''testId'')"
  by (simp add: handleTestRequest_def property_def)

lemma worker_answer_to_application:
  "worker_onmessage script b
     (Obj [(''action'', Str ''runTest''), (''testId'', Str testId), (''data'', datasetValue data),
           (''catColumn'', Str catColumn), (''numColumn'', Str numColumn)])
   = Inr (errorResponse
       (case data of
          None \<Rightarrow> Unprefixed (PropertyOfUndefined ''testId'')
        | Some rows \<Rightarrow> RunFailed (TypeError (PropertyOfUndefined ''map''))))"
  by (cases data)
    (simp_all add: worker_onmessage_def property_def datasetValue_def handleTestRequest_table
      handleTestRequest_null)

lemma validateDataForTest_example:
  "validateDataForTest b ''independent-t-test''
     (Some [[(''group'', Str ''a''), (''score'', Num 1)], [(''group'', Str ''a''), (''score'', Num 3)],
            [(''group'', Str ''b''), (''score'', Num 2)], [(''group'', Str ''b''), (''score'', Num 4)]])
     ''group'' ''score'' = []"
  by (simp add: validateDataForTest_def getTestById_def testsDatabase_def cell_def parseFloat_def
      uniqueGroups_def Let_def)

lemma validateDataForTest_one_group:
  "validateDataForTest b ''independent-t-test''
     (Some [[(''group'', Str ''a''), (''score'', Num 1)], [(''group'', Str ''a''), (''score'', Num 3)]])
     ''group'' ''score'' = [TooFewGroups 1 2]"
  "validateDataForTest b ''paired-t-test''
     (Some [[(''group'', Str ''a''), (''score'', Num 1)], [(''group'', Str ''a''), (''score'', Num 3)]])
     ''group'' ''score'' = [TooFewGroups 1 2]"
  "validateDataForTest b ''one-way-anova''
     (Some [[(''group'', Str ''a''), (''score'', Num 1)], [(''group'', Str ''a''), (''score'', Num 3)]])
     ''group'' ''score'' = [TooFewGroups 1 3]"
  "validateDataForTest b ''pearson-correlation''
     (Some [[(''group'', Str ''a''), (''score'', Num 1)], [(''group'', Str ''a''), (''score'', Num 3)]])
     ''group'' ''score'' = [SampleSizeTooSmall 2 3]"
  by (simp_all add: validateDataForTest_def getTestById_def testsDatabase_def cell_def
      parseFloat_def uniqueGroups_def Let_def)

lemma runIndependentTTest_example:
  "runIndependentTTest lib [1, 3, 2, 4] [Str ''a'', Str ''a'', Str ''b'', Str ''b''] =
     Inr \<lparr>tt_t = - 1, tt_df = 2, tt_pValue = 2 * (1 - studentt_cdf lib 1 2),
          tt_mean1 = 2, tt_mean2 = 3, tt_std1 = 1, tt_std2 = 1, tt_n1 = 2, tt_n2 = 2,
          tt_cohensD = - 1,
          tt_ciLower = - 1 - studentt_inv lib 0.975 2,
          tt_ciUpper = - 1 + studentt_inv lib 0.975 2,
          tt_containsZero = (- 1 - studentt_inv lib 0.975 2 \<le> 0 \<and> - 1 + studentt_inv lib 0.975 2 \<ge> 0),
          tt_power = calculatePower lib (- 1) 2 0.05 True\<rparr>"
  by (simp add: runIndependentTTest_def uniqueGroups_def groupValues_def ss_mean_def
      ss_standardDeviation_def pooledStd_def Let_def)

lemma dividesByNonZero_example:
  "dividesByNonZero [1, 3, 2, 4] [Str ''a'', Str ''a'', Str ''b'', Str ''b'']"
  by (simp add: dividesByNonZero_def uniqueGroups_def groupValues_def ss_standardDeviation_def
      pooledStd_def Let_def)

text \<open>
  C1: a test sent to the worker never comes back with a result. Whatever the test id,
  the table and the columns, \<open>runAnalysisWithWorker\<close> rejects: with the \<open>TypeError\<close> of
  calling \<open>map\<close> on \<open>undefined\<close> behind the prefix of a failed test when there is a table,
  and with the bare \<open>TypeError\<close> of taking \<open>testId\<close> out of \<open>null\<close> when there is none.
  \<open>runTest\<close> on the main thread resolves on the table with the groups \<open>1, 3\<close> and \<open>2, 4\<close>,
  with \<open>t = -1\<close>, two degrees of freedom and the p-value of the library's distribution
  function. On a table of two rows with one group \<open>runTest\<close> rejects each of the four test
  ids that the worker knows with the validation error of that test (too few groups, or
  too few values), not with the error of the worker path.
\<close>

theorem C1_offloaded_test_is_rejected:
  "runAnalysisWithWorker script b testId (Some rows) catColumn numColumn =
     Rejected (RunFailed (TypeError (PropertyOfUndefined ''map''))) \<and>
   runAnalysisWithWorker script b testId None catColumn numColumn =
     Rejected (Unprefixed (PropertyOfUndefined ''testId'')) \<and>
   (\<exists>r. runTest lib b otherTests ''independent-t-test''
           (Some [[(''group'', Str ''a''), (''score'', Num 1)],
                  [(''group'', Str ''a''), (''score'', Num 3)],
                  [(''group'', Str ''b''), (''score'', Num 2)],
                  [(''group'', Str ''b''), (''score'', Num 4)]])
           ''group'' ''score'' = Resolved (IndependentTTest r) \<and>
        tt_t r = - 1 \<and> tt_df r = 2 \<and> tt_pValue r = 2 * (1 - studentt_cdf lib 1 2) \<and>
        tt_mean1 r = 2 \<and> tt_mean2 r = 3 \<and> tt_std1 r = 1 \<and> tt_std2 r = 1 \<and>
        tt_n1 r = 2 \<and> tt_n2 r = 2) \<and>
   runTest lib b otherTests ''independent-t-test''
     (Some [[(''group'', Str ''a''), (''score'', Num 1)],
            [(''group'', Str ''a''), (''score'', Num 3)]])
     ''group'' ''score'' = Rejected (RunFailed (InvalidData [TooFewGroups 1 2])) \<and>
   runTest lib b otherTests ''paired-t-test''
     (Some [[(''group'', Str ''a''), (''score'', Num 1)],
            [(''group'', Str ''a''), (''score'', Num 3)]])
     ''group'' ''score'' = Rejected (RunFailed (InvalidData [TooFewGroups 1 2])) \<and>
   runTest lib b otherTests ''one-way-anova''
     (Some [[(''group'', Str ''a''), (''score'', Num 1)],
            [(''group'', Str ''a''), (''score'', Num 3)]])
     ''group'' ''score'' = Rejected (RunFailed (InvalidData [TooFewGroups 1 3])) \<and>
   runTest lib b otherTests ''pearson-correlation''
     (Some [[(''group'', Str ''a''), (''score'', Num 1)],
            [(''group'', Str ''a''), (''score'', Num 3)]])
     ''group'' ''score'' = Rejected (RunFailed (InvalidData [SampleSizeTooSmall 2 3]))"
proof (intro conjI)
  show "runAnalysisWithWorker script b testId (Some rows) catColumn numColumn =
     Rejected (RunFailed (TypeError (PropertyOfUndefined ''map'')))"
    by (simp add: runAnalysisWithWorker_def worker_answer_to_application errorResponse_def)
  show "runAnalysisWithWorker script b testId None catColumn numColumn =
     Rejected (Unprefixed (PropertyOfUndefined ''testId''))"
    by (simp add: runAnalysisWithWorker_def worker_answer_to_application errorResponse_def)
  show "\<exists>r. runTest lib b otherTests ''independent-t-test''
           (Some [[(''group'', Str ''a''), (''score'', Num 1)],
                  [(''group'', Str ''a''), (''score'', Num 3)],
                  [(''group'', Str ''b''), (''score'', Num 2)],
                  [(''group'', Str ''b''), (''score'', Num 4)]])
           ''group'' ''score'' = Resolved (IndependentTTest r) \<and>
        tt_t r = - 1 \<and> tt_df r = 2 \<and> tt_pValue r = 2 * (1 - studentt_cdf lib 1 2) \<and>
        tt_mean1 r = 2 \<and> tt_mean2 r = 3 \<and> tt_std1 r = 1 \<and> tt_std2 r = 1 \<and>
        tt_n1 r = 2 \<and> tt_n2 r = 2"
    by (simp add: runTest_def validateDataForTest_example cell_def parseFloat_def isFinite_def
        realOf_def dividesByNonZero_example runIndependentTTest_example)
  show "runTest lib b otherTests ''independent-t-test''
     (Some [[(''group'', Str ''a''), (''score'', Num 1)],
            [(''group'', Str ''a''), (''score'', Num 3)]])
     ''group'' ''score'' = Rejected (RunFailed (InvalidData [TooFewGroups 1 2]))"
    by (simp add: runTest_def validateDataForTest_one_group)
  show "runTest lib b otherTests ''paired-t-test''
     (Some [[(''group'', Str ''a''), (''score'', Num 1)],
            [(''group'', Str ''a''), (''score'', Num 3)]])
     ''group'' ''score'' = Rejected (RunFailed (InvalidData [TooFewGroups 1 2]))"
    by (simp add: runTest_def validateDataForTest_one_group)
  show "runTest lib b otherTests ''one-way-anova''
     (Some [[(''group'', Str ''a''), (''score'', Num 1)],
            [(''group'', Str ''a''), (''score'', Num 3)]])
     ''group'' ''score'' = Rejected (RunFailed (InvalidData [TooFewGroups 1 3]))"
    by (simp add: runTest_def validateDataForTest_one_group)
  show "runTest lib b otherTests ''pearson-correlation''
     (Some [[(''group'', Str ''a''), (''score'', Num 1)],
            [(''group'', Str ''a''), (''score'', Num 3)]])
     ''group'' ''score'' = Rejected (RunFailed (InvalidData [SampleSizeTooSmall 2 3]))"
    by (simp add: runTest_def validateDataForTest_one_group)
qed

lemma pooledStd_commute: "pooledStd n2 s2 n1 s1 = pooledStd n1 s1 n2 s2"
  by (simp add: pooledStd_def add.commute)

text \<open>
  C7: let two inputs hold the same two groups of observations, each of at least two
  values and with a pooled standard deviation that is not zero, the group that comes
  first in one input coming second in the other. Then both runs of the independent
  t-test succeed, the t statistic and Cohen's d of one are the negations of those of the
  other, and the p-value and the degrees of freedom \<open>n1 + n2 - 2\<close> are the same.
\<close>

theorem C7_swap_negates_t_and_d:
  assumes "uniqueGroups gs = [a, b]" and "uniqueGroups gs' = [b, a]"
    and "groupValues vs' gs' a = groupValues vs gs a"
    and "groupValues vs' gs' b = groupValues vs gs b"
    and "2 \<le> length (groupValues vs gs a)" and "2 \<le> length (groupValues vs gs b)"
    and "ss_standardDeviation (groupValues vs gs a) = Inr std1"
    and "ss_standardDeviation (groupValues vs gs b) = Inr std2"
    and "pooledStd (length (groupValues vs gs a)) std1 (length (groupValues vs gs b)) std2 \<noteq> 0"
  shows "\<exists>r r'. runIndependentTTest lib vs gs = Inr r \<and>
           runIndependentTTest lib vs' gs' = Inr r' \<and>
           tt_t r' = - tt_t r \<and> tt_cohensD r' = - tt_cohensD r \<and>
           tt_pValue r' = tt_pValue r \<and> tt_df r' = tt_df r \<and>
           tt_df r = int (length (groupValues vs gs a)) + int (length (groupValues vs gs b)) - 2"
proof -
  define g1 where "g1 = groupValues vs gs a"
  define g2 where "g2 = groupValues vs gs b"
  have ne: "g1 \<noteq> []" "g2 \<noteq> []"
    using assms(5,6) by (auto simp: g1_def g2_def)
  define m1 where "m1 = sum_list g1 / real (length g1)"
  define m2 where "m2 = sum_list g2 / real (length g2)"
  have lib: "ss_mean g1 = Inr m1" "ss_mean g2 = Inr m2"
    "ss_standardDeviation g1 = Inr std1" "ss_standardDeviation g2 = Inr std2"
    using ne assms(7,8) by (simp_all add: ss_mean_def m1_def m2_def g1_def g2_def)
  define p where "p = pooledStd (length g1) std1 (length g2) std2"
  define q where "q = sqrt (1 / real (length g1) + 1 / real (length g2))"
  define m where "m = m1 - m2"
  define df where "df = int (length g1) + int (length g2) - 2"
  have p': "pooledStd (length g2) std2 (length g1) std1 = p"
    unfolding p_def by (rule pooledStd_commute)
  have m': "m2 - m1 = - m"
    by (simp add: m_def)
  have r: "runIndependentTTest lib vs gs =
     Inr \<lparr>tt_t = m / (p * q), tt_df = df,
          tt_pValue = 2 * (1 - studentt_cdf lib \<bar>m / (p * q)\<bar> (of_int df)),
          tt_mean1 = m1, tt_mean2 = m2,
          tt_std1 = std1, tt_std2 = std2,
          tt_n1 = length g1, tt_n2 = length g2,
          tt_cohensD = m / p,
          tt_ciLower = m - studentt_inv lib 0.975 (of_int df) * (p * q),
          tt_ciUpper = m + studentt_inv lib 0.975 (of_int df) * (p * q),
          tt_containsZero =
            (m - studentt_inv lib 0.975 (of_int df) * (p * q) \<le> 0 \<and>
             m + studentt_inv lib 0.975 (of_int df) * (p * q) \<ge> 0),
          tt_power = calculatePower lib (m / (p * q)) df 0.05 True\<rparr>"
    using assms(1) lib
    by (simp add: runIndependentTTest_def Let_def p_def q_def m_def df_def flip: g1_def g2_def)
  have r': "runIndependentTTest lib vs' gs' =
     Inr \<lparr>tt_t = - m / (p * q), tt_df = df,
          tt_pValue = 2 * (1 - studentt_cdf lib \<bar>- m / (p * q)\<bar> (of_int df)),
          tt_mean1 = m2, tt_mean2 = m1,
          tt_std1 = std2, tt_std2 = std1,
          tt_n1 = length g2, tt_n2 = length g1,
          tt_cohensD = - m / p,
          tt_ciLower = - m - studentt_inv lib 0.975 (of_int df) * (p * q),
          tt_ciUpper = - m + studentt_inv lib 0.975 (of_int df) * (p * q),
          tt_containsZero =
            (- m - studentt_inv lib 0.975 (of_int df) * (p * q) \<le> 0 \<and>
             - m + studentt_inv lib 0.975 (of_int df) * (p * q) \<ge> 0),
          tt_power = calculatePower lib (- m / (p * q)) df 0.05 True\<rparr>"
    using assms(2) lib
    by (simp add: runIndependentTTest_def Let_def assms(3,4) p' m' df_def q_def add.commute
        flip: g1_def g2_def)
  show ?thesis
    unfolding r r' by (simp add: df_def flip: g1_def g2_def)
qed

theorem C7_swap_witness:
  "uniqueGroups [''a'', ''a'', ''b'', ''b''] = [''a'', ''b''] \<and>
   uniqueGroups [''b'', ''b'', ''a'', ''a''] = [''b'', ''a''] \<and>
   groupValues [2, 4, 1, 3 :: real] [''b'', ''b'', ''a'', ''a''] ''a''
     = groupValues [1, 3, 2, 4] [''a'', ''a'', ''b'', ''b''] ''a'' \<and>
   groupValues [2, 4, 1, 3 :: real] [''b'', ''b'', ''a'', ''a''] ''b''
     = groupValues [1, 3, 2, 4] [''a'', ''a'', ''b'', ''b''] ''b'' \<and>
   ss_standardDeviation [1, 3] = Inr 1 \<and> ss_standardDeviation [2, 4] = Inr 1 \<and>
   pooledStd 2 1 2 1 = 1 \<and>
   (\<forall>lib. map_sum id tt_t (runIndependentTTest lib [1, 3, 2, 4] [''a'', ''a'', ''b'', ''b'']) = Inr (- 1) \<and>
          map_sum id tt_t (runIndependentTTest lib [2, 4, 1, 3] [''b'', ''b'', ''a'', ''a'']) = Inr 1 \<and>
          map_sum id tt_pValue (runIndependentTTest lib [2, 4, 1, 3] [''b'', ''b'', ''a'', ''a''])
            = map_sum id tt_pValue (runIndependentTTest lib [1, 3, 2, 4] [''a'', ''a'', ''b'', ''b'']))"
proof -
  have u: "uniqueGroups [''a'', ''a'', ''b'', ''b''] = [''a'', ''b'']"
    and u': "uniqueGroups [''b'', ''b'', ''a'', ''a''] = [''b'', ''a'']"
    by (simp_all add: uniqueGroups_def)
  have ga: "groupValues [1, 3, 2, 4 :: real] [''a'', ''a'', ''b'', ''b''] ''a'' = [1, 3]"
    and gb: "groupValues [1, 3, 2, 4 :: real] [''a'', ''a'', ''b'', ''b''] ''b'' = [2, 4]"
    and ga': "groupValues [2, 4, 1, 3 :: real] [''b'', ''b'', ''a'', ''a''] ''a'' = [1, 3]"
    and gb': "groupValues [2, 4, 1, 3 :: real] [''b'', ''b'', ''a'', ''a''] ''b'' = [2, 4]"
    by (simp_all add: groupValues_def)
  have sd: "ss_standardDeviation [1, 3] = Inr 1" "ss_standardDeviation [2, 4] = Inr 1"
    by (simp_all add: ss_standardDeviation_def)
  have po: "pooledStd 2 1 2 1 = 1"
    by (simp add: pooledStd_def)
  have t: "map_sum id tt_t (runIndependentTTest lib [1, 3, 2, 4] [''a'', ''a'', ''b'', ''b'']) = Inr (- 1)"
    for lib
    by (simp add: runIndependentTTest_def u ga gb ss_mean_def ss_standardDeviation_def
        pooledStd_def Let_def)
  have "map_sum id tt_t (runIndependentTTest lib [2, 4, 1, 3] [''b'', ''b'', ''a'', ''a'']) = Inr 1 \<and>
        map_sum id tt_pValue (runIndependentTTest lib [2, 4, 1, 3] [''b'', ''b'', ''a'', ''a''])
            = map_sum id tt_pValue (runIndependentTTest lib [1, 3, 2, 4] [''a'', ''a'', ''b'', ''b''])"
    for lib
  proof -
    have "\<exists>r r'. runIndependentTTest lib [1, 3, 2, 4] [''a'', ''a'', ''b'', ''b''] = Inr r \<and>
           runIndependentTTest lib [2, 4, 1, 3] [''b'', ''b'', ''a'', ''a''] = Inr r' \<and>
           tt_t r' = - tt_t r \<and> tt_cohensD r' = - tt_cohensD r \<and>
           tt_pValue r' = tt_pValue r \<and> tt_df r' = tt_df r \<and>
           tt_df r = int (length (groupValues [1, 3, 2, 4 :: real] [''a'', ''a'', ''b'', ''b''] ''a''))
             + int (length (groupValues [1, 3, 2, 4 :: real] [''a'', ''a'', ''b'', ''b''] ''b'')) - 2"
      by (rule C7_swap_negates_t_and_d[OF u u', where ?std1.0 = 1 and ?std2.0 = 1])
        (simp_all add: ga gb ga' gb' sd pooledStd_def)
    then obtain r r' where rr: "runIndependentTTest lib [1, 3, 2, 4] [''a'', ''a'', ''b'', ''b''] = Inr r"
      "runIndependentTTest lib [2, 4, 1, 3] [''b'', ''b'', ''a'', ''a''] = Inr r'"
      "tt_t r' = - tt_t r" "tt_pValue r' = tt_pValue r"
      by blast
    have "tt_t r = - 1"
      using t[of lib] rr(1) by simp
    then show ?thesis
      using rr by simp
  qed
  then show ?thesis
    using u u' ga gb ga' gb' sd po t by simp
qed

section \<open>Properties of the offload coordinator\<close>

lemma step_keeps_single_flight:
  assumes "e \<noteq> ClearData"
    and "outstanding s \<le> 1" and "outstanding s = 1 \<longrightarrow> workerBusy s"
  shows "outstanding (fst (step s e)) \<le> 1 \<and>
         (outstanding (fst (step s e)) = 1 \<longrightarrow> workerBusy (fst (step s e)))"
  using assms
  by (cases e)
    (auto simp: runSelectedAnalysis_def onWorkerMessage_def onTimeout_def Let_def)

lemma run_keeps_single_flight:
  "ClearData \<notin> set es \<Longrightarrow> outstanding s \<le> 1 \<Longrightarrow> (outstanding s = 1 \<longrightarrow> workerBusy s) \<Longrightarrow>
   outstanding (run s es) \<le> 1 \<and> (outstanding (run s es) = 1 \<longrightarrow> workerBusy (run s es))"
proof (induction es arbitrary: s)
  case Nil
  then show ?case by simp
next
  case (Cons e es)
  have e: "e \<noteq> ClearData" and es: "ClearData \<notin> set es"
    using Cons.prems(1) by auto
  note st = step_keeps_single_flight[OF e Cons.prems(2,3)]
  show ?case
    using Cons.IH[OF es, of "fst (step s e)"] st by simp
qed

lemma single_flight_without_reset:
  "ClearData \<notin> set es \<Longrightarrow> outstanding (run (initialState w) es) \<le> 1"
  using run_keeps_single_flight[of es "initialState w"] by (simp add: initialState_def)

text \<open>
  After "run, clear, run" the handler of the second call is the one installed: both
  answers of the worker run it, the first settles the second call's promise and clears
  the second call's timer, the second finds nothing left to settle, and the timer of the
  first call stays armed.
\<close>

lemma answers_after_reset:
  "run (initialState True) [RunAnalysis, ClearData, RunAnalysis, WorkerAnswers, WorkerAnswers] =
     \<lparr>hasWorker = True, workerBusy = False, outstanding = 0, armedTimers = 1,
      latestTimerArmed = False, latestPending = False\<rparr> \<and>
   snd (step (run (initialState True) [RunAnalysis, ClearData, RunAnalysis]) WorkerAnswers) = Settled \<and>
   snd (step (run (initialState True) [RunAnalysis, ClearData, RunAnalysis, WorkerAnswers])
     WorkerAnswers) = AnswerDropped"
  by (simp add: initialState_def runSelectedAnalysis_def clearData_def onWorkerMessage_def)

text \<open>
  C9: the sequence "run an analysis, clear the data, run an analysis", with no answer
  from the worker in between, leaves two offloaded computations outstanding: the reset
  clears the busy flag while the first computation is still running, and the second
  analysis is posted to the same worker. Busy or without a worker, an analysis does run
  on the main thread, and a timeout does terminate and restart the worker and reject
  with the timeout error.
\<close>

theorem C9_two_outstanding_after_reset:
  "outstanding (run (initialState True) [RunAnalysis, ClearData, RunAnalysis]) = 2 \<and>
   snd (step (run (initialState True) [RunAnalysis, ClearData]) RunAnalysis) = Offloaded \<and>
   snd (step (run (initialState True) [RunAnalysis]) RunAnalysis) = RanOnMainThread \<and>
   snd (step (initialState False) RunAnalysis) = RanOnMainThread \<and>
   step (run (initialState True) [RunAnalysis]) TimerFires =
     (\<lparr>hasWorker = True, workerBusy = True, outstanding = 0, armedTimers = 0,
       latestTimerArmed = False, latestPending = False\<rparr>,
      RejectedWithTimeout)"
  by (simp add: initialState_def runSelectedAnalysis_def clearData_def onTimeout_def)

end
